(* ===== verification/Py_Prelude.thy ===== *)
theory Py_Prelude
  imports Main "HOL-Library.Sublist"
begin

text \<open>
  What the broker uses of Python's \<open>str\<close>, and the lemmas on lists that the components
  share. A Python string is a sequence of Unicode code points, so a string of the model is
  a list of natural numbers; \<open>lit ''abc''\<close> is the string of an ASCII literal. The
  operations (\<open>strip\<close>, \<open>split\<close>, \<open>join\<close>, \<open>replace\<close>, \<open>startswith\<close>, \<open>in\<close>,
  \<open>lower\<close>) are those of CPython's \<open>str\<close>.
\<close>

type_synonym cp = nat
type_synonym pystr = "cp list"

named_theorems pystr_simps \<open>evaluation of string operations on literals\<close>
named_theorems outcome_iff \<open>inversion of results of fallible operations\<close>

definition lit :: "string \<Rightarrow> pystr" where
  "lit s = map of_char s"

lemma lit_Nil [simp]: "lit [] = []"
  by (simp add: lit_def)

lemma lit_Cons: "lit (c # s) = of_char c # lit s"
  by (simp add: lit_def)

lemma length_lit [simp]: "length (lit s) = length s"
  by (simp add: lit_def)

lemma lit_ascii: "c \<in> set (lit s) \<Longrightarrow> c < 256"
  by (auto simp: lit_def)

section \<open>Values of the tool interface\<close>

text \<open>The values a tool call can carry: what \<open>json.loads\<close> returns. A dictionary keeps its
  keys in order of first insertion, without duplicates; a float is kept as the text of its
  number.\<close>

datatype pyval =
    PNone
  | PBool bool
  | PInt int
  | PFloat pystr
  | PStr pystr
  | PList "pyval list"
  | PDict "(pystr \<times> pyval) list"

text \<open>The name of the type of a value, as \<open>AttributeError\<close> shows it.\<close>

fun type_name :: "pyval \<Rightarrow> pystr" where
  "type_name PNone = lit ''NoneType''"
| "type_name (PBool _) = lit ''bool''"
| "type_name (PInt _) = lit ''int''"
| "type_name (PFloat _) = lit ''float''"
| "type_name (PStr _) = lit ''str''"
| "type_name (PList _) = lit ''list''"
| "type_name (PDict _) = lit ''dict''"

text \<open>\<open>d.get(key)\<close>: the value of the key, None when it is missing.\<close>

definition dict_get :: "(pystr \<times> pyval) list \<Rightarrow> pystr \<Rightarrow> pyval" where
  "dict_get d k = (case map_of d k of None \<Rightarrow> PNone | Some v \<Rightarrow> v)"

text \<open>\<open>str(n)\<close> of an integer.\<close>

fun nat_digits :: "nat \<Rightarrow> pystr" where
  "nat_digits n = (if n < 10 then [48 + n] else nat_digits (n div 10) @ [48 + n mod 10])"

declare nat_digits.simps [simp del]

definition py_str_int :: "int \<Rightarrow> pystr" where
  "py_str_int i = (if i < 0 then 45 # nat_digits (nat (- i)) else nat_digits (nat i))"

section \<open>White space, strip\<close>

text \<open>\<open>str.isspace\<close> of one character: the code points Unicode gives the bidirectional type
  WS, B or S or the category Zs. The regular expression class \<open>\s\<close> is the same set.\<close>

definition py_isspace :: "cp \<Rightarrow> bool" where
  "py_isspace c \<longleftrightarrow> 9 \<le> c \<and> c \<le> 13 \<or> 28 \<le> c \<and> c \<le> 32 \<or> c = 133 \<or> c = 160 \<or> c = 5760
     \<or> 8192 \<le> c \<and> c \<le> 8202 \<or> c = 8232 \<or> c = 8233 \<or> c = 8239 \<or> c = 8287 \<or> c = 12288"

definition py_strip :: "pystr \<Rightarrow> pystr" where
  "py_strip s = rev (dropWhile py_isspace (rev (dropWhile py_isspace s)))"

lemma py_strip_Nil [simp]: "py_strip [] = []"
  by (simp add: py_strip_def)

lemma dropWhile_ends:
  "dropWhile P xs \<noteq> [] \<Longrightarrow> last (dropWhile P xs) = last xs \<and> \<not> P (hd (dropWhile P xs))"
  by (induction xs) auto

lemma in_set_dropWhile: "x \<in> set (dropWhile P xs) \<Longrightarrow> x \<in> set xs"
  by (induction xs) (auto split: if_splits)

lemma py_strip_empty_iff: "py_strip s = [] \<longleftrightarrow> (\<forall>c \<in> set s. py_isspace c)"
proof (cases "dropWhile py_isspace s = []")
  case True
  then have "\<forall>c \<in> set s. py_isspace c"
    by (auto simp: dropWhile_eq_Nil_conv)
  with True show ?thesis by (auto simp: py_strip_def dest: in_set_dropWhile)
next
  case False
  then have "\<not> py_isspace (hd (dropWhile py_isspace s))"
    by (simp add: dropWhile_ends)
  with False have "\<exists>c \<in> set (dropWhile py_isspace s). \<not> py_isspace c"
    by (meson hd_in_set)
  then show ?thesis
    by (auto simp: py_strip_def dropWhile_eq_Nil_conv dest: in_set_dropWhile)
qed

lemma py_strip_id:
  assumes "s \<noteq> []" "\<not> py_isspace (hd s)" "\<not> py_isspace (last s)"
  shows "py_strip s = s"
proof -
  have "dropWhile py_isspace s = s"
    using assms by (cases s) auto
  moreover have "dropWhile py_isspace (rev s) = rev s"
    using assms by (cases s rule: rev_cases) auto
  ultimately show ?thesis by (simp add: py_strip_def)
qed

lemma py_strip_ends:
  assumes "py_strip s \<noteq> []"
  shows "\<not> py_isspace (hd (py_strip s))" "\<not> py_isspace (last (py_strip s))"
proof -
  define u where "u = dropWhile py_isspace s"
  define t where "t = dropWhile py_isspace (rev u)"
  have st: "py_strip s = rev t" by (simp add: py_strip_def t_def u_def)
  with assms have tne: "t \<noteq> []" by simp
  then have une: "u \<noteq> []" by (auto simp: t_def)
  have "last t = hd u"
    using dropWhile_ends [of py_isspace "rev u"] tne by (simp add: t_def last_rev)
  with une show "\<not> py_isspace (hd (py_strip s))"
    using tne dropWhile_ends [of py_isspace s] by (simp add: st hd_rev u_def)
  show "\<not> py_isspace (last (py_strip s))"
    using dropWhile_ends [of py_isspace "rev u"] tne by (simp add: st last_rev t_def)
qed

lemma py_strip_idem: "py_strip (py_strip s) = py_strip s"
  by (cases "py_strip s = []") (simp_all add: py_strip_id py_strip_ends)

lemma dropWhile_snoc_stop: "dropWhile P xs \<noteq> [] \<Longrightarrow> dropWhile P (xs @ ys) = dropWhile P xs @ ys"
  by (induction xs) auto

lemma py_strip_snoc_space: "py_isspace c \<Longrightarrow> py_strip (s @ [c]) = py_strip s"
proof (cases "dropWhile py_isspace s = []")
  case True
  assume c: "py_isspace c"
  from True have "\<forall>x \<in> set s. py_isspace x" by (simp add: dropWhile_eq_Nil_conv)
  with c have "py_strip (s @ [c]) = []" "py_strip s = []" by (auto simp: py_strip_empty_iff)
  then show ?thesis by simp
next
  case False
  assume "py_isspace c"
  with False show ?thesis by (simp add: py_strip_def dropWhile_snoc_stop)
qed

section \<open>startswith, in, split, join\<close>

abbreviation py_startswith :: "pystr \<Rightarrow> pystr \<Rightarrow> bool" where
  "py_startswith s p \<equiv> prefix p s"

abbreviation py_in :: "pystr \<Rightarrow> pystr \<Rightarrow> bool" where
  "py_in sub s \<equiv> sublist sub s"

text \<open>\<open>s.split(c)\<close> for a one-character separator: always at least one piece.\<close>

fun split_on :: "'a \<Rightarrow> 'a list \<Rightarrow> 'a list list" where
  "split_on c [] = [[]]"
| "split_on c (x # xs) =
     (if x = c then [] # split_on c xs
      else (case split_on c xs of [] \<Rightarrow> [[x]] | p # ps \<Rightarrow> (x # p) # ps))"

fun join_on :: "'a list \<Rightarrow> 'a list list \<Rightarrow> 'a list" where
  "join_on s [] = []"
| "join_on s [p] = p"
| "join_on s (p # q # ps) = p @ s @ join_on s (q # ps)"

lemma split_on_nonempty [simp]: "split_on c xs \<noteq> []"
  by (induction xs) (auto split: list.splits)

lemma join_on_Cons: "join_on s (p # ps) = (if ps = [] then p else p @ s @ join_on s ps)"
  by (cases ps) auto

lemma join_split_on [simp]: "join_on [c] (split_on c xs) = xs"
proof (induction xs)
  case (Cons x xs)
  then show ?case
    by (cases "split_on c xs") (auto simp: join_on_Cons)
qed simp

lemma split_on_pieces: "p \<in> set (split_on c xs) \<Longrightarrow> c \<notin> set p"
proof (induction xs arbitrary: p)
  case (Cons x xs)
  then show ?case
    by (cases "split_on c xs") (auto split: if_splits)
qed simp

lemma split_on_pieces_subset: "p \<in> set (split_on c xs) \<Longrightarrow> set p \<subseteq> set xs"
proof (induction xs arbitrary: p)
  case (Cons x xs)
  then show ?case
    by (cases "split_on c xs") (auto split: if_splits, blast+)
qed simp

lemma split_on_noc: "c \<notin> set xs \<Longrightarrow> split_on c xs = [xs]"
  by (induction xs) auto

lemma split_on_append: "c \<notin> set p \<Longrightarrow> split_on c (p @ c # xs) = p # split_on c xs"
  by (induction p) auto

lemma split_join_on:
  "ps \<noteq> [] \<Longrightarrow> \<forall>p \<in> set ps. c \<notin> set p \<Longrightarrow> split_on c (join_on [c] ps) = ps"
proof (induction ps)
  case (Cons p ps)
  then show ?case
    by (cases "ps = []") (auto simp: join_on_Cons split_on_noc split_on_append)
qed simp

lemma join_on_eq_Nil: "[] \<notin> set ps \<Longrightarrow> join_on s ps = [] \<longleftrightarrow> ps = []"
  by (cases ps) (auto simp: join_on_Cons)

lemma set_join_on: "set (join_on s ps) \<subseteq> set s \<union> \<Union> (set ` set ps)"
  by (induction ps) (auto simp: join_on_Cons)

lemma join_on_append:
  "xs \<noteq> [] \<Longrightarrow> ys \<noteq> [] \<Longrightarrow> join_on s (xs @ ys) = join_on s xs @ s @ join_on s ys"
  by (induction xs) (auto simp: join_on_Cons)

lemma join_on_inj:
  assumes "join_on [c] ps = join_on [c] qs"
    and "ps \<noteq> []" "qs \<noteq> []" "\<forall>p \<in> set ps. c \<notin> set p" "\<forall>q \<in> set qs. c \<notin> set q"
  shows "ps = qs"
  using assms by (metis split_join_on)

section \<open>replace\<close>

text \<open>\<open>s.replace(old, new)\<close> for a non-empty \<open>old\<close>: the leftmost occurrences that do
  not overlap. The case \<open>old = ''\<close> does not occur: every call site tests the secret
  first.\<close>

function py_replace :: "'a list \<Rightarrow> 'a list \<Rightarrow> 'a list \<Rightarrow> 'a list" where
  "py_replace old new [] = []"
| "py_replace old new (x # xs) =
     (if old \<noteq> [] \<and> prefix old (x # xs)
      then new @ py_replace old new (drop (length old) (x # xs))
      else x # py_replace old new xs)"
  by pat_completeness auto
termination
  by (relation "measure (\<lambda>(old, new, xs). length xs)") auto

declare py_replace.simps(2) [simp del]

section \<open>lower\<close>

text \<open>
  \<open>str.lower\<close>, exact on ASCII and on the only two other characters whose lower-case form
  has an ASCII character in it: U+0130 becomes i and U+0307, U+212A becomes k. The lower-case
  form of any other character beyond ASCII has no ASCII character, so for the comparisons
  with ASCII strings that the broker makes it does not matter which one it is; the model
  leaves such characters as they are.
\<close>

definition py_lower_cp :: "cp \<Rightarrow> pystr" where
  "py_lower_cp c = (if 65 \<le> c \<and> c \<le> 90 then [c + 32]
     else if c = 304 then [105, 775] else if c = 8490 then [107] else [c])"

definition py_lower :: "pystr \<Rightarrow> pystr" where
  "py_lower s = concat (map py_lower_cp s)"

lemma py_lower_append [simp]: "py_lower (s @ t) = py_lower s @ py_lower t"
  by (simp add: py_lower_def)

lemma py_lower_Nil [simp]: "py_lower [] = []"
  by (simp add: py_lower_def)

lemma py_lower_Cons: "py_lower (c # s) = py_lower_cp c @ py_lower s"
  by (simp add: py_lower_def)

lemmas [pystr_simps] = lit_def py_isspace_def py_strip_def py_lower_def py_lower_cp_def
  py_replace.simps dict_get_def nat_digits.simps py_str_int_def

end
