(* ===== verification/Py_Url.thy ===== *)
theory Py_Url
  imports Py_Prelude
begin

text \<open>
  \<open>urllib.parse.unquote\<close> of the standard library, as the path checker calls it (UTF-8,
  errors replaced). The ASCII runs of the string are decoded one by one: every percent sign
  followed by two hexadecimal digits becomes a byte, and the bytes of the run are decoded as
  UTF-8, each maximal malformed part becoming U+FFFD. Characters beyond ASCII are kept.

  The lemmas say when one call changes nothing: exactly when no percent sign is followed by
  two hexadecimal digits. A call that changes the string makes it shorter.
\<close>

section \<open>Percent escapes to bytes\<close>

definition hexval :: "cp \<Rightarrow> nat option" where
  "hexval c = (if 48 \<le> c \<and> c \<le> 57 then Some (c - 48)
     else if 65 \<le> c \<and> c \<le> 70 then Some (c - 55)
     else if 97 \<le> c \<and> c \<le> 102 then Some (c - 87) else None)"

fun unquote_to_bytes :: "pystr \<Rightarrow> nat list" where
  "unquote_to_bytes [] = []"
| "unquote_to_bytes (c # xs) =
     (if c = 37
      then (case xs of
              a # b # ys \<Rightarrow>
                (case (hexval a, hexval b) of
                   (Some h, Some l) \<Rightarrow> (16 * h + l) # unquote_to_bytes ys
                 | _ \<Rightarrow> c # unquote_to_bytes xs)
            | _ \<Rightarrow> c # unquote_to_bytes xs)
      else c # unquote_to_bytes xs)"

fun has_escape :: "pystr \<Rightarrow> bool" where
  "has_escape (c # a # b # xs) \<longleftrightarrow>
     c = 37 \<and> hexval a \<noteq> None \<and> hexval b \<noteq> None \<or> has_escape (a # b # xs)"
| "has_escape _ \<longleftrightarrow> False"

section \<open>UTF-8 with replacement\<close>

text \<open>The number of continuation bytes a lead byte announces and the bounds of the first.\<close>

definition utf8_lead :: "nat \<Rightarrow> (nat \<times> nat \<times> nat) option" where
  "utf8_lead b =
     (if 194 \<le> b \<and> b \<le> 223 then Some (1, 128, 191)
      else if b = 224 then Some (2, 160, 191)
      else if b = 237 then Some (2, 128, 159)
      else if 225 \<le> b \<and> b \<le> 239 then Some (2, 128, 191)
      else if b = 240 then Some (3, 144, 191)
      else if 241 \<le> b \<and> b \<le> 243 then Some (3, 128, 191)
      else if b = 244 then Some (3, 128, 143)
      else None)"

definition utf8_cont :: "nat \<Rightarrow> bool" where
  "utf8_cont b \<longleftrightarrow> 128 \<le> b \<and> b \<le> 191"

definition utf8_multi :: "nat \<Rightarrow> nat list \<Rightarrow> cp \<times> nat list" where
  "utf8_multi b bs =
     (case utf8_lead b of
        None \<Rightarrow> (65533, bs)
      | Some (n, lo, hi) \<Rightarrow>
          (case bs of
             [] \<Rightarrow> (65533, [])
           | c1 # r1 \<Rightarrow>
               if \<not> (lo \<le> c1 \<and> c1 \<le> hi) then (65533, bs)
               else if n = 1 then ((b - 192) * 64 + (c1 - 128), r1)
               else (case r1 of
                  [] \<Rightarrow> (65533, [])
                | c2 # r2 \<Rightarrow>
                    if \<not> utf8_cont c2 then (65533, r1)
                    else if n = 2
                    then ((b - 224) * 4096 + (c1 - 128) * 64 + (c2 - 128), r2)
                    else (case r2 of
                       [] \<Rightarrow> (65533, [])
                     | c3 # r3 \<Rightarrow>
                         if \<not> utf8_cont c3 then (65533, r2)
                         else ((b - 240) * 262144 + (c1 - 128) * 4096
                               + (c2 - 128) * 64 + (c3 - 128), r3)))))"

lemma utf8_multi_shrinks: "length (snd (utf8_multi b bs)) \<le> length bs"
  by (auto simp: utf8_multi_def split: option.splits list.splits)

function utf8_decode :: "nat list \<Rightarrow> pystr" where
  "utf8_decode [] = []"
| "utf8_decode (b # bs) =
     (if b < 128 then b # utf8_decode bs
      else (case utf8_multi b bs of (c, rest) \<Rightarrow> c # utf8_decode rest))"
  by pat_completeness auto
termination
  by (relation "measure length") (auto simp: utf8_multi_shrinks less_Suc_eq_le snd_def [symmetric]
      dest!: arg_cong [where f = snd])

section \<open>unquote\<close>

function unquote_runs :: "pystr \<Rightarrow> pystr" where
  "unquote_runs [] = []"
| "unquote_runs (c # xs) =
     (if c < 128
      then utf8_decode (unquote_to_bytes (takeWhile (\<lambda>x. x < 128) (c # xs)))
             @ unquote_runs (dropWhile (\<lambda>x. x < 128) (c # xs))
      else c # unquote_runs xs)"
  by pat_completeness auto
termination
  by (relation "measure length") (auto simp: less_Suc_eq_le length_dropWhile_le)

definition unquote :: "pystr \<Rightarrow> pystr" where
  "unquote s = (if 37 \<notin> set s then s else unquote_runs s)"

declare unquote_runs.simps(2) [simp del] utf8_decode.simps(2) [simp del]
  unquote_to_bytes.simps(2) [simp del]

lemmas [pystr_simps] = hexval_def utf8_lead_def utf8_cont_def utf8_multi_def
  unquote_to_bytes.simps utf8_decode.simps unquote_runs.simps unquote_def

subsection \<open>When a call changes nothing\<close>

lemma hexval_bound: "hexval c = Some h \<Longrightarrow> h < 16 \<and> c < 128"
  by (auto simp: hexval_def split: if_splits)

lemma length_utf8_decode: "length (utf8_decode bs) \<le> length bs"
proof (induction bs rule: utf8_decode.induct)
  case (2 b bs)
  obtain c rest where m: "utf8_multi b bs = (c, rest)" by fastforce
  from utf8_multi_shrinks [of b bs] m have "length rest \<le> length bs" by simp
  with 2 m show ?case
    by (cases "b < 128") (fastforce simp: utf8_decode.simps(2))+
qed simp

lemma utf8_decode_ascii: "\<forall>b \<in> set bs. b < 128 \<Longrightarrow> utf8_decode bs = bs"
  by (induction bs) (auto simp: utf8_decode.simps(2))

lemma unquote_to_bytes_escape [simp]:
  "hexval a = Some h \<Longrightarrow> hexval b = Some l \<Longrightarrow>
     unquote_to_bytes (37 # a # b # ys) = (16 * h + l) # unquote_to_bytes ys"
  by (simp add: unquote_to_bytes.simps(2))

text \<open>Whether an escape stands at the head of the string.\<close>

definition escape_at :: "pystr \<Rightarrow> bool" where
  "escape_at s \<longleftrightarrow> (\<exists>a b ys. s = 37 # a # b # ys \<and> hexval a \<noteq> None \<and> hexval b \<noteq> None)"

lemma unquote_to_bytes_plain:
  "\<not> escape_at (c # xs) \<Longrightarrow> unquote_to_bytes (c # xs) = c # unquote_to_bytes xs"
  by (auto simp: unquote_to_bytes.simps(2) [of c xs] escape_at_def split: list.split option.split)

lemma has_escape_Cons: "has_escape (c # xs) \<longleftrightarrow> escape_at (c # xs) \<or> has_escape xs"
  by (cases xs; cases "tl xs") (auto simp: escape_at_def)

lemma length_unquote_to_bytes: "length (unquote_to_bytes s) \<le> length s"
proof (induction s rule: length_induct)
  case (1 s)
  show ?case
  proof (cases "escape_at s")
    case True
    then obtain a b ys h l where s: "s = 37 # a # b # ys" "hexval a = Some h" "hexval b = Some l"
      by (auto simp: escape_at_def)
    with 1 have "length (unquote_to_bytes ys) \<le> length ys" by simp
    with s show ?thesis by simp
  next
    case False
    with 1 show ?thesis by (cases s) (auto simp: unquote_to_bytes_plain)
  qed
qed

lemma unquote_to_bytes_id: "\<not> has_escape s \<Longrightarrow> unquote_to_bytes s = s"
  by (induction s) (auto simp: has_escape_Cons unquote_to_bytes_plain)

lemma unquote_to_bytes_shrinks: "has_escape s \<Longrightarrow> length (unquote_to_bytes s) < length s"
proof (induction s)
  case (Cons c xs)
  show ?case
  proof (cases "escape_at (c # xs)")
    case True
    then obtain a b ys h l where "c # xs = 37 # a # b # ys" "hexval a = Some h" "hexval b = Some l"
      by (auto simp: escape_at_def)
    then show ?thesis using length_unquote_to_bytes [of ys] by auto
  next
    case False
    with Cons show ?thesis by (simp add: has_escape_Cons unquote_to_bytes_plain)
  qed
qed simp

lemma has_escape_percent: "has_escape s \<Longrightarrow> 37 \<in> set s"
  by (induction s rule: has_escape.induct) auto

lemma has_escape_Cons_other: "c \<noteq> 37 \<Longrightarrow> has_escape (c # s) = has_escape s"
  by (cases s; cases "tl s") auto

lemma has_escape_append:
  assumes "has_escape (s @ t)" "t = [] \<or> hexval (hd t) = None"
  shows "has_escape s \<or> has_escape t"
  using assms
proof (induction s)
  case (Cons c s)
  show ?case
  proof (cases "has_escape (s @ t)")
    case True
    with Cons have "has_escape s \<or> has_escape t" by simp
    then show ?thesis by (cases s; cases "tl s") auto
  next
    case False
    with Cons.prems obtain a b r where sp: "s @ t = a # b # r" "c = 37"
        "hexval a \<noteq> None" "hexval b \<noteq> None"
      by (cases "s @ t"; cases "tl (s @ t)") auto
    with Cons.prems(2) obtain a' b' s' where "s = a' # b' # s'"
      by (cases s; cases "tl s"; cases t) auto
    with sp show ?thesis by auto
  qed
qed simp

lemma has_escape_append1: "has_escape s \<Longrightarrow> has_escape (s @ t)"
  by (induction s rule: has_escape.induct) auto

lemma has_escape_append2: "has_escape t \<Longrightarrow> has_escape (s @ t)"
proof (induction s)
  case (Cons c s)
  then show ?case by (cases "s @ t"; cases "tl (s @ t)") auto
qed simp

lemma length_unquote_runs: "length (unquote_runs s) \<le> length s"
proof (induction s rule: unquote_runs.induct)
  case (2 c xs)
  let ?r = "takeWhile (\<lambda>x. x < 128) (c # xs)" and ?d = "dropWhile (\<lambda>x. x < 128) (c # xs)"
  have "length (utf8_decode (unquote_to_bytes ?r)) \<le> length ?r"
    using length_utf8_decode length_unquote_to_bytes le_trans by blast
  moreover have "length ?r + length ?d = length (c # xs)"
    by (metis length_append takeWhile_dropWhile_id)
  ultimately show ?case
    using 2 by (auto simp: unquote_runs.simps(2) simp del: takeWhile.simps dropWhile.simps)
qed simp

lemma dropWhile_ascii_hexval:
  "dropWhile (\<lambda>x. x < 128) s = [] \<or> hexval (hd (dropWhile (\<lambda>x. x < 128) s)) = None"
  using dropWhile_ends [of "\<lambda>x. x < 128" s] hexval_bound by fastforce

lemma unquote_runs_id: "\<not> has_escape s \<Longrightarrow> unquote_runs s = s"
proof (induction s rule: unquote_runs.induct)
  case (2 c xs)
  let ?r = "takeWhile (\<lambda>x. x < 128) (c # xs)" and ?d = "dropWhile (\<lambda>x. x < 128) (c # xs)"
  have sp: "c # xs = ?r @ ?d" by (simp only: takeWhile_dropWhile_id)
  have nr: "\<not> has_escape ?r" and nd: "\<not> has_escape ?d"
    using 2(3) sp has_escape_append1 [of ?r ?d] has_escape_append2 [of ?d ?r] by metis+
  have "utf8_decode (unquote_to_bytes ?r) = ?r"
    unfolding unquote_to_bytes_id [OF nr]
    by (rule utf8_decode_ascii) (meson set_takeWhileD)
  then show ?case
  proof (cases "c < 128")
    case True
    then have "unquote_runs ?d = ?d" using 2(1) nd by blast
    with True \<open>utf8_decode (unquote_to_bytes ?r) = ?r\<close> sp show ?thesis
      by (metis unquote_runs.simps(2))
  next
    case False
    with 2 show ?thesis
      by (simp add: unquote_runs.simps(2) has_escape_Cons_other)
  qed
qed simp

lemma unquote_runs_shrinks: "has_escape s \<Longrightarrow> length (unquote_runs s) < length s"
proof (induction s rule: unquote_runs.induct)
  case (2 c xs)
  let ?r = "takeWhile (\<lambda>x. x < 128) (c # xs)" and ?d = "dropWhile (\<lambda>x. x < 128) (c # xs)"
  show ?case
  proof (cases "c < 128")
    case True
    have sp: "c # xs = ?r @ ?d" by (simp only: takeWhile_dropWhile_id)
    have len: "length (c # xs) = length ?r + length ?d"
      using sp by (metis length_append)
    have "has_escape ?r \<or> has_escape ?d"
      using 2(3) sp dropWhile_ascii_hexval [of "c # xs"] has_escape_append by metis
    then have "length (utf8_decode (unquote_to_bytes ?r)) + length (unquote_runs ?d)
        < length ?r + length ?d"
      using unquote_to_bytes_shrinks [of ?r] length_unquote_to_bytes [of ?r]
        length_utf8_decode [of "unquote_to_bytes ?r"] length_unquote_runs [of ?d] 2(1) [OF True]
      by linarith
    with True len show ?thesis
      by (simp only: unquote_runs.simps(2) if_True length_append)
  next
    case False
    with 2 show ?thesis
      by (simp add: unquote_runs.simps(2) has_escape_Cons_other)
  qed
qed simp

theorem unquote_shrinks: "has_escape s \<Longrightarrow> length (unquote s) < length s"
  using unquote_runs_shrinks has_escape_percent by (simp add: unquote_def)

theorem unquote_id_iff: "unquote s = s \<longleftrightarrow> \<not> has_escape s"
  using unquote_shrinks [of s] unquote_runs_id [of s] by (auto simp: unquote_def)

end
