(* ===== verification/Paths.thy ===== *)
theory Paths
  imports Py_Url
begin

text \<open>
  The path checker, \<open>broker/paths.py\<close>: percent decoding with its cap of four passes,
  \<open>normalize_path\<close>, the component-prefix test \<open>_inside\<close> and the decision
  \<open>check_access\<close>. Instants (\<open>datetime\<close>) are integers. The lemmas relate the
  resolution of dot segments to a walk over directory depths, the prefix test on strings to
  the prefix order on component lists, and the scan over the grants to the declarative
  reading of the wall: some grant is in scope, alive and of sufficient mode.
\<close>

section \<open>Data\<close>

definition READ :: pystr where
  "READ = lit ''read''"

definition WRITE :: pystr where
  "WRITE = lit ''write''"

definition MODES :: "pystr list" where
  "MODES = [READ, WRITE]"

definition MAX_DECODE_PASSES :: nat where
  "MAX_DECODE_PASSES = 4"

definition MAX_PATH_LENGTH :: nat where
  "MAX_PATH_LENGTH = 2048"

record decision =
  d_allowed :: bool
  d_grant_id :: "int option"
  d_reason :: pystr

record grant =
  g_path :: pystr
  g_mode :: pystr
  g_expires_at :: "int option"
  g_id :: int

section \<open>Normalisation\<close>

text \<open>The loop of \<open>_percent_decode\<close>, with the number of passes left.\<close>

fun percent_decode_loop :: "nat \<Rightarrow> pystr \<Rightarrow> pystr" where
  "percent_decode_loop 0 current = current"
| "percent_decode_loop (Suc n) current =
     (let decoded = unquote current
      in if decoded = current then decoded else percent_decode_loop n decoded)"

definition percent_decode :: "pystr \<Rightarrow> pystr" where
  "percent_decode raw = percent_decode_loop MAX_DECODE_PASSES raw"

text \<open>The loop over the components, with the list \<open>parts\<close>.\<close>

fun resolve :: "pystr list \<Rightarrow> pystr list \<Rightarrow> pystr list option" where
  "resolve [] parts = Some parts"
| "resolve (component # rest) parts =
     (if component = [] \<or> component = lit ''.'' then resolve rest parts
      else if component = lit ''..''
      then (if parts = [] then None else resolve rest (butlast parts))
      else resolve rest (parts @ [component]))"

definition is_control :: "cp \<Rightarrow> bool" where
  "is_control c \<longleftrightarrow> c < 32 \<or> c = 127"

definition backslashes_to_slashes :: "pystr \<Rightarrow> pystr" where
  "backslashes_to_slashes s = map (\<lambda>c. if c = 92 then 47 else c) s"

fun normalize_path :: "pyval \<Rightarrow> pystr option" where
  "normalize_path (PStr raw) =
     (if raw = [] \<or> py_strip raw = [] then None
      else if length raw > MAX_PATH_LENGTH then None
      else if \<exists>c \<in> set raw. is_control c then None
      else (let decoded = backslashes_to_slashes (percent_decode raw)
            in map_option (join_on (lit ''/'')) (resolve (split_on 47 decoded) [])))"
| "normalize_path _ = None"

section \<open>The decision\<close>

definition inside :: "pystr \<Rightarrow> pystr \<Rightarrow> bool" where
  "inside granted_norm requested_norm \<longleftrightarrow>
     granted_norm = requested_norm \<or> py_startswith requested_norm (granted_norm @ lit ''/'')"

text \<open>The loop over the grants, with \<open>best\<close>, the refusal to report when none matches.\<close>

fun scan_grants :: "pystr \<Rightarrow> pystr \<Rightarrow> int \<Rightarrow> grant list \<Rightarrow> decision option \<Rightarrow> decision" where
  "scan_grants norm mode now [] best =
     (case best of
        Some d \<Rightarrow> d
      | None \<Rightarrow> \<lparr>d_allowed = False, d_grant_id = None,
                 d_reason = lit ''path not covered by any active grant''\<rparr>)"
| "scan_grants norm mode now (g # gs) best =
     (case normalize_path (PStr (g_path g)) of
        None \<Rightarrow> scan_grants norm mode now gs best
      | Some grant_norm \<Rightarrow>
          if grant_norm = [] then scan_grants norm mode now gs best
          else if g_mode g \<notin> set MODES then scan_grants norm mode now gs best
          else if \<not> inside grant_norm norm then scan_grants norm mode now gs best
          else if (case g_expires_at g of None \<Rightarrow> True | Some e \<Rightarrow> e \<le> now)
          then scan_grants norm mode now gs
                 (case best of
                    None \<Rightarrow> Some \<lparr>d_allowed = False, d_grant_id = None,
                      d_reason = lit ''grant '' @ py_str_int (g_id g) @ lit '' expired''\<rparr>
                  | Some d \<Rightarrow> Some d)
          else if mode = WRITE \<and> g_mode g \<noteq> WRITE
          then scan_grants norm mode now gs
                 (case best of
                    None \<Rightarrow> Some \<lparr>d_allowed = False, d_grant_id = None,
                      d_reason = lit ''grant '' @ py_str_int (g_id g)
                        @ lit '' is read-only; write not permitted''\<rparr>
                  | Some d \<Rightarrow> Some d)
          else \<lparr>d_allowed = True, d_grant_id = Some (g_id g), d_reason = lit ''ok''\<rparr>)"

definition check_access :: "pyval \<Rightarrow> pystr \<Rightarrow> grant list \<Rightarrow> int \<Rightarrow> decision" where
  "check_access requested_path mode grants now =
     (if mode \<notin> set MODES
      then \<lparr>d_allowed = False, d_grant_id = None, d_reason = lit ''unknown mode''\<rparr>
      else (case normalize_path requested_path of
              None \<Rightarrow> \<lparr>d_allowed = False, d_grant_id = None,
                       d_reason = lit ''malformed or hostile path''\<rparr>
            | Some norm \<Rightarrow> scan_grants norm mode now grants None))"

section \<open>Decoding\<close>

lemma percent_decode_loop_pow: "percent_decode_loop n s = (unquote ^^ n) s"
proof (induction n arbitrary: s)
  case (Suc n)
  have "unquote s = s \<Longrightarrow> (unquote ^^ n) s = s"
    by (induction n) auto
  with Suc show ?case by (auto simp: Let_def funpow_swap1)
qed simp

lemma percent_decode_pow: "percent_decode raw = (unquote ^^ MAX_DECODE_PASSES) raw"
  by (simp add: percent_decode_def percent_decode_loop_pow)

lemma length_unquote: "length (unquote s) \<le> length s"
  using unquote_shrinks [of s] unquote_id_iff [of s] by (cases "has_escape s") auto

lemma length_percent_decode: "length (percent_decode raw) \<le> length raw"
proof -
  have "length ((unquote ^^ n) raw) \<le> length raw" for n
    by (induction n) (auto intro: le_trans length_unquote)
  then show ?thesis by (simp add: percent_decode_pow)
qed

text \<open>A path is settled when the four passes decode it completely.\<close>

definition settled :: "pystr \<Rightarrow> bool" where
  "settled raw \<longleftrightarrow> \<not> has_escape (percent_decode raw)"

lemma settled_plain: "\<not> has_escape raw \<Longrightarrow> settled raw \<and> percent_decode raw = raw"
proof -
  assume "\<not> has_escape raw"
  then have "unquote raw = raw" by (simp add: unquote_id_iff)
  then have "(unquote ^^ n) raw = raw" for n by (induction n) auto
  with \<open>\<not> has_escape raw\<close> show ?thesis by (simp add: settled_def percent_decode_pow)
qed

section \<open>Resolution of dot segments\<close>

definition canonical_component :: "pystr \<Rightarrow> bool" where
  "canonical_component c \<longleftrightarrow> c \<noteq> [] \<and> c \<noteq> lit ''.'' \<and> c \<noteq> lit ''..'' \<and> 47 \<notin> set c \<and> 92 \<notin> set c"

definition canonical_path :: "pystr \<Rightarrow> bool" where
  "canonical_path n \<longleftrightarrow> n = [] \<or> (\<forall>c \<in> set (split_on 47 n). canonical_component c)"

lemma resolve_append:
  "resolve (xs @ ys) parts = Option.bind (resolve xs parts) (resolve ys)"
  by (induction xs arbitrary: parts) auto

lemma resolve_parts:
  assumes "resolve cs parts = Some out"
  shows "set out \<subseteq> set parts \<union> {c \<in> set cs. c \<noteq> [] \<and> c \<noteq> lit ''.'' \<and> c \<noteq> lit ''..''}"
  using assms
proof (induction cs arbitrary: parts)
  case (Cons c cs)
  then show ?case
    by (fastforce split: if_splits dest: in_set_butlastD)
qed simp

lemma resolve_canonical:
  "\<forall>c \<in> set cs. canonical_component c \<Longrightarrow> resolve cs parts = Some (parts @ cs)"
  by (induction cs arbitrary: parts) (auto simp: canonical_component_def)

text \<open>The number of steps down and up among some components.\<close>

definition ups :: "pystr list \<Rightarrow> nat" where
  "ups cs = length (filter (\<lambda>c. c = lit ''..'') cs)"

definition downs :: "pystr list \<Rightarrow> nat" where
  "downs cs = length (filter (\<lambda>c. c \<noteq> [] \<and> c \<noteq> lit ''.'' \<and> c \<noteq> lit ''..'') cs)"

lemma dots_differ [simp]:
  "lit ''..'' \<noteq> []" "lit ''..'' \<noteq> lit ''.''" "lit ''.'' \<noteq> []"
  "[] \<noteq> lit ''..''" "lit ''.'' \<noteq> lit ''..''" "[] \<noteq> lit ''.''"
  by (simp_all add: lit_def)

lemma resolve_depth:
  "resolve cs parts = Some out \<Longrightarrow> length out + ups cs = length parts + downs cs"
  by (induction cs arbitrary: parts)
    (auto simp: ups_def downs_def split: if_splits)

lemma resolve_None_iff:
  "resolve cs parts = None \<longleftrightarrow>
     (\<exists>k \<le> length cs. length parts + downs (take k cs) < ups (take k cs))"
proof (induction cs rule: rev_induct)
  case Nil
  then show ?case by (simp add: ups_def downs_def)
next
  case (snoc c cs)
  have split: "(\<exists>k \<le> length (cs @ [c]). length parts + downs (take k (cs @ [c])) < ups (take k (cs @ [c])))
    \<longleftrightarrow> (\<exists>k \<le> length cs. length parts + downs (take k cs) < ups (take k cs))
      \<or> length parts + downs (cs @ [c]) < ups (cs @ [c])"
    by (auto simp: le_Suc_eq)
  show ?case
  proof (cases "resolve cs parts")
    case None
    with snoc show ?thesis by (simp only: split) (simp add: resolve_append)
  next
    case (Some out)
    from resolve_depth [OF Some] have d: "length out + ups cs = length parts + downs cs" .
    have "resolve (cs @ [c]) parts = None \<longleftrightarrow> c = lit ''..'' \<and> out = []"
      using Some by (auto simp: resolve_append)
    moreover have "length parts + downs (cs @ [c]) < ups (cs @ [c]) \<longleftrightarrow> c = lit ''..'' \<and> out = []"
      using d by (cases out) (auto simp: ups_def downs_def)
    ultimately show ?thesis
      using snoc Some by (simp only: split) auto
  qed
qed

text \<open>Lengths: resolving and joining never makes a path longer.\<close>

definition weight :: "pystr list \<Rightarrow> nat" where
  "weight ps = sum_list (map (\<lambda>p. Suc (length p)) ps)"

lemma weight_simps [simp]:
  "weight [] = 0" "weight (p # ps) = Suc (length p) + weight ps" "weight (ps @ qs) = weight ps + weight qs"
  by (simp_all add: weight_def)

lemma weight_butlast: "weight (butlast ps) \<le> weight ps"
  by (induction ps) auto

lemma weight_split_on: "weight (split_on c s) = Suc (length s)"
proof (induction s)
  case (Cons x s)
  then show ?case by (cases "split_on c s") auto
qed simp

lemma length_join_weight: "length (join_on [c] ps) \<le> weight ps - 1"
proof (induction ps)
  case (Cons p ps)
  then show ?case by (cases ps) (auto simp: join_on_Cons)
qed simp

lemma weight_resolve: "resolve cs parts = Some out \<Longrightarrow> weight out \<le> weight parts + weight cs"
proof (induction cs arbitrary: parts)
  case (Cons c cs)
  then show ?case
    using weight_butlast [of parts] by (fastforce split: if_splits)
qed simp

section \<open>What normalisation returns\<close>

lemma lit_slash [simp]: "lit ''/'' = [47]"
  by (simp add: lit_def)

text \<open>The components a normalised path is joined from.\<close>

definition decoded_components :: "pystr \<Rightarrow> pystr list" where
  "decoded_components raw = split_on 47 (backslashes_to_slashes (percent_decode raw))"

lemma normalize_path_Some_iff:
  "normalize_path v = Some n \<longleftrightarrow>
     (\<exists>raw parts. v = PStr raw \<and> raw \<noteq> [] \<and> py_strip raw \<noteq> [] \<and> length raw \<le> MAX_PATH_LENGTH
        \<and> (\<forall>c \<in> set raw. \<not> is_control c)
        \<and> resolve (decoded_components raw) [] = Some parts \<and> n = join_on [47] parts)"
  by (cases v) (auto simp: decoded_components_def Let_def)

declare normalize_path.simps(1) [simp del]

lemma no_backslash: "92 \<notin> set (backslashes_to_slashes s)"
  by (auto simp: backslashes_to_slashes_def)

lemma decoded_parts_canonical:
  assumes "resolve (decoded_components raw) [] = Some parts" and "c \<in> set parts"
  shows "canonical_component c"
proof -
  have "c \<in> set (decoded_components raw)" "c \<noteq> []" "c \<noteq> lit ''.''" "c \<noteq> lit ''..''"
    using resolve_parts [OF assms(1)] assms(2) by auto
  moreover from this(1) have "47 \<notin> set c" "92 \<notin> set c"
    using split_on_pieces [of c 47] split_on_pieces_subset [of c 47] no_backslash
    unfolding decoded_components_def by blast+
  ultimately show ?thesis by (simp add: canonical_component_def)
qed

lemma canonical_path_join:
  assumes "\<forall>c \<in> set ps. canonical_component c"
  shows "canonical_path (join_on [47] ps)"
  using assms by (cases "ps = []") (auto simp: canonical_path_def split_join_on canonical_component_def)

lemma canonical_path_components:
  assumes "canonical_path n"
  obtains ps where "n = join_on [47] ps" "\<forall>c \<in> set ps. canonical_component c" "ps = [] \<longleftrightarrow> n = []"
proof (cases "n = []")
  case True
  with that [of "[]"] show ?thesis by simp
next
  case False
  with assms that [of "split_on 47 n"] show ?thesis by (auto simp: canonical_path_def)
qed

lemma normalize_canonical: "normalize_path v = Some n \<Longrightarrow> canonical_path n"
  using decoded_parts_canonical canonical_path_join by (auto simp: normalize_path_Some_iff)

lemma normalize_length: "normalize_path (PStr raw) = Some n \<Longrightarrow> length n \<le> length raw"
proof -
  assume "normalize_path (PStr raw) = Some n"
  then obtain parts where p: "resolve (decoded_components raw) [] = Some parts" "n = join_on [47] parts"
    by (auto simp: normalize_path_Some_iff)
  have "length n \<le> weight parts - 1" using p length_join_weight by simp
  also have "\<dots> \<le> length (percent_decode raw)"
    using weight_resolve [OF p(1)] by (simp add: decoded_components_def weight_split_on backslashes_to_slashes_def)
  also have "\<dots> \<le> length raw" by (rule length_percent_decode)
  finally show ?thesis .
qed

subsection \<open>Normalised paths are fixed points, when the decoding settled\<close>

lemma has_escape_backslashes: "has_escape (backslashes_to_slashes s) \<Longrightarrow> has_escape s"
proof (induction s)
  case (Cons c s)
  have "escape_at (backslashes_to_slashes (c # s)) \<Longrightarrow> escape_at (c # s)"
    by (cases s; cases "tl s")
      (auto simp: escape_at_def backslashes_to_slashes_def hexval_def split: if_splits)
  with Cons show ?case
    by (auto simp: has_escape_Cons backslashes_to_slashes_def)
qed (simp add: backslashes_to_slashes_def)

lemma has_escape_piece: "p \<in> set (split_on c s) \<Longrightarrow> has_escape p \<Longrightarrow> has_escape s"
proof (induction s arbitrary: p)
  case (Cons x s)
  show ?case
  proof (cases "x = c")
    case True
    with Cons show ?thesis by (auto simp: has_escape_Cons)
  next
    case False
    obtain q qs where q: "split_on c s = q # qs" by (cases "split_on c s") auto
    have pre: "\<exists>t. s = q @ t"
      using q join_split_on [of c s] by (cases qs) (auto simp: join_on_Cons)
    show ?thesis
    proof (cases "p \<in> set (split_on c s)")
      case True
      with Cons show ?thesis by (simp add: has_escape_Cons)
    next
      case notin: False
      with False q Cons.prems have "p = x # q" by auto
      with pre Cons.prems(2) show ?thesis
        using has_escape_append1 [of "x # q"] by auto
    qed
  qed
qed simp

lemma has_escape_join: "has_escape (join_on [47] ps) \<Longrightarrow> \<exists>p \<in> set ps. has_escape p"
proof (induction ps)
  case (Cons p ps)
  show ?case
  proof (cases "ps = []")
    case False
    with Cons.prems have "has_escape (p @ 47 # join_on [47] ps)" by (simp add: join_on_Cons)
    then have "has_escape p \<or> has_escape (47 # join_on [47] ps)"
      by (rule has_escape_append) (simp add: hexval_def)
    with Cons.IH show ?thesis by (auto simp: has_escape_Cons_other)
  qed (use Cons.prems in simp)
qed simp

lemma normalize_no_escape:
  assumes "normalize_path (PStr raw) = Some n" "settled raw"
  shows "\<not> has_escape n"
proof
  assume "has_escape n"
  from assms(1) obtain parts where p: "resolve (decoded_components raw) [] = Some parts" "n = join_on [47] parts"
    by (auto simp: normalize_path_Some_iff)
  with \<open>has_escape n\<close> obtain q where "q \<in> set parts" "has_escape q"
    using has_escape_join by blast
  moreover from this(1) have "q \<in> set (decoded_components raw)"
    using resolve_parts [OF p(1)] by auto
  ultimately have "has_escape (percent_decode raw)"
    unfolding decoded_components_def by (blast dest: has_escape_piece has_escape_backslashes)
  with assms(2) show False by (simp add: settled_def)
qed

text \<open>The paths that normalisation leaves as they are.\<close>

definition plain_path :: "pystr \<Rightarrow> bool" where
  "plain_path n \<longleftrightarrow> n \<noteq> [] \<and> canonical_path n \<and> \<not> has_escape n \<and> py_strip n \<noteq> []
     \<and> (\<forall>c \<in> set n. \<not> is_control c) \<and> length n \<le> MAX_PATH_LENGTH"

lemma normalize_plain: "plain_path n \<Longrightarrow> normalize_path (PStr n) = Some n"
proof -
  assume pl: "plain_path n"
  then obtain ps where ps: "n = join_on [47] ps" "\<forall>c \<in> set ps. canonical_component c" "ps \<noteq> []"
    by (auto simp: plain_path_def elim: canonical_path_components)
  have "92 \<notin> set n"
    using set_join_on [of "[47]" ps] ps(1,2) by (auto simp: canonical_component_def)
  then have "backslashes_to_slashes n = n"
    by (auto simp: backslashes_to_slashes_def intro!: map_idI)
  moreover have "percent_decode n = n"
    using pl settled_plain by (simp add: plain_path_def)
  ultimately have "decoded_components n = ps"
    using ps by (auto simp: decoded_components_def split_join_on canonical_component_def)
  then show ?thesis
    using pl ps by (auto simp: normalize_path_Some_iff plain_path_def resolve_canonical)
qed

lemma normalize_settled_plain:
  assumes "normalize_path (PStr raw) = Some n" "settled raw"
    and "n \<noteq> []" "py_strip n \<noteq> []" "\<forall>c \<in> set n. \<not> is_control c"
  shows "plain_path n"
proof -
  have "length n \<le> MAX_PATH_LENGTH"
    using normalize_length [OF assms(1)] assms(1) by (auto simp: normalize_path_Some_iff)
  with assms normalize_no_escape [OF assms(1,2)] normalize_canonical [OF assms(1)]
  show ?thesis by (simp add: plain_path_def)
qed

section \<open>Scope: the component prefix order\<close>

lemma prefix_join_on:
  assumes "\<forall>p \<in> set ps. c \<notin> set p" "\<forall>q \<in> set qs. c \<notin> set q" "ps \<noteq> []"
  shows "prefix (join_on [c] ps @ [c]) (join_on [c] qs) \<longleftrightarrow> strict_prefix ps qs"
proof
  assume "strict_prefix ps qs"
  then obtain rs where "qs = ps @ rs" "rs \<noteq> []" by (auto elim: strict_prefixE')
  with assms(3) show "prefix (join_on [c] ps @ [c]) (join_on [c] qs)"
    by (simp add: join_on_append)
next
  assume "prefix (join_on [c] ps @ [c]) (join_on [c] qs)"
  then obtain r where r: "join_on [c] qs = join_on [c] ps @ c # r"
    by (auto elim: prefixE)
  then have "qs \<noteq> []" by auto
  have "qs = split_on c (join_on [c] qs)"
    using \<open>qs \<noteq> []\<close> assms(2) by (simp add: split_join_on)
  also have "\<dots> = split_on c (join_on [c] (ps @ split_on c r))"
    using assms(3) by (simp add: r join_on_append)
  also have "\<dots> = ps @ split_on c r"
    using assms by (intro split_join_on) (auto dest: split_on_pieces)
  finally show "strict_prefix ps qs"
    by (metis append_self_conv prefixI split_on_nonempty strict_prefix_def)
qed

lemma inside_join:
  assumes "\<forall>p \<in> set ps. canonical_component p" "\<forall>q \<in> set qs. canonical_component q" "ps \<noteq> []" "qs \<noteq> []"
  shows "inside (join_on [47] ps) (join_on [47] qs) \<longleftrightarrow> prefix ps qs"
proof -
  have nc: "\<forall>p \<in> set ps. 47 \<notin> set p" "\<forall>q \<in> set qs. 47 \<notin> set q"
    using assms(1,2) by (auto simp: canonical_component_def)
  have "join_on [47] ps = join_on [47] qs \<longleftrightarrow> ps = qs"
    using join_on_inj [OF _ assms(3,4) nc] by blast
  then show ?thesis
    using prefix_join_on [OF nc assms(3)] by (auto simp: inside_def strict_prefix_def)
qed

lemma inside_components:
  assumes "normalize_path v = Some g" "normalize_path w = Some n" "g \<noteq> []" "n \<noteq> []"
  shows "inside g n \<longleftrightarrow> prefix (split_on 47 g) (split_on 47 n)"
proof -
  have "\<forall>c \<in> set (split_on 47 g). canonical_component c" "\<forall>c \<in> set (split_on 47 n). canonical_component c"
    using normalize_canonical assms by (auto simp: canonical_path_def)
  from inside_join [OF this] show ?thesis by simp
qed

lemma inside_refl [simp]: "inside n n"
  by (simp add: inside_def)

lemma inside_trans: "inside a b \<Longrightarrow> inside b c \<Longrightarrow> inside a c"
  by (auto simp: inside_def prefix_def)

section \<open>The wall\<close>

text \<open>A grant permits an operation: it is well formed, in scope, alive and of sufficient mode.\<close>

definition in_scope :: "pystr \<Rightarrow> grant \<Rightarrow> bool" where
  "in_scope norm g \<longleftrightarrow> g_mode g \<in> set MODES
     \<and> (case normalize_path (PStr (g_path g)) of None \<Rightarrow> False
         | Some gn \<Rightarrow> gn \<noteq> [] \<and> inside gn norm)"

definition alive :: "int \<Rightarrow> grant \<Rightarrow> bool" where
  "alive now g \<longleftrightarrow> (case g_expires_at g of None \<Rightarrow> False | Some e \<Rightarrow> now < e)"

definition permits :: "pystr \<Rightarrow> pystr \<Rightarrow> int \<Rightarrow> grant \<Rightarrow> bool" where
  "permits norm mode now g \<longleftrightarrow>
     in_scope norm g \<and> alive now g \<and> (mode = WRITE \<longrightarrow> g_mode g = WRITE)"

definition refused_decision :: "pystr \<Rightarrow> decision" where
  "refused_decision why = \<lparr>d_allowed = False, d_grant_id = None, d_reason = why\<rparr>"

text \<open>Why a grant in scope does not permit the operation.\<close>

definition blocker_reason :: "int \<Rightarrow> grant \<Rightarrow> pystr" where
  "blocker_reason now g = lit ''grant '' @ py_str_int (g_id g) @
     (if alive now g then lit '' is read-only; write not permitted'' else lit '' expired'')"

text \<open>The decision without the loop: the first grant that permits the operation, and
  otherwise the first one in scope, which says why not.\<close>

definition decide :: "pystr \<Rightarrow> pystr \<Rightarrow> int \<Rightarrow> grant list \<Rightarrow> decision" where
  "decide norm mode now gs =
     (case find (permits norm mode now) gs of
        Some g \<Rightarrow> \<lparr>d_allowed = True, d_grant_id = Some (g_id g), d_reason = lit ''ok''\<rparr>
      | None \<Rightarrow>
          (case find (in_scope norm) gs of
             Some g \<Rightarrow> refused_decision (blocker_reason now g)
           | None \<Rightarrow> refused_decision (lit ''path not covered by any active grant'')))"

lemma permits_in_scope: "permits norm mode now g \<Longrightarrow> in_scope norm g"
  by (simp add: permits_def)

lemma scan_grants_skip:
  "\<not> in_scope norm g \<Longrightarrow> scan_grants norm mode now (g # gs) best = scan_grants norm mode now gs best"
  by (auto simp: in_scope_def split: option.splits)

lemma scan_grants_in_scope:
  assumes "in_scope norm g"
  shows "scan_grants norm mode now (g # gs) best =
     (if permits norm mode now g
      then \<lparr>d_allowed = True, d_grant_id = Some (g_id g), d_reason = lit ''ok''\<rparr>
      else scan_grants norm mode now gs
        (Some (case best of None \<Rightarrow> refused_decision (blocker_reason now g) | Some d \<Rightarrow> d)))"
proof -
  from assms obtain gn where gn: "normalize_path (PStr (g_path g)) = Some gn" "gn \<noteq> []" "inside gn norm"
      "g_mode g \<in> set MODES"
    by (auto simp: in_scope_def split: option.splits)
  show ?thesis
    using gn assms
    by (cases "g_expires_at g"; cases best)
      (simp_all add: permits_def alive_def blocker_reason_def refused_decision_def not_le)
qed

declare scan_grants.simps(2) [simp del]

lemma scan_grants_best:
  "scan_grants norm mode now gs (Some d) =
     (case find (permits norm mode now) gs of
        Some g \<Rightarrow> \<lparr>d_allowed = True, d_grant_id = Some (g_id g), d_reason = lit ''ok''\<rparr>
      | None \<Rightarrow> d)"
proof (induction gs)
  case (Cons g gs)
  then show ?case
    by (cases "in_scope norm g"; cases "permits norm mode now g")
      (auto simp: scan_grants_skip scan_grants_in_scope dest: permits_in_scope)
qed simp

lemma scan_grants_decide: "scan_grants norm mode now gs None = decide norm mode now gs"
proof (induction gs)
  case Nil
  then show ?case by (simp add: decide_def refused_decision_def)
next
  case (Cons g gs)
  show ?case
  proof (cases "in_scope norm g")
    case False
    then have "find (permits norm mode now) (g # gs) = find (permits norm mode now) gs"
      "find (in_scope norm) (g # gs) = find (in_scope norm) gs"
      by (simp_all add: permits_def)
    with False Cons show ?thesis by (simp only: decide_def scan_grants_skip not_False_eq_True)
  next
    case True
    then show ?thesis
      by (simp add: scan_grants_in_scope scan_grants_best decide_def split: option.split)
  qed
qed

lemma check_access_decide:
  "check_access v mode gs now =
     (if mode \<notin> set MODES then refused_decision (lit ''unknown mode'')
      else (case normalize_path v of
              None \<Rightarrow> refused_decision (lit ''malformed or hostile path'')
            | Some norm \<Rightarrow> decide norm mode now gs))"
  by (auto simp: check_access_def refused_decision_def scan_grants_decide split: option.split)

lemma find_exists_iff: "(\<exists>x. find P xs = Some x) \<longleftrightarrow> (\<exists>x \<in> set xs. P x)"
  by (metis find_None_iff2 find_None_iff not_None_eq)

lemma allowed_decide: "d_allowed (decide norm mode now gs) \<longleftrightarrow> (\<exists>g \<in> set gs. permits norm mode now g)"
  by (auto simp: decide_def refused_decision_def find_exists_iff [symmetric] split: option.splits)

lemma allowed_check_access:
  "d_allowed (check_access v mode gs now) \<longleftrightarrow>
     mode \<in> set MODES \<and> (\<exists>norm. normalize_path v = Some norm \<and> (\<exists>g \<in> set gs. permits norm mode now g))"
  by (auto simp: check_access_decide refused_decision_def allowed_decide split: option.splits)

lemma modes_distinct [simp]: "READ \<noteq> WRITE" "WRITE \<noteq> READ" "READ \<in> set MODES" "WRITE \<in> set MODES"
  by (simp_all add: READ_def WRITE_def MODES_def lit_def)

lemma MODES_cases: "m \<in> set MODES \<Longrightarrow> m = READ \<or> m = WRITE"
  by (simp add: MODES_def)

end
