(* ===== verification/Py_Regex.thy ===== *)
theory Py_Regex
  imports Py_Prelude
begin

text \<open>
  The part of Python's \<open>re\<close> that the broker's patterns use: classes of one character,
  greedy and lazy repetitions of a class, sequence, alternation, optional parts, groups and
  the anchor \<open>$\<close>. A match returns every way to match at the given position, in the
  order in which Python's backtracking engine tries them, as the rest of the string and the
  captured groups; \<open>re.match\<close> takes the first.
\<close>

datatype re =
    Eps
  | Cls "cp \<Rightarrow> bool"
  | Rep bool nat "nat option" "cp \<Rightarrow> bool"
  | Seq re re
  | Alt re re
  | Opt re
  | Grp nat re
  | Eos

type_synonym captures = "(nat \<times> pystr) list"

text \<open>How many characters a repetition may take: from the lower bound up to the run of the
  class, cut at the upper bound. Greedy repetitions try the longest first.\<close>

definition rep_counts :: "bool \<Rightarrow> nat \<Rightarrow> nat option \<Rightarrow> (cp \<Rightarrow> bool) \<Rightarrow> pystr \<Rightarrow> nat list" where
  "rep_counts greedy lo hi p s =
     (let run = length (takeWhile p s);
          top = (case hi of None \<Rightarrow> run | Some h \<Rightarrow> min h run);
          ns = [lo ..< Suc top]
      in if greedy then rev ns else ns)"

fun re_all :: "re \<Rightarrow> pystr \<Rightarrow> captures \<Rightarrow> (pystr \<times> captures) list" where
  "re_all Eps s c = [(s, c)]"
| "re_all (Cls p) s c = (case s of [] \<Rightarrow> [] | x # xs \<Rightarrow> if p x then [(xs, c)] else [])"
| "re_all (Rep greedy lo hi p) s c = map (\<lambda>n. (drop n s, c)) (rep_counts greedy lo hi p s)"
| "re_all (Seq a b) s c = concat (map (\<lambda>(s', c'). re_all b s' c') (re_all a s c))"
| "re_all (Alt a b) s c = re_all a s c @ re_all b s c"
| "re_all (Opt a) s c = re_all a s c @ [(s, c)]"
| "re_all (Grp i a) s c =
     map (\<lambda>(s', c'). (s', (i, take (length s - length s') s) # c')) (re_all a s c)"
| "re_all Eos s c = (if s = [] \<or> s = [10] then [(s, c)] else [])"

definition re_match :: "re \<Rightarrow> pystr \<Rightarrow> (pystr \<times> captures) option" where
  "re_match r s = (case re_all r s [] of [] \<Rightarrow> None | m # _ \<Rightarrow> Some m)"

text \<open>\<open>m.group(i)\<close>, None for a group that took no part.\<close>

definition re_group :: "captures \<Rightarrow> nat \<Rightarrow> pystr option" where
  "re_group c i = map_of c i"

text \<open>Patterns: the characters of a literal, one after the other.\<close>

definition chr_re :: "cp \<Rightarrow> re" where
  "chr_re c = Cls (\<lambda>x. x = c)"

fun str_re :: "pystr \<Rightarrow> re" where
  "str_re [] = Eps"
| "str_re [c] = chr_re c"
| "str_re (c # cs) = Seq (chr_re c) (str_re cs)"

text \<open>
  A lower-case letter under \<open>re.IGNORECASE\<close>: it also matches its upper-case form, and the
  characters beyond ASCII that the engine folds to it (U+0130 and U+0131 to i, U+017F to s,
  U+212A to k).
\<close>

definition ci_eq :: "cp \<Rightarrow> cp \<Rightarrow> bool" where
  "ci_eq l x \<longleftrightarrow> x = l \<or> 97 \<le> l \<and> l \<le> 122 \<and> x + 32 = l
     \<or> l = 105 \<and> (x = 304 \<or> x = 305) \<or> l = 115 \<and> x = 383 \<or> l = 107 \<and> x = 8490"

fun str_re_ci :: "pystr \<Rightarrow> re" where
  "str_re_ci [] = Eps"
| "str_re_ci [c] = Cls (ci_eq c)"
| "str_re_ci (c # cs) = Seq (Cls (ci_eq c)) (str_re_ci cs)"

text \<open>\<open>[a-z]\<close> under \<open>re.IGNORECASE\<close>.\<close>

definition ci_letter :: "cp \<Rightarrow> bool" where
  "ci_letter x \<longleftrightarrow> 97 \<le> x \<and> x \<le> 122 \<or> 65 \<le> x \<and> x \<le> 90 \<or> x \<in> {304, 305, 383, 8490}"

text \<open>\<open>\d\<close>: the decimal digits of Unicode 15.0 (Python 3.12, the image the Dockerfile
  builds on), in runs of ten; \<open>int\<close> reads them all.\<close>

definition digit_zeros :: "cp list" where
  "digit_zeros = [48, 1632, 1776, 1984, 2406, 2534, 2662, 2790, 2918, 3046, 3174, 3302, 3430,
     3558, 3664, 3792, 3872, 4160, 4240, 6112, 6160, 6470, 6608, 6784, 6800, 6992, 7088, 7232,
     7248, 42528, 43216, 43264, 43472, 43504, 43600, 44016, 65296, 66720, 68912, 69734, 69872,
     69942, 70096, 70384, 70736, 70864, 71248, 71360, 71472, 71904, 72016, 72784, 73040, 73120,
     73552, 92768, 92864, 93008, 120782, 120792, 120802, 120812, 120822, 123200, 123632, 124144, 125264, 130032]"

definition py_digit :: "cp \<Rightarrow> nat option" where
  "py_digit c = map_option (\<lambda>z. c - z) (find (\<lambda>z. z \<le> c \<and> c \<le> z + 9) digit_zeros)"

definition py_isdecimal :: "cp \<Rightarrow> bool" where
  "py_isdecimal c \<longleftrightarrow> py_digit c \<noteq> None"

text \<open>\<open>int(s)\<close> of a non-empty string of decimal digits.\<close>

definition py_int_of_digits :: "pystr \<Rightarrow> int" where
  "py_int_of_digits s =
     foldl (\<lambda>acc c. acc * 10 + (case py_digit c of None \<Rightarrow> 0 | Some d \<Rightarrow> int d)) 0 s"

text \<open>\<open>int(s)\<close> of any string of digits: a \<open>ValueError\<close> when it is empty or longer than
  \<open>sys.get_int_max_str_digits()\<close>.\<close>

definition MAX_STR_DIGITS :: nat where
  "MAX_STR_DIGITS = 4300"

definition py_int :: "pystr \<Rightarrow> int option" where
  "py_int s = (if s = [] \<or> MAX_STR_DIGITS < length s then None else Some (py_int_of_digits s))"

text \<open>\<open>re.sub\<close> with a fixed replacement, for a pattern that matches no empty string.\<close>

function re_sub :: "re \<Rightarrow> pystr \<Rightarrow> pystr \<Rightarrow> pystr" where
  "re_sub r new [] = []"
| "re_sub r new (x # xs) =
     (case re_match r (x # xs) of
        None \<Rightarrow> x # re_sub r new xs
      | Some (rest, _) \<Rightarrow>
          if length rest < length (x # xs) then new @ re_sub r new rest
          else x # re_sub r new xs)"
  by pat_completeness auto
termination
  by (relation "measure (\<lambda>(r, new, s). length s)") auto

declare re_sub.simps(2) [simp del]

section \<open>Repetitions\<close>

lemma takeWhile_append_stop:
  "\<forall>x \<in> set ds. p x \<Longrightarrow> t = [] \<or> \<not> p (hd t) \<Longrightarrow> takeWhile p (ds @ t) = ds"
  by (cases t) (auto simp: takeWhile_append2 takeWhile_eq_all_conv [THEN iffD2])

lemma rep_counts_mem: "n \<in> set (rep_counts g lo hi p s) \<Longrightarrow> n \<le> length (takeWhile p s) \<and> lo \<le> n"
  by (auto simp: rep_counts_def Let_def split: if_splits option.splits)

text \<open>A greedy repetition over a run that cannot be continued takes all of it first.\<close>

lemma re_all_greedy:
  assumes "\<forall>x \<in> set ds. p x" "t = [] \<or> \<not> p (hd t)" "lo \<le> length ds"
    and "case hi of None \<Rightarrow> True | Some h \<Rightarrow> length ds \<le> h"
  shows "re_all (Rep True lo hi p) (ds @ t) c
     = (t, c) # map (\<lambda>n. (drop n (ds @ t), c)) (rev [lo ..< length ds])"
proof -
  have "takeWhile p (ds @ t) = ds" using assms(1,2) by (rule takeWhile_append_stop)
  moreover have "(case hi of None \<Rightarrow> length ds | Some h \<Rightarrow> min h (length ds)) = length ds"
    using assms(4) by (cases hi) (auto simp: min_def)
  ultimately have "rep_counts True lo hi p (ds @ t) = length ds # rev [lo ..< length ds]"
    using assms(3) by (simp add: rep_counts_def Let_def)
  then show ?thesis by simp
qed

lemma re_all_suffix: "(s', c') \<in> set (re_all r s c) \<Longrightarrow> \<exists>u. s = u @ s'"
proof (induction r arbitrary: s c s' c')
  case (Seq a b)
  then obtain m cm where "(m, cm) \<in> set (re_all a s c)" "(s', c') \<in> set (re_all b m cm)"
    by auto
  with Seq.IH(1) [OF this(1)] Seq.IH(2) [OF this(2)] show ?case by auto
next
  case (Rep g lo hi p)
  then show ?case by (auto intro: append_take_drop_id [symmetric])
qed (auto split: list.splits if_splits)

section \<open>Decimal numbers\<close>

lemma py_digit_ascii: "48 \<le> c \<Longrightarrow> c \<le> 57 \<Longrightarrow> py_digit c = Some (c - 48)"
  by (simp add: py_digit_def digit_zeros_def)

lemma py_digit_le: "py_digit c = Some d \<Longrightarrow> d \<le> 9"
  by (auto simp: py_digit_def find_Some_iff)

lemma py_isdecimal_ascii: "48 \<le> c \<Longrightarrow> c \<le> 57 \<Longrightarrow> py_isdecimal c"
  by (simp add: py_isdecimal_def py_digit_ascii)

lemma nat_digits_ascii: "c \<in> set (nat_digits n) \<Longrightarrow> 48 \<le> c \<and> c \<le> 57"
proof (induction n rule: nat_digits.induct)
  case (1 n)
  then show ?case by (cases "n < 10") (auto simp: nat_digits.simps [of n])
qed

lemma nat_digits_nonempty [simp]: "nat_digits n \<noteq> []"
  by (simp add: nat_digits.simps [of n])

lemma py_int_of_digits_snoc:
  "py_int_of_digits (ds @ [c]) = py_int_of_digits ds * 10 + (case py_digit c of None \<Rightarrow> 0 | Some d \<Rightarrow> int d)"
  by (simp add: py_int_of_digits_def)

text \<open>Reading back what \<open>str\<close> printed.\<close>

lemma py_int_nat_digits: "py_int_of_digits (nat_digits n) = int n"
proof (induction n rule: nat_digits.induct)
  case (1 n)
  have last: "py_digit (48 + n mod 10) = Some (n mod 10)"
    using py_digit_ascii [of "48 + n mod 10"] by simp
  show ?case
  proof (cases "n < 10")
    case True
    with last show ?thesis
      by (simp add: nat_digits.simps [of n] py_int_of_digits_def)
  next
    case False
    have "int (n div 10) * 10 + int (n mod 10) = int n"
      by (metis div_mult_mod_eq of_nat_add of_nat_mult of_nat_numeral)
    with 1 last False show ?thesis
      by (simp add: nat_digits.simps [of n] py_int_of_digits_snoc)
  qed
qed

lemma length_nat_digits: "n < 10 ^ k \<Longrightarrow> 0 < k \<Longrightarrow> length (nat_digits n) \<le> k"
proof (induction k arbitrary: n)
  case (Suc k)
  show ?case
  proof (cases "n < 10")
    case False
    then have "k \<noteq> 0" using Suc.prems by (cases k) auto
    moreover have "n div 10 < 10 ^ k" using Suc.prems by (simp add: less_mult_imp_div_less mult.commute)
    ultimately show ?thesis using Suc.IH [of "n div 10"] False by (simp add: nat_digits.simps [of n])
  qed (simp add: nat_digits.simps [of n])
qed simp

lemma py_int_of_digits_bounds: "0 \<le> py_int_of_digits ds \<and> py_int_of_digits ds < 10 ^ length ds"
proof (induction ds rule: rev_induct)
  case (snoc c ds)
  have "(case py_digit c of None \<Rightarrow> 0 | Some d \<Rightarrow> int d) \<in> {0..9}"
    using py_digit_le [of c] by (auto split: option.split)
  with snoc show ?case by (auto simp: py_int_of_digits_snoc)
qed (simp add: py_int_of_digits_def)

end
