(* ===== verification/Interfaces.thy ===== *)
theory Interfaces
  imports Py_Prelude
begin

text \<open>
  Contracts that several components share: a component is a state with operations, and a
  history is a list of operations run one after the other. A \<open>checked_system\<close> keeps an
  invariant under its legal operations, a \<open>guarded_system\<close> under all of them; an \<open>evolving_system\<close> also relates the states before and after an operation
  by an order, so that what holds of one operation holds of every history.
\<close>

locale checked_system =
  fixes exec :: "'op \<Rightarrow> 's \<Rightarrow> 's"
    and inv :: "'s \<Rightarrow> bool"
    and legal :: "'op \<Rightarrow> bool"
  assumes legal_step: "legal op \<Longrightarrow> inv s \<Longrightarrow> inv (exec op s)"
begin

lemma legal_history: "list_all legal ops \<Longrightarrow> inv s \<Longrightarrow> inv (fold exec ops s)"
  by (induction ops arbitrary: s) (auto intro: legal_step)

end

locale guarded_system =
  fixes exec :: "'op \<Rightarrow> 's \<Rightarrow> 's"
    and inv :: "'s \<Rightarrow> bool"
  assumes inv_step: "inv s \<Longrightarrow> inv (exec op s)"

sublocale guarded_system \<subseteq> checked: checked_system exec inv "\<lambda>op. True"
  by unfold_locales (rule inv_step)

context guarded_system
begin

lemma inv_history: "inv s \<Longrightarrow> inv (fold exec ops s)"
  using checked.legal_history [of ops s] by (simp add: list_all_iff)

end

locale evolving_system = guarded_system exec inv
  for exec :: "'op \<Rightarrow> 's \<Rightarrow> 's" and inv :: "'s \<Rightarrow> bool" +
  fixes evolves :: "'s \<Rightarrow> 's \<Rightarrow> bool"
  assumes evolves_refl: "evolves s s"
    and evolves_trans: "evolves s t \<Longrightarrow> evolves t u \<Longrightarrow> evolves s u"
    and evolves_step: "inv s \<Longrightarrow> evolves s (exec op s)"
begin

lemma evolves_history: "inv s \<Longrightarrow> evolves s (fold exec ops s)"
proof (induction ops arbitrary: s)
  case (Cons op ops)
  then show ?case
    using evolves_trans [OF evolves_step [OF Cons.prems] Cons.IH [OF inv_step [OF Cons.prems]]]
    by simp
qed (simp add: evolves_refl)

end

end
