(* ===== verification/Grants.thy ===== *)
theory Grants
  imports Paths Py_Regex Interfaces
begin

text \<open>
  The grant store, \<open>broker/grants.py\<close>. The table \<open>grants\<close> is a list of rows, the table
  \<open>posted_messages\<close> an association list, and the sequence of the autoincremented key is
  kept beside them. Every operation takes the store and returns its result (or the exception
  it raises) with the new store; what an operation wrote before it raised stays written.

  Instants and durations are integers in microseconds; writing an instant as ISO text and
  reading it back is the identity. The injected clock is a sequence of readings: every call
  of \<open>self._now()\<close> takes the next one, so that two readings inside one operation may
  differ, as they do with the wall clock.
\<close>

section \<open>Data\<close>

datatype gstate = Pending | Active | Expired | Revoked | Rejected

definition DECIDED :: "gstate list" where
  "DECIDED = [Active, Rejected, Expired, Revoked]"

datatype gsource =
    Restart_discard
  | Approval
  | Rejection
  | Partial_empty
  | Pending_revoke
  | Revocation
  | Pending_timeout
  | Grant_expiry

record item =
  i_path :: pystr
  i_mode :: pystr

text \<open>A row of the table \<open>grants\<close>.\<close>

record row =
  r_id :: int
  r_instance :: pystr
  r_reason :: pystr
  r_items :: "item list"
  r_created_at :: int
  r_decided_at :: "int option"
  r_expires_at :: "int option"
  r_state :: gstate
  r_state_source :: "gsource option"

record grant_record =
  gr_id :: int
  gr_instance :: pystr
  gr_reason :: pystr
  gr_items :: "item list"
  gr_state :: gstate
  gr_expires_at :: "int option"
  gr_created_at :: int
  gr_state_source :: "gsource option"

record store =
  rows :: "row list"
  seq :: int
  posted :: "(pystr \<times> int) list"
  pending_timeout :: int
  default_duration :: int
  allowed_instances :: "pystr list option"
  clock :: "nat \<Rightarrow> int"
  ticks :: nat

text \<open>The exceptions the store raises; the arguments are what the message is built from.\<close>

datatype store_error =
    Empty_reason
  | Empty_items
  | Unknown_instance pystr
  | Invalid_mode pyval
  | Invalid_path pyval
  | Invalid_expiry pystr
  | Expiry_not_positive pystr
  | Invalid_item_number int
  | Already_decided int gstate
  | No_grant int
  | Missing_expiry
  | Duplicate_event pystr

text \<open>The ones that are a \<open>ValueError\<close>; \<open>No_grant\<close> is a \<open>LookupError\<close>, a missing
  expiry a \<open>TypeError\<close>, a duplicate event id an \<open>sqlite3.IntegrityError\<close>.\<close>

fun is_value_error :: "store_error \<Rightarrow> bool" where
  "is_value_error (No_grant _) = False"
| "is_value_error Missing_expiry = False"
| "is_value_error (Duplicate_event _) = False"
| "is_value_error _ = True"

definition MICROSECONDS :: int where
  "MICROSECONDS = 1000000"

definition DEFAULT_PENDING_TIMEOUT :: int where
  "DEFAULT_PENDING_TIMEOUT = 12 * 3600 * MICROSECONDS"

definition DEFAULT_GRANT_DURATION :: int where
  "DEFAULT_GRANT_DURATION = 24 * 3600 * MICROSECONDS"

section \<open>Expiry strings\<close>

text \<open>The pattern \<open>^(\d{1,3})(h|m|d)$\<close>.\<close>

definition EXPIRY_RE :: re where
  "EXPIRY_RE = Seq (Grp 1 (Rep True 1 (Some 3) py_isdecimal))
     (Seq (Grp 2 (Alt (str_re (lit ''h'')) (Alt (str_re (lit ''m'')) (str_re (lit ''d''))))) Eos)"

definition UNIT_SECONDS :: "(pystr \<times> int) list" where
  "UNIT_SECONDS = [(lit ''h'', 3600), (lit ''m'', 60), (lit ''d'', 86400)]"

definition parse_expiry :: "pystr option \<Rightarrow> store_error + int option" where
  "parse_expiry text =
     (case text of
        None \<Rightarrow> Inr None
      | Some t \<Rightarrow>
          (case re_match EXPIRY_RE (py_strip t) of
             None \<Rightarrow> Inl (Invalid_expiry t)
           | Some (_, c) \<Rightarrow>
               (case (re_group c 1, re_group c 2) of
                  (Some digits, Some unit) \<Rightarrow>
                    (let value = py_int_of_digits digits
                     in if value \<le> 0 then Inl (Expiry_not_positive t)
                        else (case map_of UNIT_SECONDS unit of
                                Some secs \<Rightarrow> Inr (Some (value * secs * MICROSECONDS))
                              | None \<Rightarrow> Inl (Invalid_expiry t)))
                | _ \<Rightarrow> Inl (Invalid_expiry t))))"

section \<open>Reading\<close>

definition read_clock :: "store \<Rightarrow> int \<times> store" where
  "read_clock s = (clock s (ticks s), s\<lparr>ticks := Suc (ticks s)\<rparr>)"

definition find_row :: "int \<Rightarrow> store \<Rightarrow> row option" where
  "find_row rid s = find (\<lambda>r. r_id r = rid) (rows s)"

text \<open>\<open>_state\<close>: the effective state; a read-time view, nothing is written.\<close>

definition effective_state :: "row \<Rightarrow> store \<Rightarrow> (store_error + gstate) \<times> store" where
  "effective_state r s =
     (if r_state r = Pending
      then (let (now, s1) = read_clock s
            in (Inr (if now - r_created_at r \<ge> pending_timeout s then Expired else Pending), s1))
      else if r_state r = Active
      then (case r_expires_at r of
              None \<Rightarrow> (Inl Missing_expiry, s)
            | Some expires \<Rightarrow>
                (let (now, s1) = read_clock s
                 in (Inr (if now \<ge> expires then Expired else Active), s1)))
      else (Inr (r_state r), s))"

definition record_of :: "row \<Rightarrow> gstate \<Rightarrow> grant_record" where
  "record_of r effective =
     \<lparr>gr_id = r_id r, gr_instance = r_instance r, gr_reason = r_reason r, gr_items = r_items r,
      gr_state = effective, gr_expires_at = r_expires_at r, gr_created_at = r_created_at r,
      gr_state_source =
        (if effective = Expired \<and> r_state r = Pending then Some Pending_timeout
         else if effective = Expired \<and> r_state r = Active then Some Grant_expiry
         else r_state_source r)\<rparr>"

definition get_row :: "int \<Rightarrow> store \<Rightarrow> (store_error + grant_record) \<times> store" where
  "get_row rid s =
     (case find_row rid s of
        None \<Rightarrow> (Inl (No_grant rid), s)
      | Some r \<Rightarrow>
          (case effective_state r s of
             (Inl e, s1) \<Rightarrow> (Inl e, s1)
           | (Inr effective, s1) \<Rightarrow> (Inr (record_of r effective), s1)))"

text \<open>The loop of \<open>active_grants\<close> over the rows the query returned.\<close>

fun collect_active ::
  "row list \<Rightarrow> pystr option \<Rightarrow> store \<Rightarrow> (store_error + grant_record list) \<times> store" where
  "collect_active [] inst s = (Inr [], s)"
| "collect_active (r # rs) inst s =
     (if inst \<noteq> None \<and> inst \<noteq> Some (r_instance r) then collect_active rs inst s
      else (case get_row (r_id r) s of
              (Inl e, s1) \<Rightarrow> (Inl e, s1)
            | (Inr rec, s1) \<Rightarrow>
                (case collect_active rs inst s1 of
                   (Inl e, s2) \<Rightarrow> (Inl e, s2)
                 | (Inr out, s2) \<Rightarrow> (Inr (if gr_state rec = Active then rec # out else out), s2))))"

definition active_grants ::
  "pystr option \<Rightarrow> store \<Rightarrow> (store_error + grant_record list) \<times> store" where
  "active_grants inst s =
     collect_active (sort_key r_id (filter (\<lambda>r. r_state r = Active) (rows s))) inst s"

text \<open>\<open>[self._get_row(row["id"]) for row in ...]\<close>.\<close>

fun get_rows :: "row list \<Rightarrow> store \<Rightarrow> (store_error + grant_record list) \<times> store" where
  "get_rows [] s = (Inr [], s)"
| "get_rows (r # rs) s =
     (case get_row (r_id r) s of
        (Inl e, s1) \<Rightarrow> (Inl e, s1)
      | (Inr rec, s1) \<Rightarrow>
          (case get_rows rs s1 of
             (Inl e, s2) \<Rightarrow> (Inl e, s2)
           | (Inr out, s2) \<Rightarrow> (Inr (rec # out), s2)))"

definition all_records :: "store \<Rightarrow> (store_error + grant_record list) \<times> store" where
  "all_records s = get_rows (sort_key r_id (rows s)) s"

definition pending_records :: "store \<Rightarrow> (store_error + grant_record list) \<times> store" where
  "pending_records s = get_rows (sort_key r_id (filter (\<lambda>r. r_state r = Pending) (rows s))) s"

section \<open>Transitions\<close>

text \<open>\<open>UPDATE grants SET ... WHERE id=?\<close>.\<close>

definition update_row :: "int \<Rightarrow> (row \<Rightarrow> row) \<Rightarrow> store \<Rightarrow> store" where
  "update_row rid f s = s\<lparr>rows := map (\<lambda>r. if r_id r = rid then f r else r) (rows s)\<rparr>"

definition restart_discard_pending :: "store \<Rightarrow> store" where
  "restart_discard_pending s =
     s\<lparr>rows := map (\<lambda>r. if r_state r = Pending
                        then r\<lparr>r_state := Rejected, r_state_source := Some Restart_discard\<rparr>
                        else r) (rows s)\<rparr>"

text \<open>\<open>GrantStore(db_path, ...)\<close> on an existing database: the tables survive, the
  configuration and the clock are those of the new process.\<close>

definition open_store ::
  "row list \<Rightarrow> int \<Rightarrow> (pystr \<times> int) list \<Rightarrow> int \<Rightarrow> int \<Rightarrow> pystr list option \<Rightarrow> (nat \<Rightarrow> int) \<Rightarrow> store" where
  "open_store rs sq ps ptimeout dduration allowed now =
     restart_discard_pending
       \<lparr>rows = rs, seq = sq, posted = ps, pending_timeout = ptimeout, default_duration = dduration,
        allowed_instances = allowed, clock = now, ticks = 0\<rparr>"

definition reopen :: "store \<Rightarrow> store" where
  "reopen s = open_store (rows s) (seq s) (posted s) (pending_timeout s) (default_duration s)
     (allowed_instances s) (\<lambda>n. clock s (ticks s + n))"

text \<open>The loop of \<open>create_request\<close> over the requested items, each a dictionary.\<close>

fun clean_items :: "(pystr \<times> pyval) list list \<Rightarrow> store_error + item list" where
  "clean_items [] = Inr []"
| "clean_items (it # its) =
     (let path = dict_get it (lit ''path''); mode = dict_get it (lit ''mode'')
      in if mode \<noteq> PStr READ \<and> mode \<noteq> PStr WRITE then Inl (Invalid_mode mode)
         else (case normalize_path path of
                 None \<Rightarrow> Inl (Invalid_path path)
               | Some norm \<Rightarrow>
                   (case clean_items its of
                      Inl e \<Rightarrow> Inl e
                    | Inr cs \<Rightarrow>
                        Inr (\<lparr>i_path = norm, i_mode = (if mode = PStr READ then READ else WRITE)\<rparr> # cs))))"

definition create_request ::
  "pystr \<Rightarrow> pyval \<Rightarrow> (pystr \<times> pyval) list list \<Rightarrow> store \<Rightarrow> (store_error + grant_record) \<times> store" where
  "create_request inst rsn items s =
     (case rsn of
        PStr text \<Rightarrow>
          if py_strip text = [] then (Inl Empty_reason, s)
          else if items = [] then (Inl Empty_items, s)
          else if (case allowed_instances s of None \<Rightarrow> False | Some al \<Rightarrow> inst \<notin> set al)
          then (Inl (Unknown_instance inst), s)
          else (case clean_items items of
                  Inl e \<Rightarrow> (Inl e, s)
                | Inr cs \<Rightarrow>
                    (let (now, s1) = read_clock s;
                         rid = seq s1 + 1;
                         new = \<lparr>r_id = rid, r_instance = inst, r_reason = py_strip text,
                                r_items = cs, r_created_at = now, r_decided_at = None,
                                r_expires_at = None, r_state = Pending, r_state_source = None\<rparr>
                     in get_row rid (s1\<lparr>rows := rows s1 @ [new], seq := rid\<rparr>)))
      | _ \<Rightarrow> (Inl Empty_reason, s))"

text \<open>\<open>_assert_pending\<close>: the message of its \<open>ValueError\<close> computes the effective state a
  second time.\<close>

definition assert_pending :: "int \<Rightarrow> store \<Rightarrow> (store_error + row) \<times> store" where
  "assert_pending rid s =
     (case find_row rid s of
        None \<Rightarrow> (Inl (No_grant rid), s)
      | Some r \<Rightarrow>
          (case effective_state r s of
             (Inl e, s1) \<Rightarrow> (Inl e, s1)
           | (Inr st, s1) \<Rightarrow>
               if st \<in> set DECIDED
               then (case effective_state r s1 of
                       (Inl e, s2) \<Rightarrow> (Inl e, s2)
                     | (Inr st2, s2) \<Rightarrow> (Inl (Already_decided rid st2), s2))
               else (Inr r, s1)))"

fun choose_items :: "item list \<Rightarrow> int list \<Rightarrow> store_error + item list" where
  "choose_items items [] = Inr []"
| "choose_items items (n # ns) =
     (if n < 1 \<or> n > int (length items) then Inl (Invalid_item_number n)
      else (case choose_items items ns of
              Inl e \<Rightarrow> Inl e
            | Inr chosen \<Rightarrow> Inr (items ! nat (n - 1) # chosen)))"

text \<open>The two updates \<open>approve\<close> can make.\<close>

definition reject_partial_empty :: "int \<Rightarrow> store \<Rightarrow> (store_error + grant_record) \<times> store" where
  "reject_partial_empty rid s =
     (let (now, s1) = read_clock s
      in get_row rid (update_row rid
           (\<lambda>r. r\<lparr>r_state := Rejected, r_decided_at := Some now,
                  r_state_source := Some Partial_empty\<rparr>) s1))"

definition activate ::
  "int \<Rightarrow> item list \<Rightarrow> int \<Rightarrow> store \<Rightarrow> (store_error + grant_record) \<times> store" where
  "activate rid items duration s =
     (let (now, s1) = read_clock s
      in get_row rid (update_row rid
           (\<lambda>r. r\<lparr>r_items := items, r_state := Active, r_decided_at := Some now,
                  r_expires_at := Some (now + duration), r_state_source := Some Approval\<rparr>) s1))"

definition approve ::
  "int \<Rightarrow> pystr option \<Rightarrow> int list option \<Rightarrow> store \<Rightarrow> (store_error + grant_record) \<times> store" where
  "approve rid expiry item_numbers s =
     (case assert_pending rid s of
        (Inl e, s1) \<Rightarrow> (Inl e, s1)
      | (Inr r, s1) \<Rightarrow>
          (case parse_expiry expiry of
             Inl e \<Rightarrow> (Inl e, s1)
           | Inr parsed \<Rightarrow>
               (let duration = (case parsed of None \<Rightarrow> default_duration s1 | Some d \<Rightarrow> d)
                in case item_numbers of
                     None \<Rightarrow> activate rid (r_items r) duration s1
                   | Some ns \<Rightarrow>
                       (case choose_items (r_items r) ns of
                          Inl e \<Rightarrow> (Inl e, s1)
                        | Inr chosen \<Rightarrow>
                            if chosen = [] then reject_partial_empty rid s1
                            else activate rid chosen duration s1))))"

definition reject :: "int \<Rightarrow> store \<Rightarrow> (store_error + grant_record) \<times> store" where
  "reject rid s =
     (case assert_pending rid s of
        (Inl e, s1) \<Rightarrow> (Inl e, s1)
      | (Inr _, s1) \<Rightarrow>
          (let (now, s2) = read_clock s1
           in get_row rid (update_row rid
                (\<lambda>r. r\<lparr>r_state := Rejected, r_decided_at := Some now,
                       r_state_source := Some Rejection\<rparr>) s2)))"

definition revoke :: "int \<Rightarrow> store \<Rightarrow> (store_error + grant_record) \<times> store" where
  "revoke rid s =
     (case find_row rid s of
        None \<Rightarrow> (Inl (No_grant rid), s)
      | Some r \<Rightarrow>
          (case effective_state r s of
             (Inl e, s1) \<Rightarrow> (Inl e, s1)
           | (Inr effective, s1) \<Rightarrow>
               if effective = Pending
               then (let (now, s2) = read_clock s1
                     in get_row rid (update_row rid
                          (\<lambda>r. r\<lparr>r_state := Rejected, r_decided_at := Some now,
                                 r_state_source := Some Pending_revoke\<rparr>) s2))
               else if effective = Active
               then get_row rid (update_row rid
                      (\<lambda>r. r\<lparr>r_state := Revoked, r_state_source := Some Revocation\<rparr>) s1)
               else (Inl (Already_decided rid effective), s1)))"

section \<open>Posted messages\<close>

definition record_posted :: "pystr \<Rightarrow> int \<Rightarrow> store \<Rightarrow> (store_error + unit) \<times> store" where
  "record_posted event_id request_id s =
     (if event_id \<in> fst ` set (posted s) then (Inl (Duplicate_event event_id), s)
      else (Inr (), s\<lparr>posted := posted s @ [(event_id, request_id)]\<rparr>))"

definition request_for_event :: "pystr \<Rightarrow> store \<Rightarrow> int option" where
  "request_for_event event_id s = map_of (posted s) event_id"

section \<open>Reading changes nothing but the clock\<close>

definition same_data :: "store \<Rightarrow> store \<Rightarrow> bool" where
  "same_data s t \<longleftrightarrow> t = s\<lparr>ticks := ticks t\<rparr> \<and> ticks s \<le> ticks t"

lemma same_data_refl [simp]: "same_data s s"
  by (simp add: same_data_def)

lemma same_data_trans: "same_data s t \<Longrightarrow> same_data t u \<Longrightarrow> same_data s u"
  unfolding same_data_def by (cases s; cases t; cases u) auto

lemma same_data_fields:
  assumes "same_data s t"
  shows "rows t = rows s" "seq t = seq s" "posted t = posted s"
    "pending_timeout t = pending_timeout s" "default_duration t = default_duration s"
    "allowed_instances t = allowed_instances s" "clock t = clock s" "ticks s \<le> ticks t"
proof -
  from assms have t: "t = s\<lparr>ticks := ticks t\<rparr>" and "ticks s \<le> ticks t"
    by (auto simp: same_data_def)
  then show "ticks s \<le> ticks t" by simp
  show "rows t = rows s" "seq t = seq s" "posted t = posted s"
    "pending_timeout t = pending_timeout s" "default_duration t = default_duration s"
    "allowed_instances t = allowed_instances s" "clock t = clock s"
    by (subst t; simp)+
qed

lemma read_clock_eq: "read_clock s = (clock s (ticks s), s\<lparr>ticks := Suc (ticks s)\<rparr>)"
  by (simp add: read_clock_def)

lemma same_data_tick [simp]: "same_data s (s\<lparr>ticks := Suc (ticks s)\<rparr>)"
  by (simp add: same_data_def)

lemma same_data_effective_state: "effective_state r s = (x, t) \<Longrightarrow> same_data s t"
  by (auto simp: effective_state_def read_clock_eq split: if_splits option.splits)

lemma same_data_get_row: "get_row rid s = (x, t) \<Longrightarrow> same_data s t"
  by (auto simp: get_row_def split: option.splits prod.splits sum.splits
      dest: same_data_effective_state)

lemma same_data_collect_active: "collect_active rs inst s = (x, t) \<Longrightarrow> same_data s t"
proof (induction rs arbitrary: s x)
  case (Cons r rs)
  then show ?case
    by (fastforce split: if_splits prod.splits sum.splits
        intro: same_data_trans dest: same_data_get_row)
qed simp

lemma same_data_get_rows: "get_rows rs s = (x, t) \<Longrightarrow> same_data s t"
proof (induction rs arbitrary: s x)
  case (Cons r rs)
  then show ?case
    by (fastforce split: prod.splits sum.splits intro: same_data_trans dest: same_data_get_row)
qed simp

lemma same_data_assert_pending: "assert_pending rid s = (x, t) \<Longrightarrow> same_data s t"
  by (auto simp: assert_pending_def split: option.splits prod.splits sum.splits if_splits
      intro: same_data_trans dest!: same_data_effective_state)

lemmas same_data_reads = same_data_effective_state same_data_get_row same_data_collect_active
  same_data_get_rows same_data_assert_pending

lemma same_data_active_grants: "active_grants inst s = (x, t) \<Longrightarrow> same_data s t"
  by (simp add: active_grants_def same_data_collect_active)

lemma same_data_all_records: "all_records s = (x, t) \<Longrightarrow> same_data s t"
  by (simp add: all_records_def same_data_get_rows)

lemma same_data_pending_records: "pending_records s = (x, t) \<Longrightarrow> same_data s t"
  by (simp add: pending_records_def same_data_get_rows)

section \<open>Expiry strings name positive durations\<close>

lemma parse_expiry_positive: "parse_expiry t = Inr (Some d) \<Longrightarrow> 0 < d"
  by (auto simp: parse_expiry_def Let_def UNIT_SECONDS_def MICROSECONDS_def
      split: option.splits if_splits prod.splits)

text \<open>How the pattern matches: up to three digits and a unit, perhaps before a newline.\<close>

definition UNIT_RE :: re where
  "UNIT_RE = Seq (Grp 2 (Alt (str_re (lit ''h'')) (Alt (str_re (lit ''m'')) (str_re (lit ''d''))))) Eos"

lemma unit_match:
  "(rest, c) \<in> set (re_all UNIT_RE t cc) \<Longrightarrow> \<exists>x \<in> {104, 109, 100}. t = x # rest \<and> c = (2, [x]) # cc"
  by (cases t) (auto simp: UNIT_RE_def lit_def chr_re_def split: if_splits)

lemma unit_match_end:
  "x \<in> {104, 109, 100} \<Longrightarrow> \<exists>ms. re_all UNIT_RE [x] cc = ([], (2, [x]) # cc) # ms"
  by (auto simp: UNIT_RE_def lit_def chr_re_def)

lemma EXPIRY_RE_eq: "EXPIRY_RE = Seq (Grp 1 (Rep True 1 (Some 3) py_isdecimal)) UNIT_RE"
  by (simp add: EXPIRY_RE_def UNIT_RE_def)

lemma expiry_match_shape:
  assumes "re_match EXPIRY_RE s = Some (rest, c)"
  obtains ds u where "re_group c 1 = Some ds" "re_group c 2 = Some u" "1 \<le> length ds" "length ds \<le> 3"
    "u \<in> {[104], [109], [100]}" "s = ds @ u @ rest" "\<forall>x \<in> set ds. py_isdecimal x"
proof -
  from assms have "(rest, c) \<in> set (re_all EXPIRY_RE s [])"
    by (auto simp: re_match_def split: list.splits)
  then obtain n where n1: "n \<in> set (rep_counts True 1 (Some 3) py_isdecimal s)"
      "(rest, c) \<in> set (re_all UNIT_RE (drop n s) [(1, take (length s - length (drop n s)) s)])"
    by (auto simp: EXPIRY_RE_eq)
  then have len: "n \<le> length s"
    using rep_counts_mem [OF n1(1)] length_takeWhile_le le_trans by blast
  have cut: "length s - length (drop n s) = n" using len by simp
  from unit_match [OF n1(2) [unfolded cut]] obtain x where "x \<in> {104, 109, 100}" "drop n s = x # rest"
      "c = [(2, [x]), (1, take n s)]"
    by blast
  note n = n1(1) this(2) this(1) this(3)
  have le: "n \<le> length (takeWhile py_isdecimal s)" "1 \<le> n"
    using rep_counts_mem [OF n(1)] by auto
  have "n \<le> 3" using n(1) by (auto simp: rep_counts_def Let_def)
  have "take n s = take n (takeWhile py_isdecimal s)"
    using le(1) by (metis takeWhile_eq_take take_take min.absorb1 length_takeWhile_le)
  then have "\<forall>x \<in> set (take n s). py_isdecimal x"
    by (metis in_set_takeD set_takeWhileD)
  moreover have "s = take n s @ [x] @ rest"
    using n(2) append_take_drop_id [of n s] by simp
  moreover have "length (take n s) = n" using len by simp
  ultimately show thesis
    using that [of "take n s" "[x]"] n(3,4) le(2) \<open>n \<le> 3\<close>
    by (simp add: re_group_def del: length_take)
qed

lemma expiry_match:
  assumes "\<forall>x \<in> set ds. py_isdecimal x" "1 \<le> length ds" "length ds \<le> 3" "u \<in> {104, 109, 100}"
  shows "re_match EXPIRY_RE (ds @ [u]) = Some ([], [(2, [u]), (1, ds)])"
proof -
  have "\<not> py_isdecimal 104" "\<not> py_isdecimal 109" "\<not> py_isdecimal 100"
    by (simp_all add: py_isdecimal_def py_digit_def digit_zeros_def)
  then have "\<not> py_isdecimal u" using assms(4) by blast
  then have "re_all (Rep True 1 (Some 3) py_isdecimal) (ds @ [u]) []
      = ([u], []) # map (\<lambda>n. (drop n (ds @ [u]), [])) (rev [1 ..< length ds])"
    using assms by (intro re_all_greedy) auto
  moreover obtain ms where "re_all UNIT_RE [u] [(1, ds)] = ([], [(2, [u]), (1, ds)]) # ms"
    using unit_match_end [OF assms(4)] by blast
  ultimately show ?thesis
    by (simp add: re_match_def EXPIRY_RE_eq del: re_all.simps(3))
qed

lemma expiry_parts:
  assumes "parse_expiry (Some t) = Inr p"
  obtains ds u secs where "p = Some (py_int_of_digits ds * secs * MICROSECONDS)" "(u, secs) \<in> set UNIT_SECONDS"
    "length ds \<le> 3" "0 < py_int_of_digits ds"
proof -
  obtain rest c where m: "re_match EXPIRY_RE (py_strip t) = Some (rest, c)"
    using assms by (auto simp: parse_expiry_def split: option.splits)
  from expiry_match_shape [OF m] obtain ds u where d: "re_group c 1 = Some ds" "re_group c 2 = Some u"
      "length ds \<le> 3"
    by blast
  then show thesis
    using assms m that [of ds _ u]
    by (auto simp: parse_expiry_def Let_def split: if_splits option.splits dest: map_of_SomeD)
qed

lemma parse_expiry_print:
  assumes "1 \<le> n" "n \<le> 999" "(u, secs) \<in> set UNIT_SECONDS"
  shows "parse_expiry (Some (py_str_int n @ u)) = Inr (Some (n * secs * MICROSECONDS))"
proof -
  let ?ds = "nat_digits (nat n)"
  have "\<exists>x. u = [x] \<and> x \<in> {104, 109, 100} \<and> map_of UNIT_SECONDS [x] = Some secs"
    using assms(3) by (auto simp: UNIT_SECONDS_def lit_def)
  then obtain x where x: "u = [x]" "x \<in> {104, 109, 100}" "map_of UNIT_SECONDS [x] = Some secs"
    by blast
  have len: "length ?ds \<le> 3" using length_nat_digits [of "nat n" 3] assms by simp
  have dec: "\<forall>c \<in> set ?ds. py_isdecimal c \<and> \<not> py_isspace c"
    using nat_digits_ascii py_isdecimal_ascii by (fastforce simp: py_isspace_def)
  have "py_strip (?ds @ [x]) = ?ds @ [x]"
  proof (rule py_strip_id)
    show "\<not> py_isspace (hd (?ds @ [x]))"
      using dec nat_digits_nonempty [of "nat n"] by (metis hd_append2 hd_in_set)
    show "\<not> py_isspace (last (?ds @ [x]))" using x(2) by (auto simp: py_isspace_def)
  qed simp
  moreover have "re_match EXPIRY_RE (?ds @ [x]) = Some ([], [(2, [x]), (1, ?ds)])"
    using dec len x(2) nat_digits_nonempty [of "nat n"]
    by (intro expiry_match) (auto simp: Suc_le_eq simp del: nat_digits_nonempty)
  ultimately show ?thesis
    using assms x by (simp add: parse_expiry_def py_str_int_def re_group_def py_int_nat_digits)
qed

section \<open>The rows of a store\<close>

definition item_ok :: "item \<Rightarrow> bool" where
  "item_ok i \<longleftrightarrow> canonical_path (i_path i) \<and> i_mode i \<in> set MODES"

text \<open>What the fields of a row say, state by state. A row is never stored as expired.\<close>

definition row_ok :: "row \<Rightarrow> bool" where
  "row_ok r \<longleftrightarrow> r_reason r \<noteq> [] \<and> r_items r \<noteq> [] \<and> (\<forall>i \<in> set (r_items r). item_ok i) \<and>
     (case r_state r of
        Pending \<Rightarrow> r_decided_at r = None \<and> r_expires_at r = None \<and> r_state_source r = None
      | Active \<Rightarrow> (\<exists>d e. r_decided_at r = Some d \<and> r_expires_at r = Some e \<and> d < e)
                  \<and> r_state_source r = Some Approval
      | Revoked \<Rightarrow> (\<exists>d e. r_decided_at r = Some d \<and> r_expires_at r = Some e \<and> d < e)
                   \<and> r_state_source r = Some Revocation
      | Rejected \<Rightarrow> r_expires_at r = None \<and> r_state_source r \<in>
                    {Some Restart_discard, Some Rejection, Some Partial_empty, Some Pending_revoke}
      | Expired \<Rightarrow> False)"

definition store_inv :: "store \<Rightarrow> bool" where
  "store_inv s \<longleftrightarrow> (\<forall>r \<in> set (rows s). row_ok r \<and> 1 \<le> r_id r \<and> r_id r \<le> seq s)
     \<and> sorted_wrt (<) (map r_id (rows s)) \<and> 0 \<le> seq s \<and> distinct (map fst (posted s))
     \<and> 0 < default_duration s"

lemma store_inv_distinct: "store_inv s \<Longrightarrow> distinct (map r_id (rows s))"
  by (simp add: store_inv_def strict_sorted_iff)

lemma find_row_Some: "find_row rid s = Some r \<Longrightarrow> r \<in> set (rows s) \<and> r_id r = rid"
  by (auto simp: find_row_def find_Some_iff)

lemma find_row_mem: "store_inv s \<Longrightarrow> r \<in> set (rows s) \<Longrightarrow> find_row (r_id r) s = Some r"
proof -
  assume "store_inv s" and r: "r \<in> set (rows s)"
  then have d: "inj_on r_id (set (rows s))"
    using store_inv_distinct distinct_map by blast
  from r have "find (\<lambda>x. r_id x = r_id r) (rows s) \<noteq> None"
    by (auto simp: find_None_iff)
  then obtain x where x: "find (\<lambda>x. r_id x = r_id r) (rows s) = Some x" by blast
  then have "x \<in> set (rows s)" "r_id x = r_id r"
    by (auto simp: find_Some_iff)
  with d r have "x = r" by (auto dest: inj_onD)
  with x show ?thesis by (simp add: find_row_def)
qed

lemma find_row_same_data [simp]: "same_data s t \<Longrightarrow> find_row rid t = find_row rid s"
  by (simp add: find_row_def same_data_fields)

lemma store_inv_same_data: "same_data s t \<Longrightarrow> store_inv t = store_inv s"
  by (simp add: store_inv_def same_data_fields)

text \<open>An update of one row that keeps its id and its well-formedness keeps the invariant.\<close>

lemma store_inv_update:
  assumes "store_inv s" "\<And>r. r_id (f r) = r_id r"
    and "\<And>r. r \<in> set (rows s) \<Longrightarrow> r_id r = rid \<Longrightarrow> row_ok (f r)"
  shows "store_inv (update_row rid f s)"
proof -
  have "map r_id (rows (update_row rid f s)) = map r_id (rows s)"
    using assms(2) by (simp add: update_row_def)
  moreover have "\<forall>r \<in> set (rows (update_row rid f s)). row_ok r \<and> 1 \<le> r_id r \<and> r_id r \<le> seq s"
    using assms by (auto simp: store_inv_def update_row_def)
  ultimately show ?thesis
    using assms(1) by (simp add: store_inv_def) (simp add: update_row_def)
qed

lemma update_row_fields [simp]:
  "seq (update_row rid f s) = seq s" "posted (update_row rid f s) = posted s"
  "pending_timeout (update_row rid f s) = pending_timeout s"
  "default_duration (update_row rid f s) = default_duration s"
  "allowed_instances (update_row rid f s) = allowed_instances s"
  "clock (update_row rid f s) = clock s" "ticks (update_row rid f s) = ticks s"
  by (simp_all add: update_row_def)

section \<open>How one row can change\<close>

text \<open>The changes of a stored row: discarded at restart, refused, granted, withdrawn.\<close>

inductive row_change :: "row \<Rightarrow> row \<Rightarrow> bool" where
  discard: "r_state r = Pending \<Longrightarrow>
     row_change r (r\<lparr>r_state := Rejected, r_state_source := Some Restart_discard\<rparr>)"
| refuse: "r_state r = Pending \<Longrightarrow> src \<in> {Partial_empty, Rejection, Pending_revoke} \<Longrightarrow>
     row_change r (r\<lparr>r_state := Rejected, r_decided_at := Some t, r_state_source := Some src\<rparr>)"
| grant: "r_state r = Pending \<Longrightarrow> items \<noteq> [] \<Longrightarrow> set items \<subseteq> set (r_items r) \<Longrightarrow> 0 < d \<Longrightarrow>
     row_change r (r\<lparr>r_items := items, r_state := Active, r_decided_at := Some t,
       r_expires_at := Some (t + d), r_state_source := Some Approval\<rparr>)"
| withdraw: "r_state r = Active \<Longrightarrow>
     row_change r (r\<lparr>r_state := Revoked, r_state_source := Some Revocation\<rparr>)"

inductive_cases row_changeE: "row_change r r'"

definition row_evolves :: "row \<Rightarrow> row \<Rightarrow> bool" where
  "row_evolves = row_change\<^sup>*\<^sup>*"

lemma row_change_ok: "row_change r r' \<Longrightarrow> row_ok r \<Longrightarrow> row_ok r'"
  by (induction rule: row_change.induct) (auto simp: row_ok_def)

lemma row_change_frame:
  "row_change r r' \<Longrightarrow> r_id r' = r_id r \<and> r_instance r' = r_instance r \<and> r_reason r' = r_reason r
     \<and> r_created_at r' = r_created_at r \<and> set (r_items r') \<subseteq> set (r_items r)"
  by (induction rule: row_change.induct) auto

lemma row_evolves_frame:
  "row_evolves r r' \<Longrightarrow> r_id r' = r_id r \<and> r_instance r' = r_instance r \<and> r_reason r' = r_reason r
     \<and> r_created_at r' = r_created_at r \<and> set (r_items r') \<subseteq> set (r_items r)"
  unfolding row_evolves_def
  by (induction rule: rtranclp_induct) (auto dest: row_change_frame)

text \<open>A row that is granted can only be withdrawn, and a row that is neither pending nor
  active never changes again.\<close>

lemma row_evolves_final:
  "row_evolves r r' \<Longrightarrow> r_state r \<noteq> Pending \<Longrightarrow>
     r' = r \<or> r_state r = Active \<and> r' = r\<lparr>r_state := Revoked, r_state_source := Some Revocation\<rparr>"
  unfolding row_evolves_def
  by (induction rule: rtranclp_induct) (auto elim: row_changeE)

lemma find_row_update:
  assumes "\<And>x. r_id (f x) = r_id x"
  shows "find_row rid' (update_row rid f s)
     = (if rid' = rid then map_option f (find_row rid s) else find_row rid' s)"
proof -
  have "find (\<lambda>r. r_id r = rid') (map (\<lambda>r. if r_id r = rid then f r else r) rs)
     = (if rid' = rid then map_option f (find (\<lambda>r. r_id r = rid) rs)
        else find (\<lambda>r. r_id r = rid') rs)" for rs
    using assms by (induction rs) auto
  then show ?thesis by (simp add: find_row_def update_row_def)
qed

text \<open>An operation that changed the row \<open>rid\<close>, up to readings of the clock.\<close>

definition changed_row :: "int \<Rightarrow> row \<Rightarrow> row \<Rightarrow> store \<Rightarrow> store \<Rightarrow> bool" where
  "changed_row rid r r' s t \<longleftrightarrow> find_row rid s = Some r \<and> row_change r r'
     \<and> (\<exists>s1 f. same_data s s1 \<and> same_data (update_row rid f s1) t \<and> f r = r' \<and> (\<forall>x. r_id (f x) = r_id x))"

lemma changed_rowI:
  assumes "same_data s s1" "get_row rid (update_row rid f s1) = (x, t)"
    and "find_row rid s = Some r" "row_change r (f r)" "\<And>x. r_id (f x) = r_id x"
  shows "changed_row rid r (f r) s t"
  using assms same_data_get_row unfolding changed_row_def by blast

lemma changed_row_find:
  assumes "changed_row rid r r' s t"
  shows "find_row rid' t = (if rid' = rid then Some r' else find_row rid' s)"
proof -
  from assms obtain s1 f where f: "find_row rid s = Some r" "same_data s s1"
      "same_data (update_row rid f s1) t" "f r = r'" "\<And>x. r_id (f x) = r_id x"
    by (auto simp: changed_row_def)
  have "find_row rid' t = find_row rid' (update_row rid f s1)"
    using f(3) by simp
  also have "\<dots> = (if rid' = rid then Some r' else find_row rid' s)"
    using f by (simp add: find_row_update)
  finally show ?thesis .
qed

lemma changed_row_fields:
  assumes "changed_row rid r r' s t"
  shows "seq t = seq s" "posted t = posted s" "pending_timeout t = pending_timeout s"
    "default_duration t = default_duration s" "allowed_instances t = allowed_instances s"
    "clock t = clock s" "ticks s \<le> ticks t"
proof -
  from assms obtain s1 f where "same_data s s1" "same_data (update_row rid f s1) t"
    by (auto simp: changed_row_def)
  note sd = same_data_fields [OF this(1)] same_data_fields [OF this(2)]
  show "seq t = seq s" "posted t = posted s" "pending_timeout t = pending_timeout s"
    "default_duration t = default_duration s" "allowed_instances t = allowed_instances s"
    "clock t = clock s" "ticks s \<le> ticks t"
    using sd by simp_all
qed

lemma changed_row_inv:
  assumes "changed_row rid r r' s t" "store_inv s"
  shows "store_inv t"
proof -
  from assms(1) obtain s1 f where f: "find_row rid s = Some r" "row_change r (f r)" "same_data s s1"
      "same_data (update_row rid f s1) t" "\<And>x. r_id (f x) = r_id x"
    by (auto simp: changed_row_def)
  have inv1: "store_inv s1" using f(3) assms(2) store_inv_same_data by blast
  have "row_ok (f x)" if "x \<in> set (rows s1)" "r_id x = rid" for x
  proof -
    have "find_row rid s1 = Some x" using find_row_mem [OF inv1 that(1)] that(2) by simp
    with f(1,3) have "x = r" by simp
    moreover have "row_ok x" using that inv1 by (simp add: store_inv_def)
    ultimately show ?thesis using f(2) row_change_ok by blast
  qed
  then have "store_inv (update_row rid f s1)"
    using store_inv_update [OF inv1 f(5)] by blast
  with f(4) show ?thesis using store_inv_same_data by blast
qed

section \<open>What each transition does\<close>

lemma assert_pending_Inr:
  assumes "assert_pending rid s = (Inr r, t)"
  shows "find_row rid s = Some r" "r_state r = Pending"
    "clock s (ticks s) - r_created_at r < pending_timeout s" "t = s\<lparr>ticks := Suc (ticks s)\<rparr>"
  using assms
  by (auto simp: assert_pending_def effective_state_def read_clock_eq DECIDED_def
      split: option.splits prod.splits sum.splits if_splits)
    (metis gstate.exhaust)+

lemma choose_items_spec:
  "choose_items items ns = Inr chosen \<Longrightarrow>
     chosen = map (\<lambda>n. items ! nat (n - 1)) ns \<and> (\<forall>n \<in> set ns. 1 \<le> n \<and> n \<le> int (length items))"
  by (induction ns arbitrary: chosen) (auto split: if_splits sum.splits)

lemma choose_items_subset: "choose_items items ns = Inr chosen \<Longrightarrow> set chosen \<subseteq> set items"
  using choose_items_spec [of items ns chosen] by (auto intro!: nth_mem)

text \<open>The items an approval grants: all of them, or the chosen ones.\<close>

definition approved_items :: "item list \<Rightarrow> int list option \<Rightarrow> store_error + item list" where
  "approved_items items ns = (case ns of None \<Rightarrow> Inr items | Some ns \<Rightarrow> choose_items items ns)"

definition grant_duration :: "store \<Rightarrow> int option \<Rightarrow> int" where
  "grant_duration s p = (case p of None \<Rightarrow> default_duration s | Some d \<Rightarrow> d)"

lemma approve_effect:
  assumes "approve rid ex ns s = (x, t)" "0 < default_duration s" "\<forall>r \<in> set (rows s). r_items r \<noteq> []"
  shows "same_data s t \<or> (\<exists>r r'. changed_row rid r r' s t)"
proof (cases "assert_pending rid s")
  case (Pair y s1)
  show ?thesis
  proof (cases y)
    case (Inl e)
    with Pair assms(1) show ?thesis by (auto simp: approve_def dest: same_data_assert_pending)
  next
    case (Inr r)
    note ap = assert_pending_Inr [OF Pair [unfolded Inr]]
    have sd1: "same_data s s1" using ap(4) by simp
    have sd2: "same_data s (s1\<lparr>ticks := Suc (ticks s1)\<rparr>)"
      using sd1 same_data_tick same_data_trans by blast
    have ne: "r_items r \<noteq> []" using ap(1) assms(3) by (auto dest: find_row_Some)
    have granted: ?thesis
      if "activate rid its d s1 = (x, t)" "its \<noteq> []" "set its \<subseteq> set (r_items r)" "0 < d" for its d
    proof -
      let ?f = "\<lambda>r. r\<lparr>r_items := its, r_state := Active, r_decided_at := Some (clock s1 (ticks s1)),
              r_expires_at := Some (clock s1 (ticks s1) + d), r_state_source := Some Approval\<rparr>"
      have G: "get_row rid (update_row rid ?f (s1\<lparr>ticks := Suc (ticks s1)\<rparr>)) = (x, t)"
        using that(1) by (simp add: activate_def read_clock_eq)
      have C: "row_change r (?f r)"
        by (rule row_change.grant [OF ap(2) that(2-4)])
      have "changed_row rid r (?f r) s t"
        by (rule changed_rowI [where f = ?f, OF sd2 G ap(1) C]) simp
      then show ?thesis by blast
    qed
    have emptied: ?thesis if "reject_partial_empty rid s1 = (x, t)"
    proof -
      let ?f = "\<lambda>r. r\<lparr>r_state := Rejected, r_decided_at := Some (clock s1 (ticks s1)),
              r_state_source := Some Partial_empty\<rparr>"
      have G: "get_row rid (update_row rid ?f (s1\<lparr>ticks := Suc (ticks s1)\<rparr>)) = (x, t)"
        using that by (simp add: reject_partial_empty_def read_clock_eq)
      have C: "row_change r (?f r)"
        by (rule row_change.refuse [OF ap(2)]) simp
      have "changed_row rid r (?f r) s t"
        by (rule changed_rowI [where f = ?f, OF sd2 G ap(1) C]) simp
      then show ?thesis by blast
    qed
    show ?thesis
    proof (cases "parse_expiry ex")
      case (Inl e)
      with assms(1) Pair \<open>y = Inr r\<close> sd1 show ?thesis by (simp add: approve_def)
    next
      case parsed: (Inr p)
      have pos: "0 < (case p of None \<Rightarrow> default_duration s1 | Some d \<Rightarrow> d)"
        using parsed assms(2) sd1 parse_expiry_positive
        by (auto simp: same_data_fields split: option.split)
      show ?thesis
      proof (cases ns)
        case None
        then have "activate rid (r_items r) (case p of None \<Rightarrow> default_duration s1 | Some d \<Rightarrow> d) s1 = (x, t)"
          using assms(1) Pair Inr parsed by (simp add: approve_def)
        then show ?thesis using ne pos by (intro granted) auto
      next
        case (Some nums)
        show ?thesis
        proof (cases "choose_items (r_items r) nums")
          case (Inl e)
          with assms(1) Pair \<open>y = Inr r\<close> parsed Some sd1 show ?thesis by (simp add: approve_def)
        next
          case chosen: (Inr its)
          then show ?thesis
            using assms(1) Pair Inr parsed Some pos choose_items_subset [OF chosen]
              emptied granted [of its]
            by (cases "its = []") (simp_all add: approve_def)
        qed
      qed
    qed
  qed
qed

lemma reject_effect:
  assumes "reject rid s = (x, t)"
  shows "same_data s t \<or> (\<exists>r r'. changed_row rid r r' s t \<and> r_state r' \<noteq> Active)"
proof (cases "assert_pending rid s")
  case (Pair y s1)
  show ?thesis
  proof (cases y)
    case (Inl e)
    with Pair assms(1) show ?thesis by (auto simp: reject_def dest: same_data_assert_pending)
  next
    case (Inr r)
    note ap = assert_pending_Inr [OF Pair [unfolded Inr]]
    let ?f = "\<lambda>r. r\<lparr>r_state := Rejected, r_decided_at := Some (clock s1 (ticks s1)),
              r_state_source := Some Rejection\<rparr>"
    have sd: "same_data s (s1\<lparr>ticks := Suc (ticks s1)\<rparr>)"
      using ap(4) same_data_tick same_data_trans by metis
    have G: "get_row rid (update_row rid ?f (s1\<lparr>ticks := Suc (ticks s1)\<rparr>)) = (x, t)"
      using assms Pair Inr by (simp add: reject_def read_clock_eq)
    have C: "row_change r (?f r)"
      by (rule row_change.refuse [OF ap(2)]) simp
    have "changed_row rid r (?f r) s t"
      by (rule changed_rowI [where f = ?f, OF sd G ap(1) C]) simp
    then show ?thesis by fastforce
  qed
qed

lemma effective_state_Pending:
  "effective_state r s = (Inr Pending, t) \<Longrightarrow> r_state r = Pending"
  by (auto simp: effective_state_def read_clock_eq split: if_splits option.splits)

lemma effective_state_Active:
  "effective_state r s = (Inr Active, t) \<Longrightarrow> r_state r = Active"
  by (auto simp: effective_state_def read_clock_eq split: if_splits option.splits)

lemma revoke_effect:
  assumes "revoke rid s = (x, t)"
  shows "same_data s t \<or> (\<exists>r r'. changed_row rid r r' s t \<and> r_state r' \<noteq> Active)"
proof (cases "find_row rid s")
  case None
  with assms show ?thesis by (simp add: revoke_def)
next
  case (Some r)
  obtain y s1 where ef: "effective_state r s = (y, s1)" by fastforce
  have sd1: "same_data s s1" using ef by (rule same_data_effective_state)
  show ?thesis
  proof (cases "y = Inr Pending")
    case True
    have sd2: "same_data s (s1\<lparr>ticks := Suc (ticks s1)\<rparr>)"
      using sd1 same_data_tick same_data_trans by blast
    let ?f = "\<lambda>r. r\<lparr>r_state := Rejected, r_decided_at := Some (clock s1 (ticks s1)),
              r_state_source := Some Pending_revoke\<rparr>"
    have st: "r_state r = Pending" using ef True effective_state_Pending by blast
    have G: "get_row rid (update_row rid ?f (s1\<lparr>ticks := Suc (ticks s1)\<rparr>)) = (x, t)"
      using assms Some ef True by (simp add: revoke_def read_clock_eq)
      have C: "row_change r (?f r)"
        by (rule row_change.refuse [OF st]) simp
      have "changed_row rid r (?f r) s t"
        by (rule changed_rowI [where f = ?f, OF sd2 G Some C]) simp
    then show ?thesis by fastforce
  next
    case notp: False
    show ?thesis
    proof (cases "y = Inr Active")
      case True
      let ?f = "\<lambda>r. r\<lparr>r_state := Revoked, r_state_source := Some Revocation\<rparr>"
      have st: "r_state r = Active" using ef True effective_state_Active by blast
      have G: "get_row rid (update_row rid ?f s1) = (x, t)"
        using assms Some ef True by (simp add: revoke_def)
      have C: "row_change r (?f r)"
        by (rule row_change.withdraw [OF st])
      have "changed_row rid r (?f r) s t"
        by (rule changed_rowI [where f = ?f, OF sd1 G Some C]) simp
      then show ?thesis by fastforce
    next
      case False
      with notp assms Some ef sd1 show ?thesis
        by (auto simp: revoke_def split: sum.splits if_splits)
    qed
  qed
qed

lemma clean_items_ok:
  "clean_items its = Inr cs \<Longrightarrow> length cs = length its \<and> (\<forall>i \<in> set cs. item_ok i)"
proof (induction its arbitrary: cs)
  case (Cons it its)
  then show ?case
    using normalize_canonical [of "dict_get it (lit ''path'')"]
    by (auto simp: item_ok_def Let_def split: if_splits option.splits sum.splits)
qed simp

text \<open>A request that is accepted adds one pending row, under the next number.\<close>

definition added_row :: "row \<Rightarrow> store \<Rightarrow> store \<Rightarrow> bool" where
  "added_row new s t \<longleftrightarrow> r_id new = seq s + 1 \<and> r_state new = Pending \<and> row_ok new
     \<and> r_created_at new = clock s (ticks s)
     \<and> same_data (s\<lparr>ticks := Suc (ticks s), rows := rows s @ [new], seq := r_id new\<rparr>) t"

lemma create_request_effect:
  assumes "create_request inst rsn items s = (x, t)"
  shows "same_data s t \<and> (\<exists>e. x = Inl e) \<or> (\<exists>new. added_row new s t)"
proof (cases rsn)
  case (PStr str)
  show ?thesis
  proof (cases "py_strip str = [] \<or> items = []
      \<or> (case allowed_instances s of None \<Rightarrow> False | Some al \<Rightarrow> inst \<notin> set al)")
    case True
    with assms PStr show ?thesis by (auto simp: create_request_def split: if_splits option.splits)
  next
    case False
    show ?thesis
    proof (cases "clean_items items")
      case (Inl e)
      with assms PStr False show ?thesis by (auto simp: create_request_def split: if_splits)
    next
      case (Inr cs)
      let ?new = "\<lparr>r_id = seq s + 1, r_instance = inst, r_reason = py_strip str,
                   r_items = cs, r_created_at = clock s (ticks s), r_decided_at = None,
                   r_expires_at = None, r_state = Pending, r_state_source = None\<rparr>"
      have "row_ok ?new"
        using clean_items_ok [OF Inr] False by (auto simp: row_ok_def)
      moreover have "get_row (seq s + 1)
          (s\<lparr>ticks := Suc (ticks s), rows := rows s @ [?new], seq := seq s + 1\<rparr>) = (x, t)"
        using assms PStr False Inr by (auto simp: create_request_def read_clock_eq Let_def split: if_splits)
      ultimately have "added_row ?new s t"
        using same_data_get_row by (auto simp: added_row_def)
      then show ?thesis by blast
    qed
  qed
qed (use assms in \<open>auto simp: create_request_def\<close>)

section \<open>Histories\<close>

text \<open>The calls the rest of the broker makes, and the restart of the process.\<close>

datatype gop =
    Create pystr pyval "(pystr \<times> pyval) list list"
  | Approve int "pystr option" "int list option"
  | Reject int
  | Revoke int
  | Get int
  | List_active "pystr option"
  | List_all
  | List_pending
  | Post pystr int
  | Restart

fun exec_gop :: "gop \<Rightarrow> store \<Rightarrow> store" where
  "exec_gop (Create inst rsn items) s = snd (create_request inst rsn items s)"
| "exec_gop (Approve rid ex ns) s = snd (approve rid ex ns s)"
| "exec_gop (Reject rid) s = snd (reject rid s)"
| "exec_gop (Revoke rid) s = snd (revoke rid s)"
| "exec_gop (Get rid) s = snd (get_row rid s)"
| "exec_gop (List_active inst) s = snd (active_grants inst s)"
| "exec_gop List_all s = snd (all_records s)"
| "exec_gop List_pending s = snd (pending_records s)"
| "exec_gop (Post ev rid) s = snd (record_posted ev rid s)"
| "exec_gop Restart s = reopen s"

lemma reopen_eq:
  "reopen s = restart_discard_pending (s\<lparr>clock := (\<lambda>n. clock s (ticks s + n)), ticks := 0\<rparr>)"
  by (cases s) (simp add: reopen_def open_store_def)

text \<open>Every call reads, posts, adds a pending row, changes one row, or restarts.\<close>

lemma exec_gop_cases:
  assumes "store_inv s"
  obtains (reads) "same_data s (exec_gop op s)"
    | (posts) ev rid where "op = Post ev rid" "ev \<notin> fst ` set (posted s)"
        "exec_gop op s = s\<lparr>posted := posted s @ [(ev, rid)]\<rparr>"
    | (adds) new inst rsn items where "op = Create inst rsn items" "added_row new s (exec_gop op s)"
    | (changes) rid r r' where "changed_row rid r r' s (exec_gop op s)"
        "(op = Reject rid \<or> op = Revoke rid) \<and> r_state r' \<noteq> Active \<or> (\<exists>ex ns. op = Approve rid ex ns)"
    | (restarts) "op = Restart" "exec_gop op s = reopen s"
proof (cases op)
  case (Create inst rsn items)
  then show ?thesis
    using create_request_effect [of inst rsn items s] reads adds
    by (metis exec_gop.simps(1) prod.collapse)
next
  case (Approve rid ex ns)
  have "\<forall>r \<in> set (rows s). r_items r \<noteq> []" "0 < default_duration s"
    using assms by (auto simp: store_inv_def row_ok_def)
  with Approve show ?thesis
    using approve_effect [of rid ex ns s] reads changes
    by (metis exec_gop.simps(2) prod.collapse)
next
  case (Reject rid)
  then show ?thesis
    using reject_effect [of rid s] reads changes by (metis exec_gop.simps(3) prod.collapse)
next
  case (Revoke rid)
  then show ?thesis
    using revoke_effect [of rid s] reads changes by (metis exec_gop.simps(4) prod.collapse)
next
  case (Get rid)
  then show ?thesis using reads same_data_get_row by (metis exec_gop.simps(5) prod.collapse)
next
  case (List_active inst)
  then show ?thesis using reads same_data_active_grants by (metis exec_gop.simps(6) prod.collapse)
next
  case List_all
  then show ?thesis using reads same_data_all_records by (metis exec_gop.simps(7) prod.collapse)
next
  case List_pending
  then show ?thesis using reads same_data_pending_records by (metis exec_gop.simps(8) prod.collapse)
next
  case (Post ev rid)
  then show ?thesis
    using reads posts by (cases "ev \<in> fst ` set (posted s)") (auto simp: record_posted_def)
next
  case Restart
  then show ?thesis using restarts by simp
qed

lemma changed_row_rid: "changed_row rid r r' s t \<Longrightarrow> r_id r = rid \<and> r_id r' = rid"
  by (auto simp: changed_row_def dest: find_row_Some row_change_frame)

subsection \<open>The invariant\<close>

lemma store_inv_added:
  assumes "added_row new s t" "store_inv s"
  shows "store_inv t"
proof -
  let ?u = "s\<lparr>ticks := Suc (ticks s), rows := rows s @ [new], seq := r_id new\<rparr>"
  have "store_inv ?u"
    using assms by (fastforce simp: added_row_def store_inv_def sorted_wrt_append)
  with assms(1) show ?thesis
    unfolding added_row_def using store_inv_same_data by blast
qed

lemma reopen_rows:
  "rows (reopen s) = map (\<lambda>r. if r_state r = Pending
     then r\<lparr>r_state := Rejected, r_state_source := Some Restart_discard\<rparr> else r) (rows s)"
  by (simp add: reopen_eq restart_discard_pending_def)

lemma reopen_fields [simp]:
  "seq (reopen s) = seq s" "posted (reopen s) = posted s"
  "pending_timeout (reopen s) = pending_timeout s" "default_duration (reopen s) = default_duration s"
  "allowed_instances (reopen s) = allowed_instances s"
  "clock (reopen s) = (\<lambda>n. clock s (ticks s + n))" "ticks (reopen s) = 0"
  by (simp_all add: reopen_eq restart_discard_pending_def)

lemma reopen_row_ok: "r \<in> set (rows (reopen s)) \<Longrightarrow> store_inv s \<Longrightarrow> row_ok r \<and> 1 \<le> r_id r \<and> r_id r \<le> seq s"
  by (auto simp: reopen_rows store_inv_def intro: row_change_ok [OF row_change.discard] split: if_splits)

lemma reopen_ids: "map r_id (rows (reopen s)) = map r_id (rows s)"
  by (simp add: reopen_rows)

lemma store_inv_reopen: "store_inv s \<Longrightarrow> store_inv (reopen s)"
  using reopen_row_ok [of _ s] by (simp add: store_inv_def reopen_ids)

lemma store_inv_exec:
  assumes "store_inv s"
  shows "store_inv (exec_gop op s)"
  using assms
proof (cases rule: exec_gop_cases [of s op])
  case reads
  with assms show ?thesis by (simp add: store_inv_same_data)
next
  case (posts ev rid)
  with assms show ?thesis by (simp add: store_inv_def)
next
  case (adds new inst rsn items)
  with assms show ?thesis by (blast intro: store_inv_added)
next
  case (changes rid r r')
  with assms show ?thesis by (blast intro: changed_row_inv)
next
  case restarts
  with assms show ?thesis by (simp add: store_inv_reopen)
qed

end
