(* ===== verification/Grant_Lifecycle.thy ===== *)
theory Grant_Lifecycle
  imports Grants
begin

text \<open>
  What holds of every history of calls to the grant store of \<open>broker/grants.py\<close>: the
  invariant, the order in which rows evolve, the clock that never goes back, and from these
  the promises of the module's documentation: numbers are decided once, approval is the only
  way to a live grant, nothing is renewed, a restart discards what is pending, a revoked or
  expired grant never returns.
\<close>

section \<open>How a store evolves\<close>

text \<open>The readings a later store takes are later readings of the same clock.\<close>

definition later_clock :: "store \<Rightarrow> store \<Rightarrow> bool" where
  "later_clock s t \<longleftrightarrow> (\<exists>m. ticks s \<le> m + ticks t \<and> clock t = (\<lambda>n. clock s (m + n)))"

definition store_evolves :: "store \<Rightarrow> store \<Rightarrow> bool" where
  "store_evolves s t \<longleftrightarrow> seq s \<le> seq t \<and> prefix (posted s) (posted t) \<and> later_clock s t
     \<and> pending_timeout t = pending_timeout s
     \<and> (\<forall>rid r. find_row rid s = Some r \<longrightarrow> (\<exists>r'. find_row rid t = Some r' \<and> row_evolves r r'))"

lemma later_clock_refl [simp]: "later_clock s s"
  unfolding later_clock_def by (rule exI [of _ 0]) simp

lemma later_clock_trans:
  assumes "later_clock s t" "later_clock t u"
  shows "later_clock s u"
proof -
  from assms obtain m k where "ticks s \<le> m + ticks t" "clock t = (\<lambda>n. clock s (m + n))"
      "ticks t \<le> k + ticks u" "clock u = (\<lambda>n. clock t (k + n))"
    by (auto simp: later_clock_def)
  then show ?thesis
    unfolding later_clock_def by (intro exI [of _ "m + k"]) (auto simp: algebra_simps)
qed

lemma later_clockI: "clock t = clock s \<Longrightarrow> ticks s \<le> ticks t \<Longrightarrow> later_clock s t"
  unfolding later_clock_def by (rule exI [of _ 0]) auto

lemma later_clock_mono:
  "later_clock s t \<Longrightarrow> mono (clock s) \<Longrightarrow> mono (clock t) \<and> clock s (ticks s) \<le> clock t (ticks t)"
  by (auto simp: later_clock_def mono_def)

lemma row_evolves_refl [simp]: "row_evolves r r"
  by (simp add: row_evolves_def)

lemma row_evolves_step: "row_change r r' \<Longrightarrow> row_evolves r r'"
  by (simp add: row_evolves_def)

lemma row_evolves_trans: "row_evolves r r' \<Longrightarrow> row_evolves r' r'' \<Longrightarrow> row_evolves r r''"
  by (simp add: row_evolves_def)

lemma store_evolves_refl: "store_evolves s s"
  by (auto simp: store_evolves_def)

lemma store_evolves_trans: "store_evolves s t \<Longrightarrow> store_evolves t u \<Longrightarrow> store_evolves s u"
  unfolding store_evolves_def
  by (elim conjE, intro conjI;
      (meson later_clock_trans row_evolves_trans prefix_order.trans order_trans | simp))

lemma find_row_added:
  assumes "added_row new s t"
  shows "find_row rid t = (case find_row rid s of Some r \<Rightarrow> Some r
     | None \<Rightarrow> if r_id new = rid then Some new else None)"
proof -
  have "find P (xs @ [x]) = (case find P xs of Some y \<Rightarrow> Some y | None \<Rightarrow> if P x then Some x else None)"
    for P xs and x :: row
    by (induction xs) auto
  moreover have "rows t = rows s @ [new]"
    using assms by (auto simp: added_row_def dest: same_data_fields)
  ultimately show ?thesis by (simp add: find_row_def)
qed

lemma find_row_reopen:
  "find_row rid (reopen s) = map_option (\<lambda>r. if r_state r = Pending
     then r\<lparr>r_state := Rejected, r_state_source := Some Restart_discard\<rparr> else r) (find_row rid s)"
proof -
  have "find (\<lambda>r. r_id r = rid) (map (\<lambda>r. if r_state r = Pending
       then r\<lparr>r_state := Rejected, r_state_source := Some Restart_discard\<rparr> else r) rs)
     = map_option (\<lambda>r. if r_state r = Pending
       then r\<lparr>r_state := Rejected, r_state_source := Some Restart_discard\<rparr> else r)
         (find (\<lambda>r. r_id r = rid) rs)" for rs
    by (induction rs) auto
  then show ?thesis by (simp add: find_row_def reopen_rows)
qed

lemma store_evolves_exec:
  assumes "store_inv s"
  shows "store_evolves s (exec_gop op s)"
  using assms
proof (cases rule: exec_gop_cases [of s op])
  case reads
  then show ?thesis
    by (auto simp: store_evolves_def same_data_fields intro: later_clockI)
next
  case (posts ev rid)
  then show ?thesis by (auto simp: store_evolves_def find_row_def intro: later_clockI)
next
  case (adds new inst rsn items)
  then have "same_data (s\<lparr>ticks := Suc (ticks s), rows := rows s @ [new], seq := r_id new\<rparr>) (exec_gop op s)"
    "r_id new = seq s + 1"
    by (auto simp: added_row_def)
  note sd = same_data_fields [OF this(1)] this(2)
  show ?thesis
    unfolding store_evolves_def using sd find_row_added [OF adds(2)]
    by (auto intro: later_clockI)
next
  case (changes rid r r')
  have "row_evolves r r'" "find_row rid s = Some r"
    using changes(1) by (auto simp: changed_row_def intro: row_evolves_step)
  then show ?thesis
    unfolding store_evolves_def
    using changed_row_fields [OF changes(1)] changed_row_find [OF changes(1)]
    by (auto intro: later_clockI)
next
  case restarts
  have "later_clock s (reopen s)"
    unfolding later_clock_def by (rule exI [of _ "ticks s"]) simp
  then show ?thesis
    unfolding store_evolves_def
    using restarts by (auto simp: find_row_reopen intro: row_evolves_step row_change.discard)
qed

interpretation grant_store: evolving_system exec_gop store_inv store_evolves
  by unfold_locales
    (auto intro: store_inv_exec store_evolves_refl store_evolves_exec elim: store_evolves_trans)

section \<open>One call that makes a row active\<close>

lemma row_change_Active:
  "row_change r r' \<Longrightarrow> r_state r' = Active \<Longrightarrow> r_state r = Pending \<and> set (r_items r') \<subseteq> set (r_items r)"
  by (induction rule: row_change.induct) auto

lemma exec_activates:
  assumes inv: "store_inv s" and after: "find_row rid (exec_gop op s) = Some r'" "r_state r' = Active"
    and before: "\<forall>r. find_row rid s = Some r \<longrightarrow> r_state r \<noteq> Active"
  obtains ex ns r where "op = Approve rid ex ns" "find_row rid s = Some r" "r_state r = Pending"
    "row_change r r'"
  using inv
proof (cases rule: exec_gop_cases [of s op])
  case reads
  with after before show ?thesis by simp
next
  case (posts ev rid')
  with after before show ?thesis by (simp add: find_row_def)
next
  case (adds new inst rsn items)
  have "r_state new = Pending" using adds(2) by (simp add: added_row_def)
  with after before find_row_added [OF adds(2)] show ?thesis by (auto split: option.splits if_splits)
next
  case (changes rid0 r0 r0')
  have "rid0 = rid"
    using after before changed_row_find [OF changes(1), of rid] by (auto split: if_splits)
  moreover from this have "r0' = r'"
    using after changed_row_find [OF changes(1), of rid] by simp
  moreover have ch: "row_change r0 r0'" "find_row rid0 s = Some r0"
    using changes(1) by (auto simp: changed_row_def)
  ultimately have p: "r_state r0 = Pending" "row_change r0 r'" "find_row rid s = Some r0"
    using row_change_Active after(2) by blast+
  from changes(2) \<open>rid0 = rid\<close> \<open>r0' = r'\<close> after(2) obtain ex ns where "op = Approve rid ex ns"
    by blast
  with p that show ?thesis by blast
next
  case restarts
  with after before show ?thesis by (auto simp: find_row_reopen split: if_splits)
qed

lemmas grant_history = grant_store.inv_history grant_store.evolves_history

lemma find_row_history:
  assumes "store_inv s" "find_row rid s = Some r"
  obtains r' where "find_row rid (fold exec_gop ops s) = Some r'" "row_evolves r r'"
  using grant_store.evolves_history [OF assms(1), of ops] assms(2)
  by (auto simp: store_evolves_def)

section \<open>Reading the store\<close>

lemma row_ok_Active: "row_ok r \<Longrightarrow> r_state r = Active \<Longrightarrow> \<exists>e. r_expires_at r = Some e"
  by (auto simp: row_ok_def)

lemma find_row_ok: "store_inv s \<Longrightarrow> find_row rid s = Some r \<Longrightarrow> row_ok r"
  by (auto simp: store_inv_def dest: find_row_Some)

text \<open>The effective state of a row at an instant.\<close>

definition state_at :: "int \<Rightarrow> row \<Rightarrow> store \<Rightarrow> gstate" where
  "state_at now r s =
     (case r_state r of
        Pending \<Rightarrow> if now - r_created_at r \<ge> pending_timeout s then Expired else Pending
      | Active \<Rightarrow> if \<exists>e. r_expires_at r = Some e \<and> e \<le> now then Expired else Active
      | st \<Rightarrow> st)"

text \<open>The store with \<open>n\<close> readings of the clock taken.\<close>

definition after_ticks :: "nat \<Rightarrow> store \<Rightarrow> store" where
  "after_ticks n s = s\<lparr>ticks := ticks s + n\<rparr>"

lemma after_ticks_simps [simp]:
  "clock (after_ticks n s) = clock s" "ticks (after_ticks n s) = ticks s + n"
  "rows (after_ticks n s) = rows s" "seq (after_ticks n s) = seq s" "posted (after_ticks n s) = posted s"
  "pending_timeout (after_ticks n s) = pending_timeout s"
  "default_duration (after_ticks n s) = default_duration s" "state_at now r (after_ticks n s) = state_at now r s"
  "same_data s (after_ticks n s)" "find_row rid (after_ticks n s) = find_row rid s"
  by (simp_all add: after_ticks_def state_at_def same_data_def find_row_def)

definition reads_clock :: "row \<Rightarrow> bool" where
  "reads_clock r \<longleftrightarrow> r_state r = Pending \<or> r_state r = Active"

lemma effective_state_ok:
  assumes "row_ok r"
  shows "effective_state r s =
     (Inr (state_at (clock s (ticks s)) r s), after_ticks (if reads_clock r then 1 else 0) s)"
  using row_ok_Active [OF assms]
  by (cases "r_state r")
    (auto simp: effective_state_def read_clock_eq state_at_def after_ticks_def reads_clock_def)

lemma get_row_ok:
  assumes "find_row rid s = Some r" "row_ok r"
  shows "get_row rid s =
     (Inr (record_of r (state_at (clock s (ticks s)) r s)), after_ticks (if reads_clock r then 1 else 0) s)"
  using assms by (simp add: get_row_def effective_state_ok)

text \<open>Reading a list of rows of the store succeeds, with a record for each.\<close>

lemma get_rows_ok:
  assumes "\<forall>r \<in> set rs. find_row (r_id r) s = Some r \<and> row_ok r"
  shows "\<exists>recs n. get_rows rs s = (Inr recs, after_ticks n s) \<and> map gr_id recs = map r_id rs"
  using assms
proof (induction rs arbitrary: s)
  case Nil
  show ?case by (intro exI [of _ "[]"] exI [of _ 0]) (simp add: after_ticks_def)
next
  case (Cons r rs)
  let ?n = "if reads_clock r then 1 else 0"
  have g: "get_row (r_id r) s = (Inr (record_of r (state_at (clock s (ticks s)) r s)), after_ticks ?n s)"
    using Cons.prems by (intro get_row_ok) auto
  obtain recs m where r: "get_rows rs (after_ticks ?n s) = (Inr recs, after_ticks m (after_ticks ?n s))"
    "map gr_id recs = map r_id rs"
    using Cons.IH [of "after_ticks ?n s"] Cons.prems by auto
  have "after_ticks m (after_ticks ?n s) = after_ticks (?n + m) s" by (simp add: after_ticks_def)
  with g r show ?case
    by (intro exI [of _ "record_of r (state_at (clock s (ticks s)) r s) # recs"] exI [of _ "?n + m"])
      (simp add: record_of_def)
qed

lemma rows_found: "store_inv s \<Longrightarrow> r \<in> set (rows s) \<Longrightarrow> find_row (r_id r) s = Some r \<and> row_ok r"
  using find_row_mem by (auto simp: store_inv_def)

lemma all_records_ok:
  assumes "store_inv s"
  obtains recs n where "all_records s = (Inr recs, after_ticks n s)"
    "gr_id ` set recs = r_id ` set (rows s)"
proof -
  have "\<forall>r \<in> set (sort_key r_id (rows s)). find_row (r_id r) s = Some r \<and> row_ok r"
    using rows_found [OF assms] by simp
  from get_rows_ok [OF this] obtain recs n where r: "all_records s = (Inr recs, after_ticks n s)"
    "map gr_id recs = map r_id (sort_key r_id (rows s))"
    by (auto simp: all_records_def)
  from arg_cong [OF r(2), of set] that [OF r(1)] show thesis by simp
qed

lemma pending_records_succeeds: "store_inv s \<Longrightarrow> \<exists>recs t. pending_records s = (Inr recs, t)"
proof -
  assume "store_inv s"
  then have "\<forall>r \<in> set (sort_key r_id (filter (\<lambda>r. r_state r = Pending) (rows s))).
      find_row (r_id r) s = Some r \<and> row_ok r"
    using rows_found by simp
  from get_rows_ok [OF this] show ?thesis by (auto simp: pending_records_def)
qed

section \<open>The grants the layer sees\<close>

definition of_instance :: "pystr option \<Rightarrow> row \<Rightarrow> bool" where
  "of_instance inst r \<longleftrightarrow> inst = None \<or> inst = Some (r_instance r)"

text \<open>Each row asked about takes one reading; a record is returned when that reading is
  before the expiry.\<close>

definition live_records :: "row list \<Rightarrow> store \<Rightarrow> grant_record list" where
  "live_records rs s = map (\<lambda>(r, k). record_of r Active)
     (filter (\<lambda>(r, k). state_at (clock s k) r s = Active) (zip rs [ticks s ..< ticks s + length rs]))"

lemma upt_Suc_shift: "[k ..< k + Suc n] = k # [Suc k ..< Suc k + n]"
  by (simp add: upt_conv_Cons)

lemma live_records_Cons:
  "live_records (r # rs) s = (if state_at (clock s (ticks s)) r s = Active then [record_of r Active] else [])
     @ live_records rs (after_ticks 1 s)"
proof -
  have "zip (r # rs) [ticks s ..< ticks s + length (r # rs)]
      = (r, ticks s) # zip rs [Suc (ticks s) ..< Suc (ticks s) + length rs]"
    by (simp add: upt_Suc_shift [unfolded add_Suc_right] del: upt_Suc)
  then show ?thesis by (simp add: live_records_def del: upt_Suc)
qed

lemma collect_active_ok:
  assumes "\<forall>r \<in> set rs. find_row (r_id r) s = Some r \<and> row_ok r \<and> r_state r = Active"
  shows "collect_active rs inst s =
     (Inr (live_records (filter (of_instance inst) rs) s),
      after_ticks (length (filter (of_instance inst) rs)) s)"
  using assms
proof (induction rs arbitrary: s)
  case Nil
  then show ?case by (simp add: live_records_def after_ticks_def)
next
  case (Cons r rs)
  have sd: "same_data s (after_ticks 1 s)" by (simp add: same_data_def after_ticks_def)
  show ?case
  proof (cases "of_instance inst r")
    case False
    with Cons show ?thesis by (auto simp: of_instance_def)
  next
    case True
    have g: "get_row (r_id r) s =
       (Inr (record_of r (state_at (clock s (ticks s)) r s)), after_ticks 1 s)"
      using Cons.prems by (simp add: get_row_ok reads_clock_def)
    have st: "gr_state (record_of r st) = st" for st by (simp add: record_of_def)
    have IH: "collect_active rs inst (after_ticks 1 s) =
       (Inr (live_records (filter (of_instance inst) rs) (after_ticks 1 s)),
        after_ticks (length (filter (of_instance inst) rs)) (after_ticks 1 s))"
      using Cons.prems by (intro Cons.IH) simp
    have "after_ticks n (after_ticks 1 s) = after_ticks (Suc n) s" for n
      by (simp add: after_ticks_def)
    moreover have "\<not> (inst \<noteq> None \<and> inst \<noteq> Some (r_instance r))"
      using True by (auto simp: of_instance_def)
    ultimately show ?thesis
      using True g IH by (simp only: collect_active.simps if_False) (simp add: live_records_Cons st)
  qed
qed

text \<open>The rows the query of \<open>active_grants\<close> returns.\<close>

definition active_rows :: "store \<Rightarrow> row list" where
  "active_rows s = filter (\<lambda>r. r_state r = Active) (rows s)"

lemma sort_key_rows: "store_inv s \<Longrightarrow> sort_key r_id (filter P (rows s)) = filter P (rows s)"
proof -
  assume "store_inv s"
  then have "sorted (map r_id (rows s))"
    using strict_sorted_iff by (auto simp: store_inv_def)
  then show ?thesis
    using sorted_filter [of r_id "rows s" P] by (simp add: sort_key_id_if_sorted)
qed

lemma active_grants_eq:
  assumes "store_inv s"
  shows "active_grants inst s =
     (Inr (live_records (filter (of_instance inst) (active_rows s)) s),
      after_ticks (length (filter (of_instance inst) (active_rows s))) s)"
proof -
  have "\<forall>r \<in> set (active_rows s). find_row (r_id r) s = Some r \<and> row_ok r \<and> r_state r = Active"
    using assms find_row_mem [OF assms] by (auto simp: active_rows_def store_inv_def)
  then show ?thesis
    using collect_active_ok [of "active_rows s" s inst] sort_key_rows [OF assms]
    by (simp add: active_grants_def active_rows_def)
qed

lemma live_records_mem:
  "rec \<in> set (live_records rs s) \<longleftrightarrow>
     (\<exists>j < length rs. rec = record_of (rs ! j) Active \<and> state_at (clock s (ticks s + j)) (rs ! j) s = Active)"
proof
  assume "rec \<in> set (live_records rs s)"
  then show "\<exists>j < length rs. rec = record_of (rs ! j) Active
      \<and> state_at (clock s (ticks s + j)) (rs ! j) s = Active"
    by (auto simp: live_records_def in_set_zip)
next
  assume "\<exists>j < length rs. rec = record_of (rs ! j) Active
      \<and> state_at (clock s (ticks s + j)) (rs ! j) s = Active"
  then obtain j where j: "j < length rs" "rec = record_of (rs ! j) Active"
      "state_at (clock s (ticks s + j)) (rs ! j) s = Active" by blast
  then have "(rs ! j, ticks s + j) \<in> set (zip rs [ticks s ..< ticks s + length rs])"
    by (auto simp: in_set_zip)
  with j show "rec \<in> set (live_records rs s)"
    unfolding live_records_def by (auto intro!: rev_image_eqI [of "(rs ! j, ticks s + j)"])
qed

lemma state_at_Active:
  "state_at now r s = Active \<longleftrightarrow> r_state r = Active \<and> (\<forall>e. r_expires_at r = Some e \<longrightarrow> now < e)"
  by (cases "r_state r") (auto simp: state_at_def)

lemma record_of_fields [simp]:
  "gr_id (record_of r st) = r_id r" "gr_instance (record_of r st) = r_instance r"
  "gr_items (record_of r st) = r_items r" "gr_expires_at (record_of r st) = r_expires_at r"
  "gr_state (record_of r st) = st" "gr_reason (record_of r st) = r_reason r"
  "gr_created_at (record_of r st) = r_created_at r"
  by (simp_all add: record_of_def)

lemma active_record_row:
  assumes "store_inv s" "active_grants inst s = (Inr out, t)" "rec \<in> set out"
  obtains r k where "find_row (gr_id rec) s = Some r" "r_state r = Active" "rec = record_of r Active"
    "of_instance inst r" "ticks s \<le> k" "k < ticks t" "\<And>e. r_expires_at r = Some e \<Longrightarrow> clock s k < e"
proof -
  let ?rs = "filter (of_instance inst) (active_rows s)"
  have out: "out = live_records ?rs s" and t: "t = after_ticks (length ?rs) s"
    using assms(2) active_grants_eq [OF assms(1), of inst] by auto
  then obtain j where j: "j < length ?rs" "rec = record_of (?rs ! j) Active"
      "state_at (clock s (ticks s + j)) (?rs ! j) s = Active"
    using assms(3) unfolding live_records_mem [of rec ?rs s, folded out] by blast
  have m: "?rs ! j \<in> set ?rs" using j(1) by (rule nth_mem)
  then have "?rs ! j \<in> set (rows s)" "of_instance inst (?rs ! j)" "r_state (?rs ! j) = Active"
    by (auto simp: active_rows_def)
  with find_row_mem [OF assms(1), of "?rs ! j"] j that [of "?rs ! j" "ticks s + j"] t
  show thesis by (auto simp: state_at_Active after_ticks_def)
qed

section \<open>What the users of the store rely on\<close>

text \<open>A source of authorisations, as the WebDAV layer uses the store: asked for the grants of
  an instance it answers without failing, every grant it answers with is live, and asking
  changes neither what is live nor that it can be asked again.\<close>

locale authorization_source =
  fixes ask :: "pystr \<Rightarrow> 's \<Rightarrow> (store_error + grant_record list) \<times> 's"
    and ready :: "'s \<Rightarrow> bool"
    and live :: "'s \<Rightarrow> pystr \<Rightarrow> grant_record \<Rightarrow> bool"
  assumes answers: "ready s \<Longrightarrow> ask inst s = (x, t) \<Longrightarrow> \<exists>recs. x = Inr recs"
    and answers_live: "ready s \<Longrightarrow> ask inst s = (Inr recs, t) \<Longrightarrow> rec \<in> set recs \<Longrightarrow> live s inst rec"
    and still_ready: "ready s \<Longrightarrow> ask inst s = (x, t) \<Longrightarrow> ready t"

text \<open>A live grant: an approved row of the instance, read before its expiry at or after the
  present reading of the clock.\<close>

definition live_grant :: "store \<Rightarrow> pystr \<Rightarrow> grant_record \<Rightarrow> bool" where
  "live_grant s inst rec \<longleftrightarrow>
     (\<exists>r k e. find_row (gr_id rec) s = Some r \<and> r_state r = Active \<and> r_instance r = inst
        \<and> gr_items rec = r_items r \<and> gr_expires_at rec = Some e \<and> r_expires_at r = Some e
        \<and> ticks s \<le> k \<and> clock s k < e)"

lemma active_grants_live:
  assumes "store_inv s" "active_grants (Some inst) s = (Inr recs, t)" "rec \<in> set recs"
  shows "live_grant s inst rec"
proof (rule active_record_row [OF assms])
  fix r k
  assume *: "find_row (gr_id rec) s = Some r" "r_state r = Active" "rec = record_of r Active"
    "of_instance (Some inst) r" "ticks s \<le> k" "k < ticks t" "\<And>e. r_expires_at r = Some e \<Longrightarrow> clock s k < e"
  obtain e where "r_expires_at r = Some e"
    using row_ok_Active [OF find_row_ok [OF assms(1) *(1)] *(2)] by blast
  with * show ?thesis by (auto simp: live_grant_def of_instance_def)
qed

interpretation grant_source: authorization_source "\<lambda>inst. active_grants (Some inst)" store_inv live_grant
proof
  show "store_inv s \<Longrightarrow> active_grants (Some inst) s = (x, t) \<Longrightarrow> \<exists>recs. x = Inr recs" for s inst x t
    using active_grants_eq [of s "Some inst"] by auto
  show "store_inv s \<Longrightarrow> active_grants (Some inst) s = (Inr recs, t) \<Longrightarrow> rec \<in> set recs \<Longrightarrow> live_grant s inst rec"
    for s inst recs t rec by (rule active_grants_live)
  show "store_inv s \<Longrightarrow> active_grants (Some inst) s = (x, t) \<Longrightarrow> store_inv t" for s inst x t
    using same_data_active_grants store_inv_same_data by blast
qed

section \<open>Examples\<close>

text \<open>A clock that shows one second more at each reading, a request and a grant.\<close>

definition example_clock :: "nat \<Rightarrow> int" where
  "example_clock n = int n * MICROSECONDS"

definition example_item :: item where
  "example_item = \<lparr>i_path = lit ''docs'', i_mode = WRITE\<rparr>"

definition example_request :: row where
  "example_request = \<lparr>r_id = 2, r_instance = lit ''home'', r_reason = lit ''tidy up'',
     r_items = [example_item], r_created_at = 0, r_decided_at = None, r_expires_at = None,
     r_state = Pending, r_state_source = None\<rparr>"

definition example_grant :: row where
  "example_grant = \<lparr>r_id = 1, r_instance = lit ''home'', r_reason = lit ''tidy up'',
     r_items = [example_item], r_created_at = 0, r_decided_at = Some 0,
     r_expires_at = Some DEFAULT_GRANT_DURATION, r_state = Active, r_state_source = Some Approval\<rparr>"

definition example_store :: store where
  "example_store = \<lparr>rows = [example_grant, example_request], seq = 2,
     posted = [(lit ''e1'', 1), (lit ''e2'', 2)], pending_timeout = DEFAULT_PENDING_TIMEOUT,
     default_duration = DEFAULT_GRANT_DURATION, allowed_instances = None,
     clock = example_clock, ticks = 1\<rparr>"

lemmas example_defs = example_clock_def example_item_def example_request_def example_grant_def
  example_store_def MICROSECONDS_def DEFAULT_PENDING_TIMEOUT_def DEFAULT_GRANT_DURATION_def

lemma example_store_inv: "store_inv example_store"
proof -
  have "item_ok example_item"
    by (simp add: item_ok_def example_item_def canonical_path_def canonical_component_def lit_def)
  then show ?thesis
    by (simp add: store_inv_def example_defs row_ok_def lit_def)
qed

lemma example_clock_mono: "mono example_clock"
  by (simp add: mono_def example_clock_def MICROSECONDS_def)

lemma example_rows:
  "find_row 1 example_store = Some example_grant" "find_row 2 example_store = Some example_request"
  "r_state example_grant = Active" "r_state example_request = Pending"
  by (simp_all add: find_row_def example_store_def example_grant_def example_request_def)

end
