(* ===== verification/Grant_Properties.thy ===== *)
theory Grant_Properties
  imports Grant_Lifecycle
begin

text \<open>
  The promises of the header of \<open>broker/grants.py\<close>, as theorems on the operations and on
  every history of them.
\<close>

section \<open>Refusals\<close>

lemma assert_pending_refuses:
  assumes "find_row rid s = Some r" "row_ok r" "state_at (clock s (ticks s)) r s \<noteq> Pending"
  obtains st n where "assert_pending rid s = (Inl (Already_decided rid st), after_ticks n s)"
proof -
  have "state_at (clock s (ticks s)) r s \<in> set DECIDED"
    using assms(3) by (cases "state_at (clock s (ticks s)) r s") (auto simp: DECIDED_def)
  moreover have "\<exists>n. after_ticks a (after_ticks b s) = after_ticks n s" for a b
    by (rule exI [of _ "b + a"]) (simp add: after_ticks_def)
  ultimately show thesis
    using that assms(1,2) by (auto simp: assert_pending_def effective_state_ok)
qed

lemma assert_pending_proceeds:
  assumes "find_row rid s = Some r" "row_ok r" "state_at (clock s (ticks s)) r s = Pending"
  shows "assert_pending rid s = (Inr r, after_ticks 1 s)"
  using assms
  by (auto simp: assert_pending_def effective_state_ok DECIDED_def reads_clock_def state_at_def
      split: gstate.splits if_splits)

lemma approve_refuses:
  "assert_pending rid s = (Inl e, t) \<Longrightarrow> approve rid ex ns s = (Inl e, t) \<and> reject rid s = (Inl e, t)"
  by (simp add: approve_def reject_def)

lemma state_at_not_Pending: "r_state r \<noteq> Pending \<Longrightarrow> state_at now r s \<noteq> Pending"
  by (cases "r_state r") (auto simp: state_at_def)

lemma state_at_Pending:
  "state_at now r s = Pending \<longleftrightarrow> r_state r = Pending \<and> now - r_created_at r < pending_timeout s"
  by (cases "r_state r") (auto simp: state_at_def)

lemma find_row_final:
  assumes "store_inv s" "find_row rid s = Some r" "r_state r \<noteq> Pending"
  shows "find_row rid (fold exec_gop ops s) = Some r
    \<or> r_state r = Active \<and> find_row rid (fold exec_gop ops s) =
        Some (r\<lparr>r_state := Revoked, r_state_source := Some Revocation\<rparr>)"
  using find_row_history [OF assms(1,2), of ops] row_evolves_final assms(3) by metis

section \<open>Numbers are decided once\<close>

text \<open>C5: a request number whose state is stored as decided keeps its row in every history,
  except that an active grant can be revoked; so its items and its expiry are never written
  again. Approving or rejecting it later fails and changes no row.\<close>

theorem decided_number_is_final:
  assumes "store_inv s" "find_row rid s = Some r" "r_state r \<noteq> Pending"
  shows "(find_row rid (fold exec_gop ops s) = Some r
      \<or> r_state r = Active \<and> find_row rid (fold exec_gop ops s) =
          Some (r\<lparr>r_state := Revoked, r_state_source := Some Revocation\<rparr>))
    \<and> (\<exists>st n. approve rid ex ns (fold exec_gop ops s) =
          (Inl (Already_decided rid st), after_ticks n (fold exec_gop ops s))
        \<and> reject rid (fold exec_gop ops s) =
          (Inl (Already_decided rid st), after_ticks n (fold exec_gop ops s)))"
proof -
  let ?t = "fold exec_gop ops s"
  have F: "find_row rid ?t = Some r \<or> r_state r = Active \<and> find_row rid ?t =
      Some (r\<lparr>r_state := Revoked, r_state_source := Some Revocation\<rparr>)"
    by (rule find_row_final [OF assms])
  then obtain r' where r': "find_row rid ?t = Some r'" "r_state r' \<noteq> Pending"
    using assms(3) by auto
  have "row_ok r'" using find_row_ok [OF grant_store.inv_history [OF assms(1)] r'(1)] .
  then obtain st n where "assert_pending rid ?t = (Inl (Already_decided rid st), after_ticks n ?t)"
    using assert_pending_refuses [OF r'(1)] state_at_not_Pending [OF r'(2)] by metis
  with F show ?thesis using approve_refuses by blast
qed

text \<open>Witness: the grant of the example, after a revocation.\<close>

theorem decided_number_is_final_witness:
  "\<exists>st n. approve 1 None None (fold exec_gop [Revoke 1] example_store) =
     (Inl (Already_decided 1 st), after_ticks n (fold exec_gop [Revoke 1] example_store))"
  using decided_number_is_final [OF example_store_inv example_rows(1), of "[Revoke 1]" None None]
    example_rows by auto

section \<open>Only an approval makes a grant\<close>

text \<open>C2: every live grant in the store goes back to one call of \<open>approve\<close> on a pending
  request with the same number, instance and reason, and its items are among the requested
  ones; the row is as that call wrote it.\<close>

theorem live_grant_was_approved:
  assumes "store_inv s" "\<forall>r. find_row rid s = Some r \<longrightarrow> r_state r \<noteq> Active"
    and "find_row rid (fold exec_gop ops s) = Some g" "r_state g = Active"
  shows "\<exists>pre ex ns post r. ops = pre @ Approve rid ex ns # post
    \<and> find_row rid (fold exec_gop pre s) = Some r \<and> r_state r = Pending
    \<and> find_row rid (exec_gop (Approve rid ex ns) (fold exec_gop pre s)) = Some g
    \<and> r_instance g = r_instance r \<and> r_reason g = r_reason r \<and> set (r_items g) \<subseteq> set (r_items r)"
  using assms(3,4)
proof (induction ops rule: rev_induct)
  case Nil
  with assms(2) show ?case by simp
next
  case (snoc op ops)
  let ?t = "fold exec_gop ops s"
  have inv: "store_inv ?t" using grant_store.inv_history [OF assms(1)] .
  show ?case
  proof (cases "\<exists>r. find_row rid ?t = Some r \<and> r_state r = Active")
    case True
    then obtain r where r: "find_row rid ?t = Some r" "r_state r = Active" by blast
    have "g = r" using find_row_final [OF inv r(1), of "[op]"] r(2) snoc.prems by auto
    with snoc.IH r obtain pre ex ns post q where "ops = pre @ Approve rid ex ns # post"
      "find_row rid (fold exec_gop pre s) = Some q" "r_state q = Pending"
      "find_row rid (exec_gop (Approve rid ex ns) (fold exec_gop pre s)) = Some g"
      "r_instance g = r_instance q \<and> r_reason g = r_reason q \<and> set (r_items g) \<subseteq> set (r_items q)"
      by blast
    then show ?thesis
      by (intro exI [of _ pre] exI [of _ ex] exI [of _ ns] exI [of _ "post @ [op]"] exI [of _ q]) simp
  next
    case False
    have after: "find_row rid (exec_gop op ?t) = Some g" using snoc.prems by simp
    from exec_activates [OF inv after snoc.prems(2)] False obtain ex ns r where
      "op = Approve rid ex ns" "find_row rid ?t = Some r" "r_state r = Pending" "row_change r g"
      by blast
    then show ?thesis
      using after row_change_frame [of r g]
      by (intro exI [of _ ops] exI [of _ ex] exI [of _ ns] exI [of _ "[]"] exI [of _ r]) simp
  qed
qed

text \<open>Witness: the request of the example, approved for eight hours.\<close>

lemma example_parse: "parse_expiry (Some (lit ''8h'')) = Inr (Some 28800000000)"
proof -
  have "py_str_int 8 @ lit ''h'' = lit ''8h''"
    by (simp add: py_str_int_def nat_digits.simps lit_def)
  then show ?thesis
    using parse_expiry_print [of 8 "lit ''h''" 3600] by (simp add: UNIT_SECONDS_def MICROSECONDS_def)
qed

definition example_approved :: row where
  "example_approved = example_request\<lparr>r_state := Active, r_decided_at := Some 2000000,
     r_expires_at := Some 28802000000, r_state_source := Some Approval\<rparr>"

lemma example_approve:
  "find_row 2 (exec_gop (Approve 2 (Some (lit ''8h'')) None) example_store) = Some example_approved"
  by (simp add: approve_def assert_pending_def effective_state_def read_clock_eq DECIDED_def
      example_parse activate_def get_row_def find_row_def update_row_def example_defs
      example_approved_def)

theorem live_grant_was_approved_witness:
  "\<exists>pre ex ns post. [Approve 2 (Some (lit ''8h'')) None, Get 2] = pre @ Approve 2 ex ns # post"
proof -
  have "find_row 2 (fold exec_gop [Approve 2 (Some (lit ''8h'')) None, Get 2] example_store) = Some example_approved"
    using example_approve same_data_get_row by (metis find_row_same_data fold_simps exec_gop.simps(5) prod.collapse)
  moreover have "r_state example_approved = Active" by (simp add: example_approved_def)
  ultimately show ?thesis
    using live_grant_was_approved [OF example_store_inv, of 2 "[Approve 2 (Some (lit ''8h'')) None, Get 2]"]
      example_rows by fastforce
qed

section \<open>What an approval writes\<close>

text \<open>The row an approval leaves: granted, or refused when no item was chosen.\<close>

definition approved_row :: "row \<Rightarrow> item list \<Rightarrow> int \<Rightarrow> int \<Rightarrow> row" where
  "approved_row r its decided d =
     (if its = [] then r\<lparr>r_state := Rejected, r_decided_at := Some decided,
        r_state_source := Some Partial_empty\<rparr>
      else r\<lparr>r_items := its, r_state := Active, r_decided_at := Some decided,
        r_expires_at := Some (decided + d), r_state_source := Some Approval\<rparr>)"

lemma row_change_approved:
  assumes "r_state r = Pending" "set its \<subseteq> set (r_items r)" "0 < d"
  shows "row_change r (approved_row r its t d)"
  using assms row_change.refuse [of r Partial_empty t] row_change.grant [of r its d t]
  by (simp add: approved_row_def)

lemma updated_record:
  assumes "find_row rid s = Some r" "row_ok (f r)" "\<And>x. r_id (f x) = r_id x"
    and "get_row rid (update_row rid f s) = (x, t)"
  shows "x = Inr (record_of (f r) (state_at (clock s (ticks s)) (f r) s))"
    "find_row rid' t = (if rid' = rid then Some (f r) else find_row rid' s)"
proof -
  have f: "find_row rid' (update_row rid f s) = (if rid' = rid then Some (f r) else find_row rid' s)" for rid'
    using assms(1) find_row_update [OF assms(3), of rid' rid s] by simp
  have "get_row rid (update_row rid f s) =
      (Inr (record_of (f r) (state_at (clock s (ticks s)) (f r) (update_row rid f s))),
       after_ticks (if reads_clock (f r) then 1 else 0) (update_row rid f s))"
    using get_row_ok [of rid "update_row rid f s" "f r"] f [of rid] assms(2) by simp
  with assms(4) f show "x = Inr (record_of (f r) (state_at (clock s (ticks s)) (f r) s))"
    "find_row rid' t = (if rid' = rid then Some (f r) else find_row rid' s)"
    by (auto simp: state_at_def)
qed

lemma approve_runs:
  assumes "store_inv s" "find_row rid s = Some r" "state_at (clock s (ticks s)) r s = Pending"
    and "parse_expiry ex = Inr p" "approved_items (r_items r) ns = Inr its"
    and "g = approved_row r its (clock s (ticks s + 1)) (grant_duration s p)"
    and "approve rid ex ns s = (x, t)"
  shows "x = Inr (record_of g (state_at (clock s (ticks s + 2)) g s))"
    "find_row rid' t = (if rid' = rid then Some g else find_row rid' s)"
proof -
  let ?s1 = "after_ticks 1 s" and ?s2 = "after_ticks 2 s"
  let ?d = "grant_duration s p" and ?now = "clock s (ticks s + 1)"
  have ok: "row_ok r" using find_row_ok [OF assms(1,2)] .
  have ap: "assert_pending rid s = (Inr r, ?s1)"
    using assert_pending_proceeds [OF assms(2) ok assms(3)] .
  have pend: "r_state r = Pending" using assms(3) by (simp add: state_at_Pending)
  have ne: "r_items r \<noteq> []" using ok by (simp add: row_ok_def)
  have pos: "0 < ?d"
    using parse_expiry_positive [of ex] assms(1,4)
    by (auto simp: grant_duration_def store_inv_def split: option.split)
  have sub: "set its \<subseteq> set (r_items r)"
    using assms(5) choose_items_subset by (auto simp: approved_items_def split: option.splits)
  have gok: "row_ok g"
    unfolding assms(6) by (rule row_change_ok [OF row_change_approved [OF pend sub pos] ok])
  have tick: "read_clock ?s1 = (?now, ?s2)"
    by (simp add: read_clock_def after_ticks_def)
  define f :: "row \<Rightarrow> row" where "f = (if its = []
      then (\<lambda>r. r\<lparr>r_state := Rejected, r_decided_at := Some ?now, r_state_source := Some Partial_empty\<rparr>)
      else (\<lambda>r. r\<lparr>r_items := its, r_state := Active, r_decided_at := Some ?now,
                  r_expires_at := Some (?now + ?d), r_state_source := Some Approval\<rparr>))"
  have fr: "f r = g" "\<And>x. r_id (f x) = r_id x"
    by (simp_all add: f_def assms(6) approved_row_def)
  have "approve rid ex ns s = (if its = [] then reject_partial_empty rid ?s1 else activate rid its ?d ?s1)"
    using ap assms(4,5) ne
    by (auto simp: approve_def grant_duration_def approved_items_def Let_def split: option.splits)
  also have "\<dots> = get_row rid (update_row rid f ?s2)"
    by (simp add: f_def reject_partial_empty_def activate_def tick [simplified])
  finally have "get_row rid (update_row rid f ?s2) = (x, t)"
    using assms(7) by simp
  note upd = updated_record [of rid ?s2 r f, OF _ _ fr(2) this, unfolded fr(1)]
  show "x = Inr (record_of g (state_at (clock s (ticks s + 2)) g s))"
    using upd(1) assms(2) gok by simp
  show "find_row rid' t = (if rid' = rid then Some g else find_row rid' s)"
    using upd(2) assms(2) gok by simp
qed

lemma approve_stops:
  assumes "store_inv s"
    and "\<not> (\<exists>r p its. find_row rid s = Some r \<and> state_at (clock s (ticks s)) r s = Pending
           \<and> parse_expiry ex = Inr p \<and> approved_items (r_items r) ns = Inr its)"
    and "approve rid ex ns s = (x, t)"
  shows "(\<exists>e. x = Inl e) \<and> same_data s t"
proof (cases "assert_pending rid s")
  case (Pair y s1)
  show ?thesis
  proof (cases y)
    case (Inl e)
    with Pair assms(3) show ?thesis
      using approve_refuses same_data_assert_pending by auto
  next
    case (Inr r)
    note ap = assert_pending_Inr [OF Pair [unfolded Inr]]
    have "state_at (clock s (ticks s)) r s = Pending" using ap by (simp add: state_at_Pending)
    then have "\<not> (\<exists>p its. parse_expiry ex = Inr p \<and> approved_items (r_items r) ns = Inr its)"
      using assms(2) ap(1) by blast
    then show ?thesis
      using Pair Inr ap(4) assms(3)
      by (cases "parse_expiry ex"; cases ns; cases "approved_items (r_items r) ns")
        (auto simp: approve_def approved_items_def Let_def)
  qed
qed

text \<open>C6: \<open>approve\<close> succeeds exactly on a request that is pending at the first reading of the
  clock, with an expiry string that parses and item numbers in range; then the row gets the
  chosen items and the expiry one duration after the second reading (or is rejected when the
  choice is empty), no other row changes, and the record returned is that row. In every other
  case it raises and changes no row.\<close>

theorem approve_spec:
  assumes "store_inv s" "approve rid ex ns s = (x, t)"
  shows "(\<exists>r p its g. find_row rid s = Some r \<and> state_at (clock s (ticks s)) r s = Pending
        \<and> parse_expiry ex = Inr p \<and> approved_items (r_items r) ns = Inr its
        \<and> g = approved_row r its (clock s (ticks s + 1)) (grant_duration s p)
        \<and> x = Inr (record_of g (state_at (clock s (ticks s + 2)) g s))
        \<and> (\<forall>rid'. find_row rid' t = (if rid' = rid then Some g else find_row rid' s)))
    \<or> (\<not> (\<exists>r p its. find_row rid s = Some r \<and> state_at (clock s (ticks s)) r s = Pending
          \<and> parse_expiry ex = Inr p \<and> approved_items (r_items r) ns = Inr its)
        \<and> (\<exists>e. x = Inl e) \<and> rows t = rows s)"
proof (cases "\<exists>r p its. find_row rid s = Some r \<and> state_at (clock s (ticks s)) r s = Pending
    \<and> parse_expiry ex = Inr p \<and> approved_items (r_items r) ns = Inr its")
  case True
  then obtain r p its where r: "find_row rid s = Some r" "state_at (clock s (ticks s)) r s = Pending"
    "parse_expiry ex = Inr p" "approved_items (r_items r) ns = Inr its" by blast
  note runs = approve_runs [OF assms(1) r refl assms(2)]
  from r runs show ?thesis by blast
next
  case False
  with approve_stops [OF assms(1) False assms(2)] show ?thesis
    by (auto simp: same_data_fields)
qed

text \<open>Witness: the first item of the request of the example, for eight hours.\<close>

theorem approve_spec_witness:
  "\<exists>t g. approve 2 (Some (lit ''8h'')) (Some [1]) example_store = (Inr (record_of g Active), t)
     \<and> find_row 2 t = Some g \<and> r_expires_at g = Some 28802000000 \<and> find_row 1 t = Some example_grant"
proof -
  obtain x t where a: "approve 2 (Some (lit ''8h'')) (Some [1]) example_store = (x, t)" by fastforce
  have pend: "state_at (clock example_store (ticks example_store)) example_request example_store = Pending"
    by (simp add: state_at_def example_defs)
  have its: "approved_items (r_items example_request) (Some [1]) = Inr [example_item]"
    by (simp add: approved_items_def example_request_def)
  show ?thesis
    using approve_spec [OF example_store_inv a] example_rows pend its example_parse a
    by (fastforce simp: approved_row_def grant_duration_def state_at_def example_store_def
        example_clock_def MICROSECONDS_def)
qed

section \<open>The active grants\<close>

lemma live_records_ids:
  "set (map gr_id (live_records rs s)) \<subseteq> set (map r_id rs)
   \<and> (sorted_wrt (<) (map r_id rs) \<longrightarrow> sorted_wrt (<) (map gr_id (live_records rs s)))"
proof (induction rs arbitrary: s)
  case Nil
  then show ?case by (simp add: live_records_def)
next
  case (Cons r rs)
  from Cons.IH [of "after_ticks 1 s"] show ?case by (auto simp: live_records_Cons)
qed

text \<open>C7: \<open>active_grants\<close> never fails and writes nothing. What it returns are rows stored as
  active, of the instance asked for, each before its expiry at a reading taken during the
  call, in the order of their numbers; and with a clock that does not go back, every active
  row of the instance that is still alive after the call is returned.\<close>

theorem active_grants_exact:
  assumes "store_inv s"
  shows "\<exists>out t. active_grants inst s = (Inr out, t) \<and> rows t = rows s
    \<and> sorted_wrt (<) (map gr_id out)
    \<and> (\<forall>rec \<in> set out. \<exists>r k e. find_row (gr_id rec) s = Some r \<and> r_state r = Active
         \<and> rec = record_of r Active \<and> of_instance inst r
         \<and> ticks s \<le> k \<and> k < ticks t \<and> r_expires_at r = Some e \<and> clock s k < e)
    \<and> (mono (clock s) \<longrightarrow>
         (\<forall>r e. r \<in> set (rows s) \<longrightarrow> r_state r = Active \<longrightarrow> of_instance inst r
            \<longrightarrow> r_expires_at r = Some e \<longrightarrow> clock s (ticks t) < e \<longrightarrow> record_of r Active \<in> set out))"
proof -
  let ?rs = "filter (of_instance inst) (active_rows s)"
  let ?out = "live_records ?rs s" and ?t = "after_ticks (length ?rs) s"
  have ag: "active_grants inst s = (Inr ?out, ?t)" by (rule active_grants_eq [OF assms])
  have sound: "\<exists>r k e. find_row (gr_id rec) s = Some r \<and> r_state r = Active
         \<and> rec = record_of r Active \<and> of_instance inst r
         \<and> ticks s \<le> k \<and> k < ticks ?t \<and> r_expires_at r = Some e \<and> clock s k < e"
    if rec: "rec \<in> set ?out" for rec
  proof (rule active_record_row [OF assms ag rec])
    fix r k
    assume *: "find_row (gr_id rec) s = Some r" "r_state r = Active" "rec = record_of r Active"
      "of_instance inst r" "ticks s \<le> k" "k < ticks ?t" "\<And>e. r_expires_at r = Some e \<Longrightarrow> clock s k < e"
    obtain e where "r_expires_at r = Some e"
      using row_ok_Active [OF find_row_ok [OF assms *(1)] *(2)] by blast
    with * show ?thesis by blast
  qed
  have complete: "record_of r Active \<in> set ?out"
    if mono: "mono (clock s)" and r: "r \<in> set (rows s)" "r_state r = Active" "of_instance inst r"
      "r_expires_at r = Some e" "clock s (ticks ?t) < e" for r e
  proof -
    from r have "r \<in> set ?rs" by (simp add: active_rows_def)
    then obtain j where j: "j < length ?rs" "?rs ! j = r" by (metis in_set_conv_nth)
    then have "clock s (ticks s + j) \<le> clock s (ticks ?t)" using mono by (simp add: mono_def)
    with j r have "state_at (clock s (ticks s + j)) (?rs ! j) s = Active" by (simp add: state_at_Active)
    with j show ?thesis unfolding live_records_mem by blast
  qed
  have "sorted_wrt (<) (map r_id (rows s))" using assms by (simp add: store_inv_def)
  then have "sorted_wrt (<) (map r_id ?rs)"
    by (simp add: active_rows_def sorted_wrt_map sorted_wrt_filter)
  then have "sorted_wrt (<) (map gr_id ?out)" using live_records_ids by blast
  with ag sound complete show ?thesis by (intro exI [of _ ?out] exI [of _ ?t]) auto
qed

text \<open>Witness: the example has one live grant.\<close>

theorem active_grants_exact_witness:
  "\<exists>out t. active_grants (Some (lit ''home'')) example_store = (Inr out, t)
     \<and> (mono (clock example_store) \<longrightarrow> clock example_store (ticks t) < DEFAULT_GRANT_DURATION
          \<longrightarrow> record_of example_grant Active \<in> set out)"
  using active_grants_exact [OF example_store_inv, of "Some (lit ''home'')"]
  by (fastforce simp: example_store_def example_grant_def of_instance_def)

lemma not_listed:
  assumes "store_inv s" "active_grants inst s = (Inr out, t)"
    and "\<And>r. find_row rid s = Some r \<Longrightarrow> r_state r \<noteq> Active"
  shows "rid \<notin> gr_id ` set out"
proof
  assume "rid \<in> gr_id ` set out"
  then obtain rec where rec: "rec \<in> set out" "gr_id rec = rid" by blast
  from active_record_row [OF assms(1,2) rec(1)] rec(2) assms(3) show False by metis
qed

section \<open>Revocation\<close>

definition revoked_row :: "row \<Rightarrow> int \<Rightarrow> row" where
  "revoked_row r now =
     (if r_state r = Pending
      then r\<lparr>r_state := Rejected, r_decided_at := Some now, r_state_source := Some Pending_revoke\<rparr>
      else r\<lparr>r_state := Revoked, r_state_source := Some Revocation\<rparr>)"

lemma revoke_runs:
  assumes "store_inv s" "find_row rid s = Some r" "state_at (clock s (ticks s)) r s \<in> {Pending, Active}"
    and "revoke rid s = (x, t)" "g = revoked_row r (clock s (ticks s + 1))"
  shows "x = Inr (record_of g (r_state g))" "find_row rid' t = (if rid' = rid then Some g else find_row rid' s)"
proof -
  have ok: "row_ok r" using find_row_ok [OF assms(1,2)] .
  have st: "r_state r = state_at (clock s (ticks s)) r s"
    using assms(3) by (auto simp: state_at_def split: gstate.splits if_splits)
  define f :: "row \<Rightarrow> row" where "f = (if r_state r = Pending
      then (\<lambda>r. r\<lparr>r_state := Rejected, r_decided_at := Some (clock s (ticks s + 1)),
                 r_state_source := Some Pending_revoke\<rparr>)
      else (\<lambda>r. r\<lparr>r_state := Revoked, r_state_source := Some Revocation\<rparr>))"
  let ?u = "after_ticks (if r_state r = Pending then 2 else 1) s"
  have fr: "f r = g" "\<And>x. r_id (f x) = r_id x"
    by (simp_all add: f_def assms(5) revoked_row_def)
  have gok: "row_ok g" and dead: "r_state g = Rejected \<or> r_state g = Revoked"
    using ok assms(3) st by (auto simp: assms(5) revoked_row_def row_ok_def)
  have live: "r_state r = Pending \<or> r_state r = Active" using assms(3) st by simp
  have eff: "effective_state r s = (Inr (r_state r), after_ticks 1 s)"
    using effective_state_ok [OF ok, of s] live st by (simp add: reads_clock_def)
  have tick: "read_clock (after_ticks 1 s) = (clock s (ticks s + 1), after_ticks 2 s)"
    by (simp add: read_clock_def) (simp add: after_ticks_def)
  have "revoke rid s = get_row rid (update_row rid f ?u)"
  proof (cases "r_state r = Pending")
    case True
    then show ?thesis by (simp add: revoke_def assms(2) eff tick [simplified] f_def)
  next
    case False
    with live have "r_state r = Active" by blast
    then show ?thesis by (simp add: revoke_def assms(2) eff f_def)
  qed
  with assms(4) have "get_row rid (update_row rid f ?u) = (x, t)" by simp
  note upd = updated_record [of rid ?u r f, OF _ _ fr(2) this, unfolded fr(1)]
  show "x = Inr (record_of g (r_state g))"
    using upd(1) assms(2) gok dead by (auto simp: state_at_def)
  show "find_row rid' t = (if rid' = rid then Some g else find_row rid' s)"
    using upd(2) assms(2) gok by simp
qed

text \<open>C8: a request that is pending or a grant that is alive can always be revoked; the
  call touches no other row, and from then on, whatever is called, the number is never again
  among the active grants.\<close>

theorem revoke_is_immediate_and_final:
  assumes "store_inv s" "find_row rid s = Some r" "state_at (clock s (ticks s)) r s \<in> {Pending, Active}"
  shows "\<exists>rec t. revoke rid s = (Inr rec, t) \<and> gr_state rec \<in> {Rejected, Revoked}
    \<and> (\<forall>rid'. rid' \<noteq> rid \<longrightarrow> find_row rid' t = find_row rid' s)
    \<and> (\<forall>ops inst out u. active_grants inst (fold exec_gop ops t) = (Inr out, u) \<longrightarrow> rid \<notin> gr_id ` set out)"
proof -
  obtain x t where rv: "revoke rid s = (x, t)" by fastforce
  let ?g = "revoked_row r (clock s (ticks s + 1))"
  note runs = revoke_runs [OF assms rv refl]
  have dead: "r_state ?g \<in> {Rejected, Revoked}" by (simp add: revoked_row_def)
  have inv: "store_inv t" using store_inv_exec [OF assms(1), of "Revoke rid"] rv by simp
  have "rid \<notin> gr_id ` set out"
    if "active_grants inst (fold exec_gop ops t) = (Inr out, u)" for ops inst out u
  proof (rule not_listed [OF grant_store.inv_history [OF inv] that])
    fix q
    assume "find_row rid (fold exec_gop ops t) = Some q"
    moreover have "find_row rid t = Some ?g" using runs(2) by simp
    ultimately show "r_state q \<noteq> Active"
      using find_row_final [OF inv, of rid ?g ops] dead by auto
  qed
  moreover have "\<forall>rid'. rid' \<noteq> rid \<longrightarrow> find_row rid' t = find_row rid' s"
    using runs(2) by simp
  moreover have "gr_state (record_of ?g (r_state ?g)) \<in> {Rejected, Revoked}"
    using dead by simp
  ultimately show ?thesis using rv runs(1) by blast
qed

text \<open>Witness: the live grant of the example.\<close>

theorem revoke_is_immediate_and_final_witness:
  "\<exists>rec t. revoke 1 example_store = (Inr rec, t) \<and> gr_state rec \<in> {Rejected, Revoked}"
proof -
  have "state_at (clock example_store (ticks example_store)) example_grant example_store \<in> {Pending, Active}"
    by (simp add: state_at_def example_defs)
  from revoke_is_immediate_and_final [OF example_store_inv example_rows(1) this] show ?thesis by blast
qed

section \<open>Restart\<close>

text \<open>Reopening the store discards every pending request for good, in every later
  history, and keeps every other row, the active grants with their expiry among them.\<close>

lemma restart_discards_pending:
  assumes "store_inv s" "find_row rid s = Some r"
  shows "if r_state r = Pending
    then find_row rid (fold exec_gop (Restart # ops) s) =
           Some (r\<lparr>r_state := Rejected, r_state_source := Some Restart_discard\<rparr>)
    else find_row rid (exec_gop Restart s) = Some r"
proof (cases "r_state r = Pending")
  case True
  let ?r = "r\<lparr>r_state := Rejected, r_state_source := Some Restart_discard\<rparr>"
  have "find_row rid (exec_gop Restart s) = Some ?r"
    using True assms(2) by (simp add: find_row_reopen)
  from find_row_final [OF store_inv_exec [OF assms(1)] this] True show ?thesis by simp
next
  case False
  with assms(2) show ?thesis by (simp add: find_row_reopen)
qed

text \<open>Witness: the pending request of the example cannot be approved after a restart.\<close>

section \<open>What is timed out stays timed out\<close>

lemma find_row_after:
  assumes "store_inv s" "find_row rid s = Some r"
  shows "\<exists>q. find_row rid (fold exec_gop ops s) = Some q \<and> row_evolves r q
     \<and> later_clock s (fold exec_gop ops s) \<and> pending_timeout (fold exec_gop ops s) = pending_timeout s"
  using grant_store.evolves_history [OF assms(1), of ops] assms(2)
  by (auto simp: store_evolves_def)

lemma timed_out_never_active:
  assumes "store_inv s" "mono (clock s)" "find_row rid s = Some r" "r_state r = Pending"
    "state_at (clock s (ticks s)) r s = Expired"
  shows "find_row rid (fold exec_gop ops s) = Some q \<Longrightarrow> r_state q \<noteq> Active"
proof (induction ops arbitrary: q rule: rev_induct)
  case Nil
  with assms(3,4) show ?case by simp
next
  case (snoc op ops)
  let ?t = "fold exec_gop ops s"
  have inv: "store_inv ?t" using grant_store.inv_history [OF assms(1)] .
  have after: "find_row rid (exec_gop op ?t) = Some q" using snoc.prems by simp
  show ?case
  proof
    assume act: "r_state q = Active"
    from exec_activates [OF inv after act] snoc.IH obtain ex ns p where
      op: "op = Approve rid ex ns" and p: "find_row rid ?t = Some p" "r_state p = Pending"
      by blast
    obtain p' where p': "find_row rid ?t = Some p'" "row_evolves r p'" "later_clock s ?t"
      "pending_timeout ?t = pending_timeout s"
      using find_row_after [OF assms(1,3)] by blast
    then have "r_created_at p = r_created_at r" using p(1) row_evolves_frame by fastforce
    moreover have "clock s (ticks s) \<le> clock ?t (ticks ?t)"
      using later_clock_mono p'(3) assms(2) by blast
    ultimately have late: "state_at (clock ?t (ticks ?t)) p ?t \<noteq> Pending"
      using assms(4,5) p'(4) p(2) by (simp add: state_at_def split: if_splits)
    obtain st n where "assert_pending rid ?t = (Inl (Already_decided rid st), after_ticks n ?t)"
      using assert_pending_refuses [OF p(1) find_row_ok [OF inv p(1)] late] by blast
    then have "find_row rid (exec_gop op ?t) = find_row rid ?t"
      using op approve_refuses [of rid ?t] by simp
    with after act p show False by simp
  qed
qed

text \<open>With a clock that does not go back, a request past its timeout and a grant past its
  expiry are dead: in every later history approving or rejecting the number fails, and it is
  never among the active grants. So nothing renews a grant, and silence is a refusal.\<close>

lemma timed_out_is_final:
  assumes "store_inv s" "mono (clock s)" "find_row rid s = Some r"
    and "state_at (clock s (ticks s)) r s = Expired"
    and "t = fold exec_gop ops s"
  shows "(\<exists>e u. approve rid ex ns t = (Inl e, u) \<and> rows u = rows t)
    \<and> (\<exists>e u. reject rid t = (Inl e, u) \<and> rows u = rows t)
    \<and> (\<forall>inst out u. active_grants inst t = (Inr out, u) \<longrightarrow> rid \<notin> gr_id ` set out)"
proof -
  have inv: "store_inv t" using grant_store.inv_history [OF assms(1)] assms(5) by simp
  obtain q where q: "find_row rid t = Some q" "row_evolves r q" "later_clock s t"
    "pending_timeout t = pending_timeout s"
    using find_row_after [OF assms(1,3), of ops] assms(5) by blast
  have ok: "row_ok q" using find_row_ok [OF inv q(1)] .
  have rok: "row_ok r" using find_row_ok [OF assms(1,3)] .
  have clk: "clock s (ticks s) \<le> clock t (ticks t)" and mono: "mono (clock t)"
    using later_clock_mono [OF q(3) assms(2)] by blast+
  have frame: "r_created_at q = r_created_at r" using row_evolves_frame [OF q(2)] by simp
  have rst: "r_state r = Pending \<or> r_state r = Active"
    using assms(4) rok by (cases "r_state r") (auto simp: state_at_def row_ok_def)
  have late: "state_at (clock t (ticks t)) q t \<noteq> Pending"
  proof (cases "r_state q = Pending")
    case True
    then have "r_state r = Pending" using rst row_evolves_final [OF q(2)] by auto
    then show ?thesis
      using True assms(4) frame clk q(4) by (simp add: state_at_def split: if_splits)
  qed (rule state_at_not_Pending)
  obtain st n where "assert_pending rid t = (Inl (Already_decided rid st), after_ticks n t)"
    using assert_pending_refuses [OF q(1) ok late] by blast
  note ref = approve_refuses [OF this, of ex ns]
  have dead: "rid \<notin> gr_id ` set out" if ag: "active_grants inst t = (Inr out, u)" for inst out u
  proof
    assume "rid \<in> gr_id ` set out"
    then obtain rec where rec: "rec \<in> set out" "gr_id rec = rid" by blast
    from active_record_row [OF inv ag rec(1)] q(1) rec(2) obtain k where
      live: "r_state q = Active" "ticks t \<le> k" "\<And>e. r_expires_at q = Some e \<Longrightarrow> clock t k < e"
      by (metis option.inject)
    show False
    proof (cases "r_state r = Pending")
      case True
      with timed_out_never_active [OF assms(1-3) True assms(4)] q(1) assms(5) live(1) show False by blast
    next
      case False
      with rst have act: "r_state r = Active" by blast
      then have "q = r" using row_evolves_final [OF q(2)] live(1) by auto
      with live act assms(4) obtain e where "r_expires_at r = Some e" "e \<le> clock s (ticks s)" "clock t k < e"
        by (auto simp: state_at_def split: if_splits)
      with clk monoD [OF mono live(2)] show False by simp
    qed
  qed
  from ref dead show ?thesis by auto
qed

text \<open>Witness: the grant of the example, two days later.\<close>

definition example_late :: store where
  "example_late = example_store\<lparr>ticks := 200000\<rparr>"

section \<open>Requests\<close>

definition valid_item :: "(pystr \<times> pyval) list \<Rightarrow> bool" where
  "valid_item it \<longleftrightarrow> dict_get it (lit ''mode'') \<in> {PStr READ, PStr WRITE}
     \<and> normalize_path (dict_get it (lit ''path'')) \<noteq> None"

definition cleaned :: "(pystr \<times> pyval) list \<Rightarrow> item" where
  "cleaned it = \<lparr>i_path = the (normalize_path (dict_get it (lit ''path''))),
     i_mode = (if dict_get it (lit ''mode'') = PStr READ then READ else WRITE)\<rparr>"

lemma clean_items_valid:
  assumes "valid_item it"
  shows "clean_items (it # its) = map_sum id ((#) (cleaned it)) (clean_items its)"
proof -
  obtain n where n: "normalize_path (dict_get it (lit ''path'')) = Some n"
    using assms by (auto simp: valid_item_def)
  have "\<not> (dict_get it (lit ''mode'') \<noteq> PStr READ \<and> dict_get it (lit ''mode'') \<noteq> PStr WRITE)"
    using assms by (auto simp: valid_item_def)
  with n show ?thesis
    by (auto simp: Let_def cleaned_def split: sum.split)
qed

lemma clean_items_invalid:
  assumes "\<not> valid_item it"
  shows "\<exists>e. clean_items (it # its) = Inl e"
  using assms by (cases "normalize_path (dict_get it (lit ''path''))") (auto simp: valid_item_def Let_def)

lemma clean_items_iff:
  "clean_items its = Inr cs \<longleftrightarrow> (\<forall>it \<in> set its. valid_item it) \<and> cs = map cleaned its"
proof (induction its arbitrary: cs)
  case Nil
  then show ?case by auto
next
  case (Cons it its)
  show ?case
  proof (cases "valid_item it")
    case True
    show ?thesis
      using Cons.IH [of "map cleaned its"] Cons.IH
      by (cases "clean_items its") (auto simp: clean_items_valid [OF True] True simp del: clean_items.simps)
  next
    case False
    with clean_items_invalid [OF False, of its] show ?thesis by (auto simp del: clean_items.simps)
  qed
qed

text \<open>When a request is accepted, and the row it becomes.\<close>

definition request_accepted :: "pystr \<Rightarrow> pyval \<Rightarrow> (pystr \<times> pyval) list list \<Rightarrow> store \<Rightarrow> bool" where
  "request_accepted inst rsn items s \<longleftrightarrow> (\<exists>str. rsn = PStr str \<and> py_strip str \<noteq> []) \<and> items \<noteq> []
     \<and> (\<forall>al. allowed_instances s = Some al \<longrightarrow> inst \<in> set al) \<and> (\<forall>it \<in> set items. valid_item it)"

definition requested_row :: "pystr \<Rightarrow> pyval \<Rightarrow> (pystr \<times> pyval) list list \<Rightarrow> store \<Rightarrow> row" where
  "requested_row inst rsn items s = \<lparr>r_id = seq s + 1, r_instance = inst,
     r_reason = (case rsn of PStr str \<Rightarrow> py_strip str | _ \<Rightarrow> []), r_items = map cleaned items,
     r_created_at = clock s (ticks s), r_decided_at = None, r_expires_at = None,
     r_state = Pending, r_state_source = None\<rparr>"

lemma create_request_rejects:
  assumes "\<not> request_accepted inst rsn items s"
  shows "\<exists>e. create_request inst rsn items s = (Inl e, s)"
proof (cases rsn)
  case (PStr str)
  show ?thesis
  proof (cases "clean_items items")
    case (Inl e)
    with PStr show ?thesis by (simp add: create_request_def)
  next
    case (Inr cs)
    then have "\<forall>it \<in> set items. valid_item it" by (simp add: clean_items_iff)
    then have "py_strip str = [] \<or> items = []
        \<or> (case allowed_instances s of None \<Rightarrow> False | Some al \<Rightarrow> inst \<notin> set al)"
      using PStr assms by (cases "allowed_instances s") (auto simp: request_accepted_def)
    then show ?thesis
      by (elim disjE) (simp_all add: create_request_def PStr)
  qed
qed (simp_all add: create_request_def)

lemma create_request_accepts:
  assumes "request_accepted inst rsn items s"
  shows "create_request inst rsn items s =
    get_row (seq s + 1) ((after_ticks 1 s)\<lparr>rows := rows s @ [requested_row inst rsn items s], seq := seq s + 1\<rparr>)"
proof -
  obtain str where str: "rsn = PStr str" "py_strip str \<noteq> []"
    using assms by (auto simp: request_accepted_def)
  have cs: "clean_items items = Inr (map cleaned items)"
    using assms by (simp add: clean_items_iff request_accepted_def)
  have "\<not> (case allowed_instances s of None \<Rightarrow> False | Some al \<Rightarrow> inst \<notin> set al)" "items \<noteq> []"
    using assms by (auto simp: request_accepted_def split: option.splits)
  then show ?thesis
    using str cs by (simp add: create_request_def Let_def read_clock_def requested_row_def after_ticks_def)
qed

lemma fresh_number:
  assumes "store_inv s"
  shows "find_row (seq s + 1) s = None"
proof (rule ccontr)
  assume "find_row (seq s + 1) s \<noteq> None"
  then obtain r where "r \<in> set (rows s)" "r_id r = seq s + 1" by (auto dest: find_row_Some)
  with assms show False by (auto simp: store_inv_def)
qed

text \<open>C10: \<open>create_request\<close> accepts exactly the requests with a reason, at least one item, an
  allowed instance, and known modes and normalisable paths; it then adds one pending row
  under a number never used before, with the normalised paths, and grants nothing: the rows
  stored before, and so the active ones, are as they were. Otherwise it raises and the store
  is untouched.\<close>

theorem create_request_spec:
  assumes "store_inv s" "create_request inst rsn items s = (x, t)"
  shows "if request_accepted inst rsn items s
    then find_row (seq s + 1) s = None \<and> rows t = rows s @ [requested_row inst rsn items s]
      \<and> find_row (seq s + 1) t = Some (requested_row inst rsn items s)
      \<and> active_rows t = active_rows s \<and> store_inv t
      \<and> x = Inr (record_of (requested_row inst rsn items s)
                  (state_at (clock s (ticks s + 1)) (requested_row inst rsn items s) s))
    else (\<exists>e. x = Inl e) \<and> t = s"
proof (cases "request_accepted inst rsn items s")
  case True
  let ?new = "requested_row inst rsn items s"
  let ?u = "(after_ticks 1 s)\<lparr>rows := rows s @ [?new], seq := seq s + 1\<rparr>"
  have g: "get_row (seq s + 1) ?u = (x, t)"
    using create_request_accepts [OF True] assms(2) by simp
  have sd: "same_data ?u t" by (rule same_data_get_row [OF g])
  have pend: "r_state ?new = Pending" "r_id ?new = seq s + 1" by (simp_all add: requested_row_def)
  have "find P (xs @ [y]) = Some y" if "find P xs = None" "P y" for P xs and y :: row
    using that by (induction xs) (auto split: if_splits)
  with fresh_number [OF assms(1)] pend have f: "find_row (seq s + 1) ?u = Some ?new"
    by (simp add: find_row_def)
  have cl: "clean_items items = Inr (map cleaned items)" and "items \<noteq> []"
    using True by (simp_all add: clean_items_iff request_accepted_def)
  then have ok: "row_ok ?new"
    using clean_items_ok [OF cl] True
    by (auto simp: row_ok_def requested_row_def request_accepted_def)
  have "added_row ?new s t"
    using sd ok pend by (simp add: added_row_def requested_row_def after_ticks_def)
  then have inv: "store_inv t" using store_inv_added assms(1) by blast
  have "x = Inr (record_of ?new (state_at (clock s (ticks s + 1)) ?new s))"
    using g get_row_ok [OF f ok] by (simp add: state_at_def)
  then show ?thesis
    using True inv f fresh_number [OF assms(1)] pend same_data_fields [OF sd] find_row_same_data [OF sd]
    by (simp add: active_rows_def)
next
  case False
  with create_request_rejects [OF False] assms(2) show ?thesis by auto
qed

text \<open>Witness: a request for one document, which gets the next number.\<close>

definition example_ask :: "(pystr \<times> pyval) list" where
  "example_ask = [(lit ''path'', PStr (lit ''docs'')), (lit ''mode'', PStr (lit ''read''))]"

lemma normalize_docs: "normalize_path (PStr (lit ''docs'')) = Some (lit ''docs'')"
proof (rule normalize_plain)
  show "plain_path (lit ''docs'')"
    by (simp add: plain_path_def canonical_path_def canonical_component_def lit_def has_escape_Cons
        escape_at_def hexval_def is_control_def MAX_PATH_LENGTH_def py_strip_def py_isspace_def)
qed

lemma example_ask_valid: "valid_item example_ask"
  by (simp add: valid_item_def example_ask_def dict_get_def lit_def READ_def normalize_docs [unfolded lit_def, simplified])

theorem create_request_spec_witness:
  "\<exists>x t. create_request (lit ''home'') (PStr (lit ''why'')) [example_ask] example_store = (x, t)
     \<and> find_row 3 t \<noteq> None \<and> active_rows t = active_rows example_store"
proof -
  obtain x t where c: "create_request (lit ''home'') (PStr (lit ''why'')) [example_ask] example_store = (x, t)"
    by fastforce
  have "request_accepted (lit ''home'') (PStr (lit ''why'')) [example_ask] example_store"
    using example_ask_valid
    by (simp add: request_accepted_def example_store_def lit_def py_strip_def py_isspace_def)
  with create_request_spec [OF example_store_inv c] c show ?thesis
    by (auto simp: example_store_def)
qed

section \<open>Posted messages\<close>

lemma map_of_prefix:
  "prefix xs ys \<Longrightarrow> map_of xs k = Some v \<Longrightarrow> map_of ys k = Some v"
  by (auto simp: prefix_def map_add_Some_iff)

text \<open>An event id is bound to one request for ever: no call rebinds it, a restart keeps
  it, and posting it a second time raises and changes nothing; a new id is bound as posted.\<close>

lemma posted_events_are_never_rebound:
  assumes "store_inv s"
  shows "(\<forall>ops. request_for_event ev s = Some rid \<longrightarrow>
        request_for_event ev (fold exec_gop ops s) = Some rid
        \<and> record_posted ev rid' (fold exec_gop ops s) = (Inl (Duplicate_event ev), fold exec_gop ops s))
    \<and> (request_for_event ev s = None \<longrightarrow>
        (\<exists>t. record_posted ev rid' s = (Inr (), t) \<and> request_for_event ev t = Some rid' \<and> rows t = rows s))"
proof -
  have "request_for_event ev (fold exec_gop ops s) = Some rid
      \<and> record_posted ev rid' (fold exec_gop ops s) = (Inl (Duplicate_event ev), fold exec_gop ops s)"
    if "request_for_event ev s = Some rid" for ops
  proof -
    have "map_of (posted (fold exec_gop ops s)) ev = Some rid"
      using that grant_store.evolves_history [OF assms, of ops] map_of_prefix
      by (auto simp: store_evolves_def request_for_event_def)
    moreover from this have "ev \<in> fst ` set (posted (fold exec_gop ops s))"
      using map_of_eq_None_iff by (metis option.distinct(1))
    ultimately show ?thesis by (simp add: request_for_event_def record_posted_def)
  qed
  moreover have "\<exists>t. record_posted ev rid' s = (Inr (), t) \<and> request_for_event ev t = Some rid' \<and> rows t = rows s"
    if "request_for_event ev s = None"
  proof -
    have "map_of (posted s) ev = None" using that by (simp add: request_for_event_def)
    moreover from this have "ev \<notin> fst ` set (posted s)" by (simp add: map_of_eq_None_iff)
    ultimately show ?thesis by (simp add: request_for_event_def record_posted_def map_add_def)
  qed
  ultimately show ?thesis by blast
qed

text \<open>Witness: the two messages of the example.\<close>

section \<open>Expiry strings\<close>

text \<open>The expiry strings: a number from 1 to 999, printed, with one of the units reads
  as that duration, and whatever string is accepted names a duration from a minute to 999
  days, so that no accepted string makes a grant born expired or without end.\<close>

lemma parse_expiry_spec:
  "(\<forall>n u secs. 1 \<le> n \<and> n \<le> 999 \<and> (u, secs) \<in> set UNIT_SECONDS \<longrightarrow>
      parse_expiry (Some (py_str_int n @ u)) = Inr (Some (n * secs * MICROSECONDS)))
   \<and> (\<forall>t p. parse_expiry (Some t) = Inr p \<longrightarrow>
      (\<exists>d. p = Some d \<and> 60 * MICROSECONDS \<le> d \<and> d \<le> 999 * 86400 * MICROSECONDS))"
proof -
  have "\<exists>d. p = Some d \<and> 60 * MICROSECONDS \<le> d \<and> d \<le> 999 * 86400 * MICROSECONDS"
    if "parse_expiry (Some t) = Inr p" for t p
  proof (rule expiry_parts [OF that])
    fix ds u secs
    assume *: "p = Some (py_int_of_digits ds * secs * MICROSECONDS)" "(u, secs) \<in> set UNIT_SECONDS"
      "length ds \<le> 3" "0 < py_int_of_digits ds"
    have "py_int_of_digits ds < 10 ^ length ds" using py_int_of_digits_bounds by blast
    also have "\<dots> \<le> 10 ^ 3" by (rule power_increasing [OF *(3)]) simp
    finally have n: "1 \<le> py_int_of_digits ds" "py_int_of_digits ds \<le> 999" using *(4) by simp_all
    have s: "60 \<le> secs" "secs \<le> 86400" using *(2) by (auto simp: UNIT_SECONDS_def)
    have "1 * 60 \<le> py_int_of_digits ds * secs" "py_int_of_digits ds * secs \<le> 999 * 86400"
      using n s by (intro mult_mono; simp)+
    with *(1) show ?thesis by (simp add: MICROSECONDS_def mult.commute)
  qed
  then show ?thesis using parse_expiry_print by blast
qed

section \<open>The state machine\<close>

text \<open>The state machine at the top of the module, on effective states; \<open>None\<close> is a number
  not yet given out.\<close>

inductive lifecycle :: "gstate option \<Rightarrow> gstate option \<Rightarrow> bool" where
  requested: "lifecycle None (Some Pending)"
| approved: "lifecycle (Some Pending) (Some Active)"
| refused: "lifecycle (Some Pending) (Some Rejected)"
| silence: "lifecycle (Some Pending) (Some Expired)"
| lapsed: "lifecycle (Some Active) (Some Expired)"
| withdrawn: "lifecycle (Some Active) (Some Revoked)"

lemmas lifecycle_steps = lifecycle.intros [THEN r_into_rtranclp [of lifecycle]]

text \<open>The effective state of a number at the next reading of the clock.\<close>

definition view :: "int \<Rightarrow> store \<Rightarrow> gstate option" where
  "view rid s = map_option (\<lambda>r. state_at (clock s (ticks s)) r s) (find_row rid s)"

lemma lifecycle_later:
  assumes "now \<le> now'" "pending_timeout t = pending_timeout s"
  shows "lifecycle\<^sup>*\<^sup>* (Some (state_at now r s)) (Some (state_at now' r t))"
proof -
  have "state_at now' r t = state_at now r s
      \<or> state_at now' r t = Expired \<and> (state_at now r s = Pending \<or> state_at now r s = Active)"
    using assms by (cases "r_state r") (auto simp: state_at_def)
  then show ?thesis by (auto intro: lifecycle_steps)
qed

lemma lifecycle_same_row:
  assumes "find_row rid t = find_row rid s" "pending_timeout t = pending_timeout s"
    and "clock s (ticks s) \<le> clock t (ticks t)"
  shows "lifecycle\<^sup>*\<^sup>* (view rid s) (view rid t)"
  using assms lifecycle_later by (cases "find_row rid s") (auto simp: view_def)

text \<open>A number that is neither pending nor alive is left alone by the decisions.\<close>

lemma decisions_leave_dead_rows:
  assumes "store_inv s" "find_row rid s = Some r" "state_at (clock s (ticks s)) r s \<notin> {Pending, Active}"
    and "op = Reject rid \<or> op = Revoke rid \<or> (\<exists>ex ns. op = Approve rid ex ns)"
  shows "rows (exec_gop op s) = rows s"
proof -
  have ok: "row_ok r" using find_row_ok [OF assms(1,2)] .
  obtain st n where "assert_pending rid s = (Inl (Already_decided rid st), after_ticks n s)"
    using assert_pending_refuses [OF assms(2) ok] assms(3) by blast
  note ref = approve_refuses [OF this]
  have "rows (snd (revoke rid s)) = rows s"
    using assms(2,3) ok by (simp add: revoke_def effective_state_ok)
  with assms(4) ref show ?thesis by auto
qed

lemma row_change_neq: "row_change r r' \<Longrightarrow> r_state r' \<noteq> r_state r"
  by (induction rule: row_change.induct) auto

lemma row_change_final: "row_change r r' \<Longrightarrow> r_state r' \<in> {Rejected, Revoked, Active}
    \<and> (r_state r' = Revoked \<longleftrightarrow> r_state r = Active) \<and> r_state r \<in> {Pending, Active}"
  by (induction rule: row_change.induct) auto

lemma lifecycle_change:
  assumes "state_at now r s \<in> {Pending, Active}" "row_change r r'"
  shows "lifecycle\<^sup>*\<^sup>* (Some (state_at now r s)) (Some (state_at now' r' t))"
proof -
  note ch = row_change_final [OF assms(2)]
  have stored: "r_state r = state_at now r s"
    using assms(1) by (auto simp: state_at_def split: gstate.splits if_splits)
  show ?thesis
  proof (cases "r_state r = Active")
    case True
    with ch have "state_at now' r' t = Revoked" by (simp add: state_at_def)
    with True stored show ?thesis by (auto intro: lifecycle_steps)
  next
    case False
    with ch have p: "r_state r = Pending" "r_state r' \<in> {Rejected, Active}" by auto
    then have "state_at now' r' t \<in> {Rejected, Active, Expired}"
      by (auto simp: state_at_def)
    with p(1) stored show ?thesis by (auto intro: lifecycle_steps)
  qed
qed

lemma lifecycle_added:
  assumes "added_row new s t" "clock s (ticks s) \<le> clock t (ticks t)"
  shows "lifecycle\<^sup>*\<^sup>* (view rid s) (view rid t)"
proof -
  have sd: "same_data (s\<lparr>ticks := Suc (ticks s), rows := rows s @ [new], seq := r_id new\<rparr>) t"
    and new: "r_state new = Pending"
    using assms(1) by (auto simp: added_row_def)
  show ?thesis
  proof (cases "find_row rid s = None \<and> r_id new = rid")
    case True
    let ?v = "state_at (clock t (ticks t)) new t"
    have "view rid s = None" "view rid t = Some ?v"
      using True find_row_added [OF assms(1), of rid] by (simp_all add: view_def)
    moreover have "?v = Pending \<or> ?v = Expired" using new by (simp add: state_at_def)
    ultimately show ?thesis
      using lifecycle.requested lifecycle_steps(4) by (auto intro: converse_rtranclp_into_rtranclp)
  next
    case False
    then have "find_row rid t = find_row rid s"
      using find_row_added [OF assms(1), of rid] by (auto split: option.split)
    then show ?thesis using lifecycle_same_row assms(2) same_data_fields(4) [OF sd] by simp
  qed
qed

lemma lifecycle_changed:
  assumes "store_inv s" "changed_row rid0 r r' s (exec_gop op s)"
    and "op = Reject rid0 \<or> op = Revoke rid0 \<or> (\<exists>ex ns. op = Approve rid0 ex ns)"
    and "clock s (ticks s) \<le> clock (exec_gop op s) (ticks (exec_gop op s))"
  shows "lifecycle\<^sup>*\<^sup>* (view rid s) (view rid (exec_gop op s))"
proof (cases "rid0 = rid")
  case False
  then show ?thesis
    using lifecycle_same_row assms(4) changed_row_fields [OF assms(2)]
      changed_row_find [OF assms(2), of rid] by simp
next
  case True
  have r: "find_row rid0 s = Some r" "row_change r r'"
    using assms(2) by (auto simp: changed_row_def)
  have after: "find_row rid (exec_gop op s) = Some r'"
    using changed_row_find [OF assms(2), of rid] True by simp
  have live: "state_at (clock s (ticks s)) r s \<in> {Pending, Active}"
  proof (rule ccontr)
    assume dead: "\<not> ?thesis"
    from decisions_leave_dead_rows [OF assms(1) r(1) dead assms(3)]
    have "find_row rid (exec_gop op s) = find_row rid s" by (simp add: find_row_def)
    with after r True row_change_neq show False by auto
  qed
  with after r True lifecycle_change [OF live r(2)] show ?thesis by (simp add: view_def)
qed

lemma lifecycle_reopen:
  "lifecycle\<^sup>*\<^sup>* (view rid s) (view rid (reopen s))
    \<or> view rid s = Some Expired \<and> view rid (reopen s) = Some Rejected"
proof (cases "find_row rid s")
  case None
  then show ?thesis by (simp add: view_def find_row_reopen)
next
  case (Some r)
  let ?r = "if r_state r = Pending
    then r\<lparr>r_state := Rejected, r_state_source := Some Restart_discard\<rparr> else r"
  have "view rid s = Some (state_at (clock s (ticks s)) r s)"
    "view rid (reopen s) = Some (state_at (clock s (ticks s)) ?r s)"
    using Some by (simp_all add: view_def find_row_reopen state_at_def)
  then show ?thesis
    using lifecycle_steps(3) by (auto simp: state_at_def)
qed



text \<open>The exception happens: thirteen hours after the request of the example, reopening the
  store turns the number from expired to rejected.\<close>

lemma restart_rewrites_a_timed_out_request:
  "view 2 (example_store\<lparr>ticks := 46800\<rparr>) = Some Expired
   \<and> view 2 (exec_gop Restart (example_store\<lparr>ticks := 46800\<rparr>)) = Some Rejected"
  by (simp add: view_def find_row_def reopen_rows state_at_def example_defs)

section \<open>The invariant of the store\<close>

text \<open>C11: in every history from a well-formed store, the rows stay well-formed, state by
  state: an active or revoked row has a decision, an expiry after it and items on canonical
  paths; a pending row has none of them; no row is stored as expired; the numbers are
  positive, strictly increasing and never given out twice; event ids are distinct.\<close>

theorem store_inv_history:
  assumes "store_inv s"
  shows "store_inv (fold exec_gop ops s) \<and> seq s \<le> seq (fold exec_gop ops s)"
  using grant_store.inv_history [OF assms, of ops] grant_store.evolves_history [OF assms, of ops]
  by (simp add: store_evolves_def)

text \<open>Witness: a new database, with any calls.\<close>

theorem store_inv_history_witness:
  "store_inv (fold exec_gop [Create (lit ''home'') (PStr (lit ''why'')) [example_ask], Approve 1 None None, Restart]
     (open_store [] 0 [] DEFAULT_PENDING_TIMEOUT DEFAULT_GRANT_DURATION None example_clock))"
proof -
  have "store_inv (open_store [] 0 [] DEFAULT_PENDING_TIMEOUT DEFAULT_GRANT_DURATION None example_clock)"
    by (simp add: store_inv_def open_store_def restart_discard_pending_def DEFAULT_GRANT_DURATION_def MICROSECONDS_def)
  from store_inv_history [OF this] show ?thesis by blast
qed

end
