(* ===== verification/Py_Hash.thy ===== *)
theory Py_Hash
  imports Py_Prelude "HOL-Library.Word"
begin

unbundle bit_operations_syntax

text \<open>
  \<open>hashlib.sha256(data).hexdigest()\<close> of the standard library: SHA-256 (FIPS 180-4) on
  words of 32 bits, from bytes to the 64 hexadecimal digits. Nothing is assumed of it: where
  a theorem needs two inputs to have different hashes, an explicit collision is one of its
  cases.
\<close>

type_synonym word32 = "32 word"

definition sha_k :: "word32 list" where
  "sha_k = [1116352408, 1899447441, 3049323471, 3921009573, 961987163, 1508970993, 2453635748,
     2870763221, 3624381080, 310598401, 607225278, 1426881987, 1925078388, 2162078206,
     2614888103, 3248222580, 3835390401, 4022224774, 264347078, 604807628, 770255983,
     1249150122, 1555081692, 1996064986, 2554220882, 2821834349, 2952996808, 3210313671,
     3336571891, 3584528711, 113926993, 338241895, 666307205, 773529912, 1294757372, 1396182291,
     1695183700, 1986661051, 2177026350, 2456956037, 2730485921, 2820302411, 3259730800,
     3345764771, 3516065817, 3600352804, 4094571909, 275423344, 430227734, 506948616, 659060556,
     883997877, 958139571, 1322822218, 1537002063, 1747873779, 1955562222, 2024104815,
     2227730452, 2361852424, 2428436474, 2756734187, 3204031479, 3329325298]"

definition sha_init :: "word32 list" where
  "sha_init = [1779033703, 3144134277, 1013904242, 2773480762,
     1359893119, 2600822924, 528734635, 1541459225]"

definition rotr :: "nat \<Rightarrow> word32 \<Rightarrow> word32" where
  "rotr n x = (drop_bit n x) OR (push_bit (32 - n) x)"

definition sigma0 :: "word32 \<Rightarrow> word32" where
  "sigma0 x = rotr 7 x XOR rotr 18 x XOR drop_bit 3 x"

definition sigma1 :: "word32 \<Rightarrow> word32" where
  "sigma1 x = rotr 17 x XOR rotr 19 x XOR drop_bit 10 x"

text \<open>The message schedule: the last sixteen words, newest first, and how many to add.\<close>

fun sha_expand :: "nat \<Rightarrow> word32 list \<Rightarrow> word32 list" where
  "sha_expand 0 w = rev w"
| "sha_expand (Suc n) w =
     sha_expand n ((sigma1 (w ! 1) + w ! 6 + sigma0 (w ! 14) + w ! 15) # w)"

definition sha_round :: "word32 \<times> word32 \<Rightarrow> word32 list \<Rightarrow> word32 list" where
  "sha_round kw st =
     (case (kw, st) of
        ((k, w), [a, b, c, d, e, f, g, h]) \<Rightarrow>
          (let t1 = h + (rotr 6 e XOR rotr 11 e XOR rotr 25 e) + ((e AND f) XOR (NOT e AND g)) + k + w;
               t2 = (rotr 2 a XOR rotr 13 a XOR rotr 22 a) + ((a AND b) XOR (a AND c) XOR (b AND c))
           in [t1 + t2, a, b, c, d + t1, e, f, g])
      | _ \<Rightarrow> st)"

definition sha_block :: "word32 list \<Rightarrow> word32 list \<Rightarrow> word32 list" where
  "sha_block st block =
     map2 (+) st (fold sha_round (zip sha_k (sha_expand 48 (rev block))) st)"

definition be_word :: "nat list \<Rightarrow> word32" where
  "be_word bs = foldl (\<lambda>acc b. push_bit 8 acc OR word_of_nat b) 0 bs"

fun words_of :: "nat list \<Rightarrow> word32 list" where
  "words_of (a # b # c # d # bs) = be_word [a, b, c, d] # words_of bs"
| "words_of _ = []"

definition be_bytes :: "nat \<Rightarrow> nat \<Rightarrow> nat list" where
  "be_bytes k n = map (\<lambda>i. n div 256 ^ i mod 256) (rev [0 ..< k])"

text \<open>One bit, zeros, and the length in bits on 64 bits.\<close>

definition sha_pad :: "nat list \<Rightarrow> nat list" where
  "sha_pad bs = bs @ [128] @ replicate ((119 - length bs mod 64) mod 64) 0 @ be_bytes 8 (8 * length bs)"

function sha_blocks :: "word32 list \<Rightarrow> word32 list \<Rightarrow> word32 list" where
  "sha_blocks st ws = (if ws = [] then st else sha_blocks (sha_block st (take 16 ws)) (drop 16 ws))"
  by pat_completeness auto
termination by (relation "measure (\<lambda>(st, ws). length ws)") auto

declare sha_blocks.simps [simp del]

definition hex_digit :: "nat \<Rightarrow> cp" where
  "hex_digit n = (if n < 10 then 48 + n else 87 + n)"

definition hex_word :: "word32 \<Rightarrow> pystr" where
  "hex_word w = map (\<lambda>i. hex_digit (unat w div 16 ^ i mod 16)) (rev [0 ..< 8])"

definition sha256_hex :: "nat list \<Rightarrow> pystr" where
  "sha256_hex bs = concat (map hex_word (sha_blocks sha_init (words_of (sha_pad bs))))"

lemma hex_digit_ascii: "n < 16 \<Longrightarrow> 48 \<le> hex_digit n \<and> hex_digit n \<le> 102 \<and> hex_digit n \<noteq> 92"
  by (simp add: hex_digit_def)

lemma sha256_hex_ascii: "c \<in> set (sha256_hex bs) \<Longrightarrow> 48 \<le> c \<and> c \<le> 102 \<and> c \<noteq> 92"
  using hex_digit_ascii by (auto simp: sha256_hex_def hex_word_def)

end
