(* ===== verification/Py_Json.thy ===== *)
theory Py_Json
  imports Py_Url Py_Regex Py_Hash "HOL-Library.List_Lexorder"
begin

text \<open>
  The standard library's \<open>json\<close>: \<open>dumps(value, sort_keys=True)\<close> with its default ASCII
  output, and \<open>loads\<close>. The floating-point numbers of a document go through the function
  \<open>fl\<close>, from the text of a number to the text Python prints for the float it denotes: the
  broker writes no float, and what its readers do with one does not depend on its value. Deep
  nesting, where Python raises RecursionError, is not modelled.
\<close>

section \<open>Writing\<close>

definition hex4 :: "nat \<Rightarrow> pystr" where
  "hex4 n = [hex_digit (n div 4096 mod 16), hex_digit (n div 256 mod 16),
     hex_digit (n div 16 mod 16), hex_digit (n mod 16)]"

definition u_escape :: "nat \<Rightarrow> pystr" where
  "u_escape n = [92, 117] @ hex4 n"

definition esc_cp :: "cp \<Rightarrow> pystr" where
  "esc_cp c =
     (if c = 34 then [92, 34] else if c = 92 then [92, 92]
      else if c = 8 then [92, 98] else if c = 9 then [92, 116] else if c = 10 then [92, 110]
      else if c = 12 then [92, 102] else if c = 13 then [92, 114]
      else if 32 \<le> c \<and> c \<le> 126 then [c]
      else if c < 65536 then u_escape c
      else u_escape (55296 + (c - 65536) div 1024) @ u_escape (56320 + (c - 65536) mod 1024))"

definition esc_str :: "pystr \<Rightarrow> pystr" where
  "esc_str s = concat (map esc_cp s)"

definition json_str :: "pystr \<Rightarrow> pystr" where
  "json_str s = [34] @ esc_str s @ [34]"

definition comma :: pystr where
  "comma = lit '', ''"

function dumps :: "pyval \<Rightarrow> pystr" where
  "dumps PNone = lit ''null''"
| "dumps (PBool b) = (if b then lit ''true'' else lit ''false'')"
| "dumps (PInt i) = py_str_int i"
| "dumps (PFloat t) = t"
| "dumps (PStr s) = json_str s"
| "dumps (PList vs) = [91] @ join_on comma (map dumps vs) @ [93]"
| "dumps (PDict d) =
     [123] @ join_on comma
       (map (\<lambda>(k, t). json_str k @ lit '': '' @ t) (sort_key fst (map (\<lambda>(k, v). (k, dumps v)) d))) @ [125]"
  by pat_completeness auto
termination
  by (relation "measure size")
    (auto dest!: size_list_estimation' [where f = size, OF _ order_refl]
      size_list_estimation' [where f = "size_prod (\<lambda>x. 0) size", OF _ order_refl] simp: less_Suc_eq_le)

section \<open>Reading\<close>

definition json_ws :: "cp \<Rightarrow> bool" where
  "json_ws c \<longleftrightarrow> c = 32 \<or> c = 9 \<or> c = 10 \<or> c = 13"

abbreviation skip_ws :: "pystr \<Rightarrow> pystr" where
  "skip_ws \<equiv> dropWhile json_ws"

text \<open>Four hexadecimal digits.\<close>

fun read_hex4 :: "pystr \<Rightarrow> (nat \<times> pystr) option" where
  "read_hex4 (a # b # c # d # s) =
     (case (hexval a, hexval b, hexval c, hexval d) of
        (Some w, Some x, Some y, Some z) \<Rightarrow> Some (4096 * w + 256 * x + 16 * y + z, s)
      | _ \<Rightarrow> None)"
| "read_hex4 _ = None"

definition is_high :: "nat \<Rightarrow> bool" where "is_high n \<longleftrightarrow> 55296 \<le> n \<and> n \<le> 56319"
definition is_low :: "nat \<Rightarrow> bool" where "is_low n \<longleftrightarrow> 56320 \<le> n \<and> n \<le> 57343"

definition join_pair :: "nat \<Rightarrow> nat \<Rightarrow> cp" where
  "join_pair h l = 65536 + (h - 55296) * 1024 + (l - 56320)"

definition simple_escape :: "cp \<Rightarrow> cp option" where
  "simple_escape c = map_of [(34, 34), (92, 92), (47, 47), (98, 8), (102, 12), (110, 10), (114, 13), (116, 9)] c"

text \<open>The escape after \<open>\u\<close>; a high surrogate takes a low one that follows it.\<close>

definition read_u :: "pystr \<Rightarrow> (cp \<times> pystr) option" where
  "read_u s =
     (case read_hex4 s of
        None \<Rightarrow> None
      | Some (h, s1) \<Rightarrow>
          if is_high h \<and> prefix [92, 117] s1
          then (case read_hex4 (drop 2 s1) of
                  None \<Rightarrow> None
                | Some (l, s2) \<Rightarrow> if is_low l then Some (join_pair h l, s2) else Some (h, s1))
          else Some (h, s1))"

text \<open>The rest of a string after its opening quote, with the fuel of one step per character.\<close>

fun read_str :: "nat \<Rightarrow> pystr \<Rightarrow> (pystr \<times> pystr) option" where
  "read_str 0 s = None"
| "read_str (Suc n) s =
     (case s of
        [] \<Rightarrow> None
      | c # s1 \<Rightarrow>
          if c = 34 then Some ([], s1)
          else if c < 32 then None
          else if c \<noteq> 92 then map_option (\<lambda>(t, r). (c # t, r)) (read_str n s1)
          else (case s1 of
                  [] \<Rightarrow> None
                | e # s2 \<Rightarrow>
                    (case (if e = 117 then read_u s2 else map_option (\<lambda>x. (x, s2)) (simple_escape e)) of
                       None \<Rightarrow> None
                     | Some (x, s3) \<Rightarrow> map_option (\<lambda>(t, r). (x # t, r)) (read_str n s3))))"

definition is_digit :: "cp \<Rightarrow> bool" where
  "is_digit c \<longleftrightarrow> 48 \<le> c \<and> c \<le> 57"

text \<open>The integer part, the fraction and the exponent of a number.\<close>

definition read_frac :: "pystr \<Rightarrow> pystr \<times> pystr" where
  "read_frac s =
     (case s of
        p # c # r \<Rightarrow>
          if p = 46 \<and> is_digit c then (46 # takeWhile is_digit (c # r), dropWhile is_digit (c # r))
          else ([], s)
      | _ \<Rightarrow> ([], s))"

definition read_exp :: "pystr \<Rightarrow> pystr \<times> pystr" where
  "read_exp s =
     (case s of
        e # r \<Rightarrow>
          if e = 101 \<or> e = 69
          then (let sign = (case r of c # _ \<Rightarrow> if c = 43 \<or> c = 45 then [c] else [] | [] \<Rightarrow> []);
                    r1 = drop (length sign) r
                in if takeWhile is_digit r1 = [] then ([], s)
                   else (e # sign @ takeWhile is_digit r1, dropWhile is_digit r1))
          else ([], s)
      | [] \<Rightarrow> ([], s))"

definition read_number :: "(pystr \<Rightarrow> pystr) \<Rightarrow> pystr \<Rightarrow> (pyval \<times> pystr) option" where
  "read_number fl s =
     (let neg = prefix [45] s;
          s1 = (if neg then tl s else s);
          digits = (case s1 of c # _ \<Rightarrow> if c = 48 then [c] else takeWhile is_digit s1 | [] \<Rightarrow> []);
          (frac, s2) = read_frac (drop (length digits) s1);
          (expo, s3) = read_exp s2
      in if digits = [] then None
         else if frac = [] \<and> expo = []
         then (if MAX_STR_DIGITS < length digits then None
               else Some (PInt ((if neg then -1 else 1) * py_int_of_digits digits), s3))
         else Some (PFloat (fl ((if neg then [45] else []) @ digits @ frac @ expo)), s3))"

text \<open>A literal word, if the document continues with it.\<close>

definition read_word :: "pystr \<Rightarrow> pystr \<Rightarrow> pystr option" where
  "read_word w s = (if prefix w s then Some (drop (length w) s) else None)"

text \<open>\<open>dict(pairs)\<close>: the position of the first occurrence of a key, the value of the last.\<close>

definition dict_set :: "pystr \<Rightarrow> pyval \<Rightarrow> (pystr \<times> pyval) list \<Rightarrow> (pystr \<times> pyval) list" where
  "dict_set k v d = (if k \<in> fst ` set d then map (\<lambda>(k', v'). if k' = k then (k, v) else (k', v')) d
     else d @ [(k, v)])"

text \<open>The scanner: a value, the pairs of an object after its brace, the values of an array
  after its bracket. Every call takes a character off, or goes one level down after one did,
  so that fuel twice the length of the document is enough.\<close>

fun read_value :: "(pystr \<Rightarrow> pystr) \<Rightarrow> nat \<Rightarrow> pystr \<Rightarrow> (pyval \<times> pystr) option"
  and read_pairs :: "(pystr \<Rightarrow> pystr) \<Rightarrow> nat \<Rightarrow> (pystr \<times> pyval) list \<Rightarrow> pystr
      \<Rightarrow> ((pystr \<times> pyval) list \<times> pystr) option"
  and read_items :: "(pystr \<Rightarrow> pystr) \<Rightarrow> nat \<Rightarrow> pystr \<Rightarrow> (pyval list \<times> pystr) option" where
  "read_value fl 0 s = None"
| "read_value fl (Suc n) s =
     (case s of
        [] \<Rightarrow> None
      | c # r \<Rightarrow>
          if c = 34 then map_option (\<lambda>(t, r'). (PStr t, r')) (read_str (Suc (length r)) r)
          else if c = 123
          then (if prefix [125] (skip_ws r) then Some (PDict [], tl (skip_ws r))
                else map_option (\<lambda>(d, r'). (PDict d, r')) (read_pairs fl n [] (skip_ws r)))
          else if c = 91
          then (if prefix [93] (skip_ws r) then Some (PList [], tl (skip_ws r))
                else map_option (\<lambda>(vs, r'). (PList vs, r')) (read_items fl n (skip_ws r)))
          else (case read_word (lit ''null'') s of Some r' \<Rightarrow> Some (PNone, r') | None \<Rightarrow>
                case read_word (lit ''true'') s of Some r' \<Rightarrow> Some (PBool True, r') | None \<Rightarrow>
                case read_word (lit ''false'') s of Some r' \<Rightarrow> Some (PBool False, r') | None \<Rightarrow>
                case read_word (lit ''NaN'') s of Some r' \<Rightarrow> Some (PFloat (lit ''NaN''), r') | None \<Rightarrow>
                case read_word (lit ''Infinity'') s of Some r' \<Rightarrow> Some (PFloat (lit ''Infinity''), r') | None \<Rightarrow>
                case read_word (lit ''-Infinity'') s of Some r' \<Rightarrow> Some (PFloat (lit ''-Infinity''), r') | None \<Rightarrow>
                read_number fl s))"
| "read_pairs fl 0 d s = None"
| "read_pairs fl (Suc n) d s =
     (case s of
        [] \<Rightarrow> None
      | c # r \<Rightarrow>
          if c \<noteq> 34 then None
          else (case read_str (Suc (length r)) r of
                  None \<Rightarrow> None
                | Some (k, r1) \<Rightarrow>
                    if \<not> prefix [58] (skip_ws r1) then None
                    else (case read_value fl n (skip_ws (tl (skip_ws r1))) of
                            None \<Rightarrow> None
                          | Some (v, r2) \<Rightarrow>
                              (case skip_ws r2 of
                                 [] \<Rightarrow> None
                               | e # r3 \<Rightarrow>
                                   if e = 125 then Some (dict_set k v d, r3)
                                   else if e = 44 then read_pairs fl n (dict_set k v d) (skip_ws r3)
                                   else None))))"
| "read_items fl 0 s = None"
| "read_items fl (Suc n) s =
     (case read_value fl n s of
        None \<Rightarrow> None
      | Some (v, r2) \<Rightarrow>
          (case skip_ws r2 of
             [] \<Rightarrow> None
           | e # r3 \<Rightarrow>
               if e = 93 then Some ([v], r3)
               else if e = 44 then map_option (\<lambda>(vs, r'). (v # vs, r')) (read_items fl n (skip_ws r3))
               else None))"

definition json_fuel :: "pystr \<Rightarrow> nat" where
  "json_fuel s = 2 * length s + 2"

text \<open>\<open>json.loads(s)\<close>; \<open>None\<close> is the \<open>JSONDecodeError\<close> (a \<open>ValueError\<close>).\<close>

definition loads :: "(pystr \<Rightarrow> pystr) \<Rightarrow> pystr \<Rightarrow> pyval option" where
  "loads fl s =
     (case read_value fl (json_fuel s) (skip_ws s) of
        None \<Rightarrow> None
      | Some (v, r) \<Rightarrow> if skip_ws r = [] then Some v else None)"

section \<open>Strings come back\<close>

text \<open>What a string becomes when it is written and read: a high surrogate and the low one
  after it are joined.\<close>

fun join_surr :: "pystr \<Rightarrow> pystr" where
  "join_surr (h # l # s) =
     (if is_high h \<and> is_low l then join_pair h l # join_surr s else h # join_surr (l # s))"
| "join_surr s = s"

definition code_points :: "pystr \<Rightarrow> bool" where
  "code_points s \<longleftrightarrow> (\<forall>c \<in> set s. c < 1114112)"

lemma code_points_simps [simp]:
  "code_points []" "code_points (c # s) \<longleftrightarrow> c < 1114112 \<and> code_points s"
  by (simp_all add: code_points_def)

lemma hexval_hex_digit [simp]: "n < 16 \<Longrightarrow> hexval (hex_digit n) = Some n"
  by (simp add: hexval_def hex_digit_def)

lemma read_hex4_hex4 [simp]: "n < 65536 \<Longrightarrow> read_hex4 (hex4 n @ s) = Some (n, s)"
proof -
  assume "n < 65536"
  have d: "n div 256 = n div 16 div 16" "n div 4096 = n div 16 div 16 div 16"
    by (simp_all add: div_mult2_eq [symmetric])
  have "n div 16 div 16 div 16 < 16" using \<open>n < 65536\<close> by (simp add: div_mult2_eq [symmetric])
  then have "16 * (16 * (16 * (n div 16 div 16 div 16 mod 16) + n div 16 div 16 mod 16) + n div 16 mod 16) + n mod 16 = n"
    by (simp only: mod_less mult_div_mod_eq)
  then have "4096 * (n div 4096 mod 16) + 256 * (n div 256 mod 16) + 16 * (n div 16 mod 16) + n mod 16 = n"
    unfolding d by (simp only: distrib_left)
  moreover have "n div 4096 < 16" using \<open>n < 65536\<close> by simp
  ultimately show ?thesis by (simp add: hex4_def)
qed

lemma u_escape_simps [simp]:
  "drop 2 (u_escape n) = hex4 n" "length (u_escape n) = 6" "prefix [92, 117] (u_escape n @ s)"
  by (simp_all add: u_escape_def hex4_def)

text \<open>The forms of an escape.\<close>

lemma esc_cp_cases:
  assumes "c < 1114112"
  obtains (pair) "65536 \<le> c"
      "esc_cp c = u_escape (55296 + (c - 65536) div 1024) @ u_escape (56320 + (c - 65536) mod 1024)"
    | (unicode) "c < 65536" "esc_cp c = u_escape c"
    | (plain) "32 \<le> c" "c \<le> 126" "c \<noteq> 34" "c \<noteq> 92" "esc_cp c = [c]"
    | (short) e where "esc_cp c = [92, e]" "e \<noteq> 117" "simple_escape e = Some c" "c < 126" "32 \<le> e" "e \<le> 126"
proof -
  consider "c \<in> {34, 92, 8, 9, 10, 12, 13}" | "c \<notin> {34, 92, 8, 9, 10, 12, 13}" "32 \<le> c \<and> c \<le> 126"
    | "c \<notin> {34, 92, 8, 9, 10, 12, 13}" "\<not> (32 \<le> c \<and> c \<le> 126)" "c < 65536"
    | "c \<notin> {34, 92, 8, 9, 10, 12, 13}" "\<not> (32 \<le> c \<and> c \<le> 126)" "65536 \<le> c"
    by linarith
  then show thesis
  proof cases
    case 1
    have "\<exists>e. esc_cp c = [92, e] \<and> e \<noteq> 117 \<and> simple_escape e = Some c \<and> c < 126 \<and> 32 \<le> e \<and> e \<le> 126"
      using 1 by (elim insertE; simp add: esc_cp_def simple_escape_def)
    then show thesis using short by blast
  next
    case 2
    then show thesis using plain by (simp add: esc_cp_def)
  next
    case 3
    then have "esc_cp c = u_escape c" by (auto simp: esc_cp_def)
    with 3 show thesis using unicode by blast
  next
    case 4
    then have "esc_cp c = u_escape (55296 + (c - 65536) div 1024) @ u_escape (56320 + (c - 65536) mod 1024)"
      by (auto simp: esc_cp_def)
    with 4 show thesis using pair by blast
  qed
qed

text \<open>What the reader sees after a high surrogate.\<close>

lemma next_escape:
  assumes "c < 1114112"
  shows "(\<not> prefix [92, 117] (esc_cp c @ r))
    \<or> (\<exists>n r'. n < 65536 \<and> prefix [92, 117] (esc_cp c @ r) \<and> drop 2 (esc_cp c @ r) = hex4 n @ r'
        \<and> (is_low n \<longleftrightarrow> is_low c) \<and> (is_low c \<longrightarrow> n = c \<and> r' = r))"
  using assms
proof (cases rule: esc_cp_cases)
  case pair
  let ?h = "55296 + (c - 65536) div 1024" and ?l = "56320 + (c - 65536) mod 1024"
  have h: "is_high ?h" using assms pair(1) by (auto simp: is_high_def)
  then have nl: "?h < 65536" "\<not> is_low ?h" "\<not> is_low c"
    using pair(1) by (auto simp: is_high_def is_low_def)
  have "prefix [92, 117] (esc_cp c @ r)" "drop 2 (esc_cp c @ r) = hex4 ?h @ u_escape ?l @ r"
    by (simp_all add: pair(2))
  with nl show ?thesis by blast
next
  case unicode
  then have "prefix [92, 117] (esc_cp c @ r)" "drop 2 (esc_cp c @ r) = hex4 c @ r" by simp_all
  with unicode(1) show ?thesis by blast
qed auto

lemma read_u_single:
  assumes "n < 65536" "\<not> is_high n"
  shows "read_u (hex4 n @ r) = Some (n, r)"
  using assms by (simp add: read_u_def)

lemma read_u_pair:
  assumes "is_high h" "is_low l"
  shows "read_u (hex4 h @ u_escape l @ r) = Some (join_pair h l, r)"
proof -
  have "h < 65536" "l < 65536" using assms by (auto simp: is_high_def is_low_def)
  with assms show ?thesis by (simp add: read_u_def)
qed

lemma join_pair_split:
  assumes "65536 \<le> c" "c < 1114112"
  shows "is_high (55296 + (c - 65536) div 1024)" "is_low (56320 + (c - 65536) mod 1024)"
    "join_pair (55296 + (c - 65536) div 1024) (56320 + (c - 65536) mod 1024) = c"
  using assms by (auto simp: is_high_def is_low_def join_pair_def)

declare read_str.simps(2) [simp del]

lemma read_str_u:
  "read_str (Suc n) (u_escape k @ r) =
     (case read_u (hex4 k @ r) of None \<Rightarrow> None
      | Some (x, s3) \<Rightarrow> map_option (\<lambda>(t, r). (x # t, r)) (read_str n s3))"
  by (simp add: u_escape_def read_str.simps(2))

text \<open>One character that no surrogate joins.\<close>

lemma read_str_esc_cp:
  assumes "c < 1114112" "\<not> is_high c"
  shows "read_str (Suc n) (esc_cp c @ r) = map_option (\<lambda>(t, r). (c # t, r)) (read_str n r)"
proof -
  from assms(1) show ?thesis
  proof (cases rule: esc_cp_cases)
    case pair
    then show ?thesis
      using join_pair_split [OF pair(1) assms(1)] read_u_pair by (simp add: read_str_u)
  next
    case unicode
    then show ?thesis using assms(2) by (simp add: read_str_u read_u_single)
  qed (simp_all add: read_str.simps(2))
qed

lemma esc_str_simps [simp]: "esc_str [] = []" "esc_str (c # s) = esc_cp c @ esc_str s"
  by (simp_all add: esc_str_def)

lemma high_escape: "is_high c \<Longrightarrow> esc_cp c = u_escape c \<and> c < 65536"
  by (auto simp: is_high_def esc_cp_def)

lemma low_escape: "is_low c \<Longrightarrow> esc_cp c = u_escape c \<and> c < 65536"
  by (auto simp: is_low_def esc_cp_def)

lemma read_str_esc:
  assumes "code_points s" "length s < n"
  shows "read_str n (esc_str s @ 34 # r) = Some (join_surr s, r)"
  using assms
proof (induction s arbitrary: n rule: join_surr.induct [case_names pair empty single])
  case (pair h l s)
  then obtain m where n: "n = Suc m" by (cases n) auto
  show ?case
  proof (cases "is_high h \<and> is_low l")
    case True
    then have "read_str n (esc_str (h # l # s) @ 34 # r) = map_option (\<lambda>(t, r). (join_pair h l # t, r))
        (read_str m (esc_str s @ 34 # r))"
      using high_escape low_escape read_u_pair by (simp add: n read_str_u)
    with pair True n show ?thesis by simp
  next
    case False
    have IH: "read_str m (esc_str (l # s) @ 34 # r) = Some (join_surr (l # s), r)"
      using pair False n by simp
    show ?thesis
    proof (cases "is_high h")
      case True
      with False have nl: "\<not> is_low l" by blast
      have "read_u (hex4 h @ esc_cp l @ esc_str s @ 34 # r) = Some (h, esc_cp l @ esc_str s @ 34 # r)"
        using next_escape [of l "esc_str s @ 34 # r"] pair(3) True nl high_escape [OF True]
        by (auto simp: read_u_def)
      then show ?thesis
        using IH high_escape [OF True] nl by (simp add: n read_str_u)
    next
      case notHigh: False
      then show ?thesis using IH pair(3) False by (simp add: n read_str_esc_cp)
    qed
  qed
next
  case empty
  then show ?case by (cases n) (auto simp: read_str.simps(2))
next
  case (single v)
  then obtain m where n: "n = Suc (Suc m)" by (cases n; cases "n - 1") auto
  show ?case
  proof (cases "is_high v")
    case True
    then show ?thesis
      using high_escape [OF True] by (simp add: n read_str_u) (simp add: read_u_def read_str.simps(2))
  next
    case False
    then show ?thesis using single by (simp add: n read_str_esc_cp) (simp add: read_str.simps(2))
  qed
qed

text \<open>What is written is printable ASCII.\<close>

definition printable :: "pystr \<Rightarrow> bool" where
  "printable s \<longleftrightarrow> (\<forall>c \<in> set s. 32 \<le> c \<and> c \<le> 126)"

lemma printable_simps [simp]:
  "printable []" "printable (c # s) \<longleftrightarrow> 32 \<le> c \<and> c \<le> 126 \<and> printable s"
  "printable (s @ t) \<longleftrightarrow> printable s \<and> printable t"
  by (auto simp: printable_def)

lemma printable_u_escape [simp]: "printable (u_escape n)"
proof -
  have "32 \<le> hex_digit (k mod 16) \<and> hex_digit (k mod 16) \<le> 126" for k
    using hex_digit_ascii [of "k mod 16"] by simp
  then show ?thesis by (simp add: u_escape_def hex4_def)
qed

lemma printable_esc_cp: "c < 1114112 \<Longrightarrow> printable (esc_cp c)"
  by (cases c rule: esc_cp_cases) auto

lemma printable_esc_str: "code_points s \<Longrightarrow> printable (esc_str s)"
  by (induction s) (auto simp: printable_esc_cp)

lemma length_esc_cp: "1 \<le> length (esc_cp c)"
  by (simp add: esc_cp_def u_escape_def)

lemma length_esc_str: "length s \<le> length (esc_str s)"
proof (induction s)
  case (Cons c s)
  then show ?case using length_esc_cp [of c] by simp
qed simp

text \<open>Joining does not change what is written.\<close>

lemma esc_str_join_surr: "esc_str (join_surr s) = esc_str s"
proof (induction s rule: join_surr.induct)
  case (1 h l s)
  show ?case
  proof (cases "is_high h \<and> is_low l")
    case True
    then obtain a b where ab: "h = 55296 + a" "l = 56320 + b" "a < 1024" "b < 1024"
      by (auto simp: is_high_def is_low_def le_iff_add)
    then have "esc_cp (join_pair h l) = esc_cp h @ esc_cp l"
      by (simp add: esc_cp_def join_pair_def)
    with 1 True show ?thesis by simp
  next
    case False
    with 1(2) show ?thesis by auto
  qed
qed auto

section \<open>Numbers come back\<close>

lemma is_digit_nat_digits: "\<forall>c \<in> set (nat_digits n). is_digit c"
  using nat_digits_ascii by (simp add: is_digit_def)

lemma nat_digits_head: "hd (nat_digits n) = 48 \<Longrightarrow> n = 0"
proof (induction n rule: nat_digits.induct)
  case (1 n)
  show ?case
  proof (cases "n < 10")
    case False
    then have "hd (nat_digits (n div 10)) = 48" using 1(2) by (simp add: nat_digits.simps [of n])
    with 1(1) False have "n div 10 = 0" by blast
    with False show ?thesis by simp
  qed (use 1(2) in \<open>simp add: nat_digits.simps [of n]\<close>)
qed

text \<open>What may follow a number.\<close>

definition ends_number :: "pystr \<Rightarrow> bool" where
  "ends_number r \<longleftrightarrow> r = [] \<or> \<not> is_digit (hd r) \<and> hd r \<notin> {46, 101, 69}"

lemma read_frac_none: "ends_number r \<Longrightarrow> read_frac r = ([], r)"
  by (auto simp: ends_number_def read_frac_def split: list.split)

lemma read_exp_none: "ends_number r \<Longrightarrow> read_exp r = ([], r)"
  by (auto simp: ends_number_def read_exp_def split: list.split)

lemma read_number_parts:
  assumes "(if prefix [45] s then tl s else s) = ds @ r"
    and "(case ds @ r of c # _ \<Rightarrow> if c = 48 then [c] else takeWhile is_digit (ds @ r) | [] \<Rightarrow> []) = ds"
    and "ds \<noteq> []" "ends_number r" "length ds \<le> MAX_STR_DIGITS"
  shows "read_number fl s = Some (PInt ((if prefix [45] s then -1 else 1) * py_int_of_digits ds), r)"
  unfolding read_number_def Let_def assms(1,2)
  using assms(3-5) by (simp add: read_frac_none read_exp_none)

lemma read_number_int:
  assumes "ends_number r" "length (nat_digits (nat \<bar>i\<bar>)) \<le> MAX_STR_DIGITS"
  shows "read_number fl (py_str_int i @ r) = Some (PInt i, r)"
proof -
  let ?ds = "nat_digits (nat \<bar>i\<bar>)"
  have take: "(case ?ds @ r of c # _ \<Rightarrow> if c = 48 then [c] else takeWhile is_digit (?ds @ r) | [] \<Rightarrow> []) = ?ds"
  proof (cases "hd ?ds = 48")
    case True
    then have "nat \<bar>i\<bar> = 0" by (rule nat_digits_head)
    then have "?ds = [48]" by (simp add: nat_digits.simps [of 0])
    then show ?thesis by simp
  next
    case False
    have "takeWhile is_digit (?ds @ r) = ?ds"
      using is_digit_nat_digits assms(1) by (intro takeWhile_append_stop) (auto simp: ends_number_def)
    with False show ?thesis by (cases ?ds) auto
  qed
  have neg: "prefix [45] (?ds @ r) = False"
    using nat_digits_ascii [of 45 "nat \<bar>i\<bar>"] by (cases ?ds) auto
  have s: "py_str_int i = (if i < 0 then [45] else []) @ ?ds" by (simp add: py_str_int_def)
  have "(if prefix [45] (py_str_int i @ r) then tl (py_str_int i @ r) else py_str_int i @ r) = ?ds @ r"
    "prefix [45] (py_str_int i @ r) \<longleftrightarrow> i < 0"
    using neg by (auto simp: s)
  from read_number_parts [OF this(1) take nat_digits_nonempty assms] this(2) show ?thesis
    by (simp add: py_int_nat_digits)
qed

lemma py_str_int_head:
  obtains (digit) c cs where "py_str_int i = c # cs" "is_digit c"
    | (minus) c cs where "py_str_int i = 45 # c # cs" "is_digit c"
proof (cases "i < 0")
  case True
  then show thesis
    using minus is_digit_nat_digits [of "nat (- i)"]
    by (cases "nat_digits (nat (- i))") (auto simp: py_str_int_def)
next
  case False
  then show thesis
    using digit is_digit_nat_digits [of "nat i"]
    by (cases "nat_digits (nat i)") (auto simp: py_str_int_def)
qed

section \<open>Values come back\<close>

lemma size_pyval_list [termination_simp]: "v \<in> set vs \<Longrightarrow> size v < Suc (size_list size vs)"
  by (induction vs) auto

lemma size_pyval_pairs [termination_simp]:
  "(k, v) \<in> set d \<Longrightarrow> size v < Suc (size_list (size_prod (\<lambda>x. 0) size) d)"
  by (induction d) auto

text \<open>Values that a document of the broker can hold: no floats, integers below the limit of
  \<open>int\<close>, objects with sorted distinct keys in which nothing needs joining.\<close>

definition key_ok :: "pystr \<Rightarrow> bool" where
  "key_ok k \<longleftrightarrow> code_points k \<and> join_surr k = k"

fun json_ok :: "pyval \<Rightarrow> bool" where
  "json_ok PNone = True"
| "json_ok (PBool b) = True"
| "json_ok (PInt i) = (length (nat_digits (nat \<bar>i\<bar>)) \<le> MAX_STR_DIGITS)"
| "json_ok (PFloat t) = False"
| "json_ok (PStr s) = code_points s"
| "json_ok (PList vs) = (\<forall>v \<in> set vs. json_ok v)"
| "json_ok (PDict d) = (sorted_wrt (<) (map fst d) \<and> (\<forall>(k, v) \<in> set d. key_ok k \<and> json_ok v))"

fun rejoin :: "pyval \<Rightarrow> pyval" where
  "rejoin (PStr s) = PStr (join_surr s)"
| "rejoin (PList vs) = PList (map rejoin vs)"
| "rejoin (PDict d) = PDict (map (\<lambda>(k, v). (k, rejoin v)) d)"
| "rejoin v = v"

lemma dumps_head: "json_ok v \<Longrightarrow> dumps v \<noteq> [] \<and> \<not> json_ws (hd (dumps v)) \<and> hd (dumps v) \<noteq> 93"
proof (cases v)
  case (PInt i)
  then show ?thesis
    by (cases i rule: py_str_int_head) (auto simp: json_ws_def is_digit_def)
qed (auto simp: lit_def json_ws_def json_str_def)

lemma skip_ws_dumps: "json_ok v \<Longrightarrow> skip_ws (dumps v @ r) = dumps v @ r"
  using dumps_head [of v] by (cases "dumps v") auto

lemma json_ws_simps [simp]:
  "json_ws 32" "\<not> json_ws 34" "\<not> json_ws 44" "\<not> json_ws 58" "\<not> json_ws 91" "\<not> json_ws 93"
  "\<not> json_ws 123" "\<not> json_ws 125"
  by (simp_all add: json_ws_def)

lemma comma_eq: "comma = [44, 32]"
  by (simp add: comma_def lit_def)

text \<open>What may follow a value.\<close>

definition follows :: "pystr \<Rightarrow> bool" where
  "follows r \<longleftrightarrow> r = [] \<or> hd r \<in> {44, 93, 125}"

lemma follows_simps [simp]: "follows []" "follows (c # r) \<longleftrightarrow> c = 44 \<or> c = 93 \<or> c = 125"
  by (auto simp: follows_def)

lemma follows_ends: "follows r \<Longrightarrow> ends_number r"
  by (auto simp: follows_def ends_number_def is_digit_def)

abbreviation reads_back :: "(pystr \<Rightarrow> pystr) \<Rightarrow> pyval \<Rightarrow> bool" where
  "reads_back fl v \<equiv> \<forall>n r. follows r \<longrightarrow> 2 * length (dumps v) \<le> n
     \<longrightarrow> read_value fl n (dumps v @ r) = Some (rejoin v, r)"

lemma read_items_dumps:
  assumes "\<forall>v \<in> set vs. json_ok v \<and> reads_back fl v" "vs \<noteq> []"
    and "2 * length (join_on comma (map dumps vs)) < n"
  shows "read_items fl n (join_on comma (map dumps vs) @ 93 # r) = Some (map rejoin vs, r)"
  using assms
proof (induction vs arbitrary: n)
  case (Cons v vs)
  then obtain m where n: "n = Suc m" by (cases n) auto
  show ?case
  proof (cases "vs = []")
    case True
    then show ?thesis using Cons.prems by (simp add: n json_ws_def)
  next
    case False
    then have len: "length (join_on comma (map dumps (v # vs)))
        = length (dumps v) + 2 + length (join_on comma (map dumps vs))"
      by (simp add: join_on_Cons comma_eq)
    obtain w ws where vs: "vs = w # ws" using False by (cases vs) auto
    have skip: "skip_ws (32 # join_on comma (map dumps vs) @ 93 # r) = join_on comma (map dumps vs) @ 93 # r"
      using Cons.prems(1) skip_ws_dumps [of w] by (simp add: vs join_on_Cons)
    have "read_items fl m (join_on comma (map dumps vs) @ 93 # r) = Some (map rejoin vs, r)"
      using Cons False len n by simp
    moreover have "read_value fl m (dumps v @ 44 # 32 # join_on comma (map dumps vs) @ 93 # r)
        = Some (rejoin v, 44 # 32 # join_on comma (map dumps vs) @ 93 # r)"
      using Cons.prems len n by simp
    ultimately show ?thesis
      using skip False by (simp add: n join_on_Cons comma_eq json_ws_def)
  qed
qed simp

definition dump_pair :: "pystr \<times> pyval \<Rightarrow> pystr" where
  "dump_pair kv = json_str (fst kv) @ lit '': '' @ dumps (snd kv)"

lemma dict_set_new: "k \<notin> fst ` set d \<Longrightarrow> dict_set k v d = d @ [(k, v)]"
  by (simp add: dict_set_def)

lemma read_key:
  assumes "key_ok k"
  shows "read_str (Suc (length (esc_str k @ 34 # r))) (esc_str k @ 34 # r) = Some (k, r)"
  using assms read_str_esc [of k "Suc (length (esc_str k @ 34 # r))" r] length_esc_str [of k]
  by (simp add: key_ok_def)

lemma read_pairs_step:
  assumes "key_ok k" "json_ok v" "read_value fl n (dumps v @ r) = Some (rejoin v, r)"
  shows "read_pairs fl (Suc n) acc (dump_pair (k, v) @ r) =
    (case skip_ws r of
       [] \<Rightarrow> None
     | e # r3 \<Rightarrow> if e = 125 then Some (dict_set k (rejoin v) acc, r3)
                 else if e = 44 then read_pairs fl n (dict_set k (rejoin v) acc) (skip_ws r3) else None)"
proof -
  have "dump_pair (k, v) @ r = 34 # esc_str k @ 34 # 58 # 32 # dumps v @ r"
    by (simp add: dump_pair_def json_str_def lit_def)
  then show ?thesis
    using assms read_key [OF assms(1), of "58 # 32 # dumps v @ r"] skip_ws_dumps [OF assms(2), of r]
    by (simp add: json_ws_def [of 58])
qed

lemma read_pairs_dumps:
  assumes "\<forall>(k, v) \<in> set d. key_ok k \<and> json_ok v \<and> reads_back fl v" "d \<noteq> []"
    and "2 * length (join_on comma (map dump_pair d)) < n"
    and "distinct (map fst d)" "fst ` set d \<inter> fst ` set acc = {}"
  shows "read_pairs fl n acc (join_on comma (map dump_pair d) @ 125 # r)
     = Some (acc @ map (\<lambda>(k, v). (k, rejoin v)) d, r)"
  using assms
proof (induction d arbitrary: n acc)
  case (Cons kv d)
  obtain k v where kv: "kv = (k, v)" by fastforce
  obtain m where n: "n = Suc m" using Cons.prems(3) by (cases n) auto
  have ok: "key_ok k" "json_ok v" "reads_back fl v" using Cons.prems(1) kv by auto
  have new: "dict_set k (rejoin v) acc = acc @ [(k, rejoin v)]"
    using Cons.prems(5) kv by (intro dict_set_new) auto
  have lp: "length (dumps v) \<le> length (dump_pair kv)" by (simp add: dump_pair_def kv)
  show ?case
  proof (cases "d = []")
    case True
    then have "read_value fl m (dumps v @ 125 # r) = Some (rejoin v, 125 # r)"
      using Cons.prems(3) ok(3) lp n by simp
    from read_pairs_step [OF ok(1,2) this] show ?thesis
      using True new by (simp add: n kv json_ws_def)
  next
    case False
    let ?rest = "join_on comma (map dump_pair d) @ 125 # r"
    have len: "length (join_on comma (map dump_pair (kv # d)))
        = length (dump_pair kv) + 2 + length (join_on comma (map dump_pair d))"
      using False by (simp add: join_on_Cons comma_eq)
    obtain p ps where d: "d = p # ps" using False by (cases d) auto
    have skip: "skip_ws (32 # ?rest) = ?rest"
      by (simp add: d join_on_Cons dump_pair_def json_str_def json_ws_def)
    have "read_value fl m (dumps v @ 44 # 32 # ?rest) = Some (rejoin v, 44 # 32 # ?rest)"
      using Cons.prems(3) ok(3) lp len n by simp
    note step = read_pairs_step [OF ok(1,2) this]
    have "read_pairs fl m (acc @ [(k, rejoin v)]) ?rest = Some ((acc @ [(k, rejoin v)]) @ map (\<lambda>(k, v). (k, rejoin v)) d, r)"
      using Cons.prems False len n kv by (intro Cons.IH) auto
    then show ?thesis
      using step skip new False by (simp add: n kv join_on_Cons comma_eq json_ws_def)
  qed
qed simp

lemma sort_key_sorted_pairs:
  "sorted_wrt (<) (map fst (d :: (pystr \<times> 'b) list)) \<Longrightarrow> sort_key fst d = d"
  using strict_sorted_iff sort_key_id_if_sorted by blast

lemma dumps_sorted:
  assumes "sorted_wrt (<) (map fst d)"
  shows "dumps (PDict d) = [123] @ join_on comma (map dump_pair d) @ [125]"
proof -
  have "map fst (map (\<lambda>(k, v). (k, dumps v)) d) = map fst d" by (induction d) auto
  then have "sort_key fst (map (\<lambda>(k, v). (k, dumps v)) d) = map (\<lambda>(k, v). (k, dumps v)) d"
    using assms by (intro sort_key_sorted_pairs) (simp only:)
  moreover have "map (\<lambda>(k, t). json_str k @ lit '': '' @ t) (map (\<lambda>(k, v). (k, dumps v)) d) = map dump_pair d"
    by (simp add: dump_pair_def case_prod_beta)
  ultimately show ?thesis by (simp only: dumps.simps)
qed

lemma json_reads_back: "json_ok v \<Longrightarrow> reads_back fl v"
proof (induction v)
  case (PStr s)
  show ?case
  proof (intro allI impI)
    fix n r
    assume "2 * length (dumps (PStr s)) \<le> n"
    then obtain m where "n = Suc m" by (cases n) (auto simp: json_str_def)
    moreover have "read_str (Suc (length (esc_str s @ 34 # r))) (esc_str s @ 34 # r) = Some (join_surr s, r)"
      using PStr length_esc_str [of s] by (intro read_str_esc) auto
    ultimately show "read_value fl n (dumps (PStr s) @ r) = Some (rejoin (PStr s), r)"
      by (simp add: json_str_def)
  qed
next
  case (PInt i)
  show ?case
  proof (intro allI impI)
    fix n r
    assume "follows r" and len: "2 * length (dumps (PInt i)) \<le> n"
    note num = read_number_int [OF follows_ends [OF \<open>follows r\<close>], of i fl]
    show "read_value fl n (dumps (PInt i) @ r) = Some (rejoin (PInt i), r)"
    proof (cases i rule: py_str_int_head)
      case (digit c cs)
      with len obtain m where "n = Suc m" by (cases n) auto
      with digit num PInt show ?thesis
        by (auto simp: is_digit_def read_word_def lit_def)
    next
      case (minus c cs)
      with len obtain m where "n = Suc m" by (cases n) auto
      with minus num PInt show ?thesis
        by (auto simp: is_digit_def read_word_def lit_def)
    qed
  qed
next
  case (PList vs)
  then have all: "\<forall>v \<in> set vs. json_ok v \<and> reads_back fl v" by auto
  show ?case
  proof (intro allI impI)
    fix n r
    assume len: "2 * length (dumps (PList vs)) \<le> n"
    then obtain m where n: "n = Suc m" by (cases n) auto
    show "read_value fl n (dumps (PList vs) @ r) = Some (rejoin (PList vs), r)"
    proof (cases vs)
      case Nil
      then show ?thesis by (simp add: n json_ws_def)
    next
      case (Cons w ws)
      have "read_items fl m (join_on comma (map dumps vs) @ 93 # r) = Some (map rejoin vs, r)"
        using all Cons len n by (intro read_items_dumps) auto
      moreover have "skip_ws (join_on comma (map dumps vs) @ 93 # r) = join_on comma (map dumps vs) @ 93 # r"
        "\<not> prefix [93] (join_on comma (map dumps vs) @ 93 # r)"
        using all skip_ws_dumps [of w] dumps_head [of w] Cons
        by (cases "dumps w"; auto simp: join_on_Cons)+
      ultimately show ?thesis by (simp add: n)
    qed
  qed
next
  case (PDict d)
  then have all: "\<forall>(k, v) \<in> set d. key_ok k \<and> json_ok v \<and> reads_back fl v"
    and srt: "sorted_wrt (<) (map fst d)" by auto
  show ?case
  proof (intro allI impI)
    fix n r
    assume len: "2 * length (dumps (PDict d)) \<le> n"
    then have len: "2 * length (join_on comma (map dump_pair d)) + 4 \<le> n"
      by (simp add: dumps_sorted [OF srt] del: dumps.simps)
    then obtain m where n: "n = Suc m" by (cases n) auto
    show "read_value fl n (dumps (PDict d) @ r) = Some (rejoin (PDict d), r)"
    proof (cases d)
      case Nil
      then show ?thesis by (simp add: n json_ws_def)
    next
      case (Cons p ps)
      have "read_pairs fl m [] (join_on comma (map dump_pair d) @ 125 # r)
          = Some ([] @ map (\<lambda>(k, v). (k, rejoin v)) d, r)"
        using all srt Cons len n strict_sorted_iff
        by (intro read_pairs_dumps) auto
      moreover have "skip_ws (join_on comma (map dump_pair d) @ 125 # r) = join_on comma (map dump_pair d) @ 125 # r"
        "\<not> prefix [125] (join_on comma (map dump_pair d) @ 125 # r)"
        by (simp_all add: Cons join_on_Cons dump_pair_def json_str_def json_ws_def)
      ultimately show ?thesis by (simp add: n dumps_sorted [OF srt] del: dumps.simps)
    qed
  qed
next
  case PNone
  show ?case
    by (intro allI impI, case_tac n) (auto simp: lit_def read_word_def)
next
  case (PBool b)
  show ?case
    by (intro allI impI, case_tac n; cases b) (auto simp: lit_def read_word_def)
qed simp

section \<open>Documents come back\<close>

lemma loads_dumps:
  assumes "json_ok v"
  shows "loads fl (dumps v) = Some (rejoin v)"
proof -
  have "skip_ws (dumps v) = dumps v" using skip_ws_dumps [OF assms, of "[]"] by simp
  moreover have "read_value fl (json_fuel (dumps v)) (dumps v @ []) = Some (rejoin v, [])"
    using json_reads_back [OF assms, of fl, rule_format, of "[]" "json_fuel (dumps v)"]
    by (simp add: json_fuel_def del: read_value.simps)
  ultimately show ?thesis by (simp add: loads_def)
qed

lemma dumps_rejoin: "json_ok v \<Longrightarrow> dumps (rejoin v) = dumps v"
proof (induction v)
  case (PList vs)
  then have "map dumps (map rejoin vs) = map dumps vs" by auto
  then show ?case by (simp only: rejoin.simps dumps.simps)
next
  case (PDict d)
  have "map (\<lambda>(k, v). (k, dumps v)) (map (\<lambda>(k, v). (k, rejoin v)) d) = map (\<lambda>(k, v). (k, dumps v)) d"
    using PDict by fastforce
  then show ?case by (simp only: rejoin.simps dumps.simps)
qed (auto simp: json_str_def esc_str_join_surr)

lemma printable_json_str: "code_points s \<Longrightarrow> printable (json_str s)"
  by (simp add: json_str_def printable_esc_str)

lemma printable_join_on: "printable s \<Longrightarrow> \<forall>p \<in> set ps. printable p \<Longrightarrow> printable (join_on s ps)"
  by (induction ps) (auto simp: join_on_Cons)

lemma printable_py_str_int: "printable (py_str_int i)"
  using nat_digits_ascii by (fastforce simp: printable_def py_str_int_def)

lemma printable_comma: "printable comma"
  by (simp add: comma_eq)

lemma printable_dumps: "json_ok v \<Longrightarrow> printable (dumps v)"
proof (induction v)
  case (PInt i)
  then show ?case by (simp add: printable_py_str_int)
next
  case (PStr s)
  then show ?case by (simp add: printable_json_str)
next
  case (PList vs)
  then have "printable (join_on comma (map dumps vs))"
    using printable_comma by (intro printable_join_on) auto
  then show ?case by simp
next
  case (PDict d)
  then have "printable (join_on comma (map dump_pair d))"
    using printable_comma
    by (intro printable_join_on) (fastforce simp: dump_pair_def key_ok_def printable_json_str lit_def)+
  then show ?case using PDict.prems by (simp add: dumps_sorted del: dumps.simps)
qed (auto simp: lit_def)

end
