(* ===== verification/Audit_Log.thy ===== *)
theory Audit_Log
  imports Py_Json Interfaces
begin

text \<open>
  The audit log, \<open>broker/audit.py\<close>: the chained record and its line, \<open>record()\<close> with the
  disk failures it can meet, the recovery of the chain head at start, and \<open>verify_chain\<close>.

  The disk has the log and its sidecar \<open>.head\<close>, as bytes. A write may succeed, fail to open
  the file, or stop after some bytes; which of them is an argument of the operation. What the
  log prints is ASCII, so that encoding a line is the identity. A callback \<open>then\<close> is a
  function on whatever world it acts on. The reason strings of a \<open>ChainResult\<close> are
  constructors.
\<close>

section \<open>Data\<close>

definition GENESIS :: pystr where
  "GENESIS = replicate 64 48"

definition CHAINED_FIELDS :: "pystr list" where
  "CHAINED_FIELDS = [lit ''timestamp'', lit ''instance'', lit ''path'', lit ''operation'',
     lit ''grant_id'', lit ''decision'', lit ''reason'', lit ''principal'']"

text \<open>What reaches the caller: \<open>LogWriteError\<close>, the \<open>ValueError\<close> of a secret, and the
  exceptions the readers do not catch.\<close>

datatype audit_error = Log_write_error | Secret_in_value | Attribute_error | Type_error | Undecodable

datatype chain_error =
    No_such_file
  | Unreadable
  | Not_json nat
  | Prev_mismatch nat
  | Hash_mismatch nat
  | Checkpoint_unreadable
  | Checkpoint_mismatch
  | Checkpoint_count

record chain_result =
  cr_ok :: bool
  cr_error :: "chain_error option"
  cr_lines :: nat

record disk =
  log_file :: "nat list option"
  head_file :: "nat list option"
  log_readable :: bool
  head_readable :: bool

datatype write_outcome = Write_ok | Open_fails | Write_stops nat

text \<open>The attributes of an \<open>AuditLog\<close>, and the arguments of \<open>record\<close>.\<close>

record audit_log =
  al_prev :: pyval
  al_lines :: nat
  al_secrets :: "pystr list"

record audit_entry =
  e_instance :: pyval
  e_path :: pyval
  e_operation :: pystr
  e_grant_id :: "int option"
  e_decision :: pystr
  e_reason :: pystr
  e_principal :: "pystr option"

section \<open>Records\<close>

definition canonical :: "(pystr \<times> pyval) list \<Rightarrow> pystr" where
  "canonical d = dumps (PDict d)"

text \<open>\<open>{k: record[k] for k in _CHAINED_FIELDS if k in record}\<close>.\<close>

definition chained :: "(pystr \<times> pyval) list \<Rightarrow> (pystr \<times> pyval) list" where
  "chained d = concat (map (\<lambda>k. case map_of d k of None \<Rightarrow> [] | Some v \<Rightarrow> [(k, v)]) CHAINED_FIELDS)"

definition chain_payload :: "(pystr \<times> pyval) list \<Rightarrow> pystr" where
  "chain_payload d = canonical (chained d)"

definition check_secrets :: "pystr list \<Rightarrow> pyval list \<Rightarrow> bool" where
  "check_secrets secrets values \<longleftrightarrow>
     (\<forall>v \<in> set values. case v of PStr s \<Rightarrow> \<forall>secret \<in> set secrets. \<not> py_in secret s | _ \<Rightarrow> True)"

definition entry_dict :: "audit_entry \<Rightarrow> pystr \<Rightarrow> (pystr \<times> pyval) list" where
  "entry_dict e timestamp =
     [(lit ''timestamp'', PStr timestamp), (lit ''instance'', e_instance e), (lit ''path'', e_path e),
      (lit ''operation'', PStr (e_operation e)),
      (lit ''grant_id'', (case e_grant_id e of None \<Rightarrow> PNone | Some i \<Rightarrow> PInt i)),
      (lit ''decision'', PStr (e_decision e)), (lit ''reason'', PStr (e_reason e))]
     @ (case e_principal e of None \<Rightarrow> [] | Some p \<Rightarrow> [(lit ''principal'', PStr p)])"

definition entry_sha :: "audit_entry \<Rightarrow> pystr \<Rightarrow> pystr" where
  "entry_sha e timestamp = sha256_hex (chain_payload (entry_dict e timestamp))"

definition line_record :: "pyval \<Rightarrow> audit_entry \<Rightarrow> pystr \<Rightarrow> (pystr \<times> pyval) list" where
  "line_record prev e timestamp = entry_dict e timestamp
     @ [(lit ''prev_sha256'', prev), (lit ''sha256'', PStr (entry_sha e timestamp))]"

definition record_line :: "pyval \<Rightarrow> audit_entry \<Rightarrow> pystr \<Rightarrow> pystr" where
  "record_line prev e timestamp = canonical (line_record prev e timestamp) @ [10]"

definition head_text :: "pyval \<Rightarrow> nat \<Rightarrow> pystr" where
  "head_text prev n = canonical [(lit ''sha256'', prev), (lit ''lines'', PInt (int n))] @ [10]"

section \<open>Writing\<close>

text \<open>A file opened to append, and one opened to be replaced.\<close>

fun append_file :: "write_outcome \<Rightarrow> nat list \<Rightarrow> nat list option \<Rightarrow> bool \<times> nat list option" where
  "append_file Write_ok data f = (True, Some ((case f of None \<Rightarrow> [] | Some old \<Rightarrow> old) @ data))"
| "append_file Open_fails data f = (False, f)"
| "append_file (Write_stops n) data f =
     (False, Some ((case f of None \<Rightarrow> [] | Some old \<Rightarrow> old) @ take n data))"

fun replace_file :: "write_outcome \<Rightarrow> nat list \<Rightarrow> nat list option \<Rightarrow> bool \<times> nat list option" where
  "replace_file Write_ok data f = (True, Some data)"
| "replace_file Open_fails data f = (False, f)"
| "replace_file (Write_stops n) data f = (False, Some (take n data))"

text \<open>\<open>record\<close> up to the callback: no error, or the error it raises.\<close>

definition write_record ::
  "audit_entry \<Rightarrow> pystr \<Rightarrow> bool \<Rightarrow> write_outcome \<Rightarrow> write_outcome \<Rightarrow> audit_log \<Rightarrow> disk
     \<Rightarrow> audit_error option \<times> audit_log \<times> disk" where
  "write_record e timestamp fail_inject log_outcome head_outcome al d =
     (if \<not> check_secrets (al_secrets al)
           [e_instance e, e_path e, PStr (e_operation e), PStr (e_decision e), PStr (e_reason e)]
      then (Some Secret_in_value, al, d)
      else if fail_inject then (Some Log_write_error, al, d)
      else (case append_file log_outcome (record_line (al_prev al) e timestamp) (log_file d) of
              (False, lf) \<Rightarrow> (Some Log_write_error, al, d\<lparr>log_file := lf\<rparr>)
            | (True, lf) \<Rightarrow>
                (let al1 = al\<lparr>al_prev := PStr (entry_sha e timestamp), al_lines := Suc (al_lines al)\<rparr>;
                     d1 = d\<lparr>log_file := lf\<rparr>
                 in case replace_file head_outcome (head_text (al_prev al1) (al_lines al1)) (head_file d1) of
                      (False, hf) \<Rightarrow> (Some Log_write_error, al1, d1\<lparr>head_file := hf\<rparr>)
                    | (True, hf) \<Rightarrow> (None, al1, d1\<lparr>head_file := hf\<rparr>))))"

text \<open>\<open>record(..., then=f)\<close>: the callback runs on its world after both writes, or not at all;
  what it returns or raises is its result.\<close>

definition record_then ::
  "audit_entry \<Rightarrow> pystr \<Rightarrow> bool \<Rightarrow> write_outcome \<Rightarrow> write_outcome \<Rightarrow> ('w \<Rightarrow> 'r \<times> 'w) option
     \<Rightarrow> audit_log \<Rightarrow> disk \<Rightarrow> 'w \<Rightarrow> (audit_error + 'r option) \<times> audit_log \<times> disk \<times> 'w" where
  "record_then e timestamp fail_inject log_outcome head_outcome callback al d w =
     (case write_record e timestamp fail_inject log_outcome head_outcome al d of
        (Some err, al1, d1) \<Rightarrow> (Inl err, al1, d1, w)
      | (None, al1, d1) \<Rightarrow>
          (case callback of
             None \<Rightarrow> (Inr None, al1, d1, w)
           | Some f \<Rightarrow> (let (r, w1) = f w in (Inr (Some r), al1, d1, w1))))"

section \<open>Reading\<close>

text \<open>\<open>str.splitlines\<close>.\<close>

definition line_break :: "cp \<Rightarrow> bool" where
  "line_break c \<longleftrightarrow> c \<in> {10, 11, 12, 13, 28, 29, 30, 133, 8232, 8233}"

fun splitlines_from :: "pystr \<Rightarrow> pystr \<Rightarrow> pystr list" where
  "splitlines_from acc [] = (if acc = [] then [] else [rev acc])"
| "splitlines_from acc (c # s) =
     (if line_break c
      then rev acc # (if c = 13 \<and> prefix [10] s then splitlines_from [] (tl s) else splitlines_from [] s)
      else splitlines_from (c # acc) s)"

definition splitlines :: "pystr \<Rightarrow> pystr list" where
  "splitlines s = splitlines_from [] s"

definition nonblank_lines :: "pystr \<Rightarrow> pystr list" where
  "nonblank_lines s = filter (\<lambda>ln. py_strip ln \<noteq> []) (splitlines s)"

text \<open>Strict UTF-8: no part of the input is malformed.\<close>

function utf8_ok :: "nat list \<Rightarrow> bool" where
  "utf8_ok [] = True"
| "utf8_ok (b # bs) =
     (if b < 128 then utf8_ok bs
      else (case utf8_multi b bs of (c, rest) \<Rightarrow>
              (c \<noteq> 65533 \<or> b = 239 \<and> take 2 bs = [191, 189]) \<and> utf8_ok rest))"
  by pat_completeness auto
termination
  by (relation "measure length") (auto simp: utf8_multi_shrinks less_Suc_eq_le snd_def [symmetric]
      dest!: arg_cong [where f = snd])

text \<open>\<open>_load_last_hash\<close>: the stored hash of the last line and the number of lines.\<close>

definition load_last_hash :: "(pystr \<Rightarrow> pystr) \<Rightarrow> disk \<Rightarrow> audit_error + pyval \<times> nat" where
  "load_last_hash fl d =
     (case log_file d of
        None \<Rightarrow> Inr (PStr GENESIS, 0)
      | Some bytes \<Rightarrow>
          if \<not> log_readable d then Inl Log_write_error
          else if bytes = [] then Inr (PStr GENESIS, 0)
          else (let ls = nonblank_lines (utf8_decode bytes)
                in if ls = [] then Inr (PStr GENESIS, 0)
                   else (case loads fl (last ls) of
                           None \<Rightarrow> Inl Log_write_error
                         | Some (PDict r) \<Rightarrow>
                             (case map_of r (lit ''sha256'') of
                                None \<Rightarrow> Inl Log_write_error
                              | Some v \<Rightarrow> Inr (v, length ls))
                         | Some _ \<Rightarrow> Inl Type_error)))"

definition open_log :: "(pystr \<Rightarrow> pystr) \<Rightarrow> pystr list \<Rightarrow> disk \<Rightarrow> audit_error + audit_log" where
  "open_log fl secrets d =
     (case load_last_hash fl d of
        Inl e \<Rightarrow> Inl e
      | Inr (prev, n) \<Rightarrow> Inr \<lparr>al_prev = prev, al_lines = n, al_secrets = filter (\<lambda>s. s \<noteq> []) secrets\<rparr>)"

definition broken :: "chain_error \<Rightarrow> nat \<Rightarrow> chain_result" where
  "broken err n = \<lparr>cr_ok = False, cr_error = Some err, cr_lines = n\<rparr>"

text \<open>The loop of \<open>verify_chain\<close>: the first break, or the hash of the last record.\<close>

fun walk :: "(pystr \<Rightarrow> pystr) \<Rightarrow> nat \<Rightarrow> pystr \<Rightarrow> pystr list \<Rightarrow> audit_error + (chain_result + pystr)" where
  "walk fl i prev [] = Inr (Inr prev)"
| "walk fl i prev (ln # lns) =
     (case loads fl ln of
        None \<Rightarrow> Inr (Inl (broken (Not_json i) i))
      | Some (PDict r) \<Rightarrow>
          if dict_get r (lit ''prev_sha256'') \<noteq> PStr prev then Inr (Inl (broken (Prev_mismatch i) i))
          else (let recomputed = sha256_hex (chain_payload r)
                in if PStr recomputed \<noteq> dict_get r (lit ''sha256'')
                   then Inr (Inl (broken (Hash_mismatch i) i))
                   else walk fl (Suc i) recomputed lns)
      | Some _ \<Rightarrow> Inl Attribute_error)"

text \<open>\<open>v == n\<close> for a value of a document and an integer: a boolean is an integer and a float
  may be one.\<close>

definition equals_int :: "pyval \<Rightarrow> int \<Rightarrow> bool" where
  "equals_int v n \<longleftrightarrow> v = PInt n \<or> v = PBool True \<and> n = 1 \<or> v = PBool False \<and> n = 0
     \<or> v = PFloat (py_str_int n @ lit ''.0'')"

definition check_head :: "(pystr \<Rightarrow> pystr) \<Rightarrow> disk \<Rightarrow> pystr \<Rightarrow> nat \<Rightarrow> audit_error + chain_result" where
  "check_head fl d prev n =
     (case head_file d of
        None \<Rightarrow> Inr \<lparr>cr_ok = True, cr_error = None, cr_lines = n\<rparr>
      | Some bytes \<Rightarrow>
          if \<not> head_readable d \<or> \<not> utf8_ok bytes then Inr (broken Checkpoint_unreadable 0)
          else (case loads fl (py_strip (utf8_decode bytes)) of
                  None \<Rightarrow> Inr (broken Checkpoint_unreadable 0)
                | Some (PDict h) \<Rightarrow>
                    if dict_get h (lit ''sha256'') \<noteq> PStr prev then Inr (broken Checkpoint_mismatch 0)
                    else if \<not> equals_int (dict_get h (lit ''lines'')) (int n)
                    then Inr (broken Checkpoint_count 0)
                    else Inr \<lparr>cr_ok = True, cr_error = None, cr_lines = n\<rparr>
                | Some _ \<Rightarrow> Inl Attribute_error))"

definition verify_chain :: "(pystr \<Rightarrow> pystr) \<Rightarrow> disk \<Rightarrow> audit_error + chain_result" where
  "verify_chain fl d =
     (case log_file d of
        None \<Rightarrow> Inr (broken No_such_file 0)
      | Some bytes \<Rightarrow>
          if \<not> log_readable d then Inr (broken Unreadable 0)
          else if \<not> utf8_ok bytes then Inl Undecodable
          else (let ls = nonblank_lines (utf8_decode bytes)
                in case walk fl 1 GENESIS ls of
                     Inl e \<Rightarrow> Inl e
                   | Inr (Inl r) \<Rightarrow> Inr r
                   | Inr (Inr prev) \<Rightarrow> check_head fl d prev (length ls)))"

text \<open>A log opened where there are no files yet.\<close>

definition new_disk :: disk where
  "new_disk = \<lparr>log_file = None, head_file = None, log_readable = True, head_readable = True\<rparr>"

definition new_log :: "pystr list \<Rightarrow> audit_log" where
  "new_log secrets = \<lparr>al_prev = PStr GENESIS, al_lines = 0, al_secrets = secrets\<rparr>"

end
