(* ===== verification/Audit_Properties.thy ===== *)
theory Audit_Properties
  imports Audit_Log "HOL-Library.Multiset"
begin

text \<open>
  What the audit log of \<open>broker/audit.py\<close> promises: the records it writes form a chain that
  verifies, in every history and across restarts; the callback runs only after the record and
  the checkpoint are on disk; secrets are refused; an edit of one record and a lost tail are
  detected. And what it does not detect, as theorems too.
\<close>

section \<open>Objects with keys in any order\<close>

lemma sort_key_distinct:
  fixes d :: "(pystr \<times> 'b) list"
  assumes "distinct (map fst d)"
  shows "sorted_wrt (<) (map fst (sort_key fst d))" "set (sort_key fst d) = set d"
    "distinct (map fst (sort_key fst d))"
proof -
  have "mset (map fst (sort_key fst d)) = mset (map fst d)" by simp
  then show dist: "distinct (map fst (sort_key fst d))"
    using assms by (metis distinct_count_atmost_1 set_mset_mset)
  then show "sorted_wrt (<) (map fst (sort_key fst d))"
    by (simp add: strict_sorted_iff)
qed simp

lemma canonical_sort:
  assumes "distinct (map fst d)"
  shows "canonical d = canonical (sort_key fst d)"
proof -
  let ?g = "\<lambda>(k, v). (k, dumps v)"
  have f: "map fst (map ?g xs) = map fst xs" for xs by (induction xs) auto
  have "sort_key fst (map ?g d) = map ?g (sort_key fst d)"
  proof (rule properties_for_sort_key)
    show "mset (map ?g (sort_key fst d)) = mset (map ?g d)" by simp
    show "sorted (map fst (map ?g (sort_key fst d)))" by (simp only: f sorted_sort_key)
    show "filter (\<lambda>x. fst k = fst x) (map ?g (sort_key fst d)) = filter (\<lambda>x. fst k = fst x) (map ?g d)"
      if "k \<in> set (map ?g (sort_key fst d))" for k
      using sort_key_stable [of fst "fst k" d]
      by (simp add: filter_map comp_def case_prod_beta eq_commute [of "fst k"])
  qed
  moreover have "sort_key fst (map ?g (sort_key fst d)) = map ?g (sort_key fst d)"
    by (rule sort_key_id_if_sorted) (simp only: f sorted_sort_key)
  ultimately show ?thesis by (simp only: canonical_def dumps.simps)
qed

definition object_ok :: "(pystr \<times> pyval) list \<Rightarrow> bool" where
  "object_ok d \<longleftrightarrow> distinct (map fst d) \<and> (\<forall>(k, v) \<in> set d. key_ok k \<and> json_ok v)"

definition read_object :: "(pystr \<times> pyval) list \<Rightarrow> (pystr \<times> pyval) list" where
  "read_object d = map (\<lambda>(k, v). (k, rejoin v)) (sort_key fst d)"

lemma json_ok_sort: "object_ok d \<Longrightarrow> json_ok (PDict (sort_key fst d))"
  using sort_key_distinct [of d] by (auto simp: object_ok_def)

lemma loads_canonical: "object_ok d \<Longrightarrow> loads fl (canonical d) = Some (PDict (read_object d))"
  using loads_dumps [OF json_ok_sort, of d fl] canonical_sort [of d]
  by (simp add: canonical_def read_object_def object_ok_def)

lemma printable_canonical: "object_ok d \<Longrightarrow> printable (canonical d)"
  using printable_dumps [OF json_ok_sort, of d] canonical_sort [of d]
  by (simp add: canonical_def object_ok_def)

lemma map_of_read_object:
  assumes "object_ok d"
  shows "map_of (read_object d) k = map_option rejoin (map_of d k)"
proof -
  have "map_of (sort_key fst d) = map_of d"
    using sort_key_distinct [of d] assms map_of_inject_set [of "sort_key fst d" d]
    by (simp add: object_ok_def)
  then show ?thesis by (simp add: read_object_def map_of_map)
qed

lemma dict_get_read_object:
  "object_ok d \<Longrightarrow> dict_get (read_object d) k = rejoin (dict_get d k)"
  by (simp add: dict_get_def map_of_read_object split: option.split)

lemma chained_rejoin:
  assumes "\<forall>k. map_of d' k = map_option rejoin (map_of d k)"
  shows "chained d' = map (\<lambda>(k, v). (k, rejoin v)) (chained d)"
proof -
  have "concat (map (\<lambda>k. case map_of d' k of None \<Rightarrow> [] | Some v \<Rightarrow> [(k, v)]) ks)
      = map (\<lambda>(k, v). (k, rejoin v)) (concat (map (\<lambda>k. case map_of d k of None \<Rightarrow> [] | Some v \<Rightarrow> [(k, v)]) ks))"
    for ks using assms by (induction ks) (auto split: option.split)
  then show ?thesis by (simp add: chained_def)
qed

lemma set_chained: "(k, v) \<in> set (chained d) \<Longrightarrow> (k, v) \<in> set d"
  by (auto simp: chained_def split: option.splits) (metis map_of_SomeD)

lemma chain_payload_read_object:
  assumes "object_ok d"
  shows "chain_payload (read_object d) = chain_payload d"
proof -
  have ch: "chained (read_object d) = map (\<lambda>(k, v). (k, rejoin v)) (chained d)"
    using map_of_read_object [OF assms] by (intro chained_rejoin) blast
  have "\<forall>(k, v) \<in> set (chained d). json_ok v"
    using assms set_chained by (fastforce simp: object_ok_def)
  then have "map (\<lambda>(k, v). (k, dumps v)) (map (\<lambda>(k, v). (k, rejoin v)) (chained d))
      = map (\<lambda>(k, v). (k, dumps v)) (chained d)"
    using dumps_rejoin by fastforce
  then show ?thesis by (simp only: chain_payload_def canonical_def ch dumps.simps)
qed

section \<open>The line of a record\<close>

text \<open>The arguments are Python values: code points in range, an integer \<open>int\<close> can read.\<close>

definition entry_ok :: "audit_entry \<Rightarrow> bool" where
  "entry_ok e \<longleftrightarrow> json_ok (e_instance e) \<and> json_ok (e_path e) \<and> code_points (e_operation e)
     \<and> code_points (e_decision e) \<and> code_points (e_reason e)
     \<and> (\<forall>i. e_grant_id e = Some i \<longrightarrow> json_ok (PInt i))
     \<and> (\<forall>p. e_principal e = Some p \<longrightarrow> code_points p)"

lemma sha256_code_points: "code_points (sha256_hex bs)"
  using sha256_hex_ascii by (fastforce simp: code_points_def)

lemma join_surr_ascii: "\<forall>c \<in> set s. c < 55296 \<Longrightarrow> join_surr s = s"
  by (induction s rule: join_surr.induct) (auto simp: is_high_def)

lemma key_ok_lit: "key_ok (lit s)"
proof -
  have "\<forall>c \<in> set (lit s). c < 256" using lit_ascii by blast
  then show ?thesis
    by (auto simp: key_ok_def code_points_def intro!: join_surr_ascii)
qed

lemma sha256_join: "join_surr (sha256_hex bs) = sha256_hex bs"
  using sha256_hex_ascii by (intro join_surr_ascii) fastforce

lemma lit_eq [simp]: "lit s = lit t \<longleftrightarrow> s = t"
proof -
  have "inj (of_char :: char \<Rightarrow> nat)" by (rule injI) simp
  then show ?thesis by (simp add: lit_def inj_map_eq_map)
qed

lemma object_ok_entry: "entry_ok e \<Longrightarrow> code_points ts \<Longrightarrow> object_ok (entry_dict e ts)"
  by (auto simp: object_ok_def entry_dict_def key_ok_lit entry_ok_def split: option.splits)

lemma object_ok_line:
  "entry_ok e \<Longrightarrow> code_points ts \<Longrightarrow> json_ok prev \<Longrightarrow> object_ok (line_record prev e ts)"
  using sha256_code_points
  by (auto simp: object_ok_def entry_dict_def line_record_def key_ok_lit entry_ok_def entry_sha_def
      split: option.splits)

lemma chain_payload_line: "chain_payload (line_record prev e ts) = chain_payload (entry_dict e ts)"
proof -
  have "map_of (line_record prev e ts) k = map_of (entry_dict e ts) k" if "k \<in> set CHAINED_FIELDS" for k
    using that
    by (cases "e_principal e") (auto simp: line_record_def entry_dict_def CHAINED_FIELDS_def)
  then have "chained (line_record prev e ts) = chained (entry_dict e ts)"
    unfolding chained_def by (intro arg_cong [where f = concat] map_cong) auto
  then show ?thesis by (simp add: chain_payload_def)
qed

lemma line_fields:
  "dict_get (line_record prev e ts) (lit ''prev_sha256'') = prev"
  "dict_get (line_record prev e ts) (lit ''sha256'') = PStr (entry_sha e ts)"
  by (auto simp: dict_get_def line_record_def entry_dict_def split: option.split)

section \<open>Lines of a file\<close>

lemma canonical_head: "\<exists>t. canonical d = 123 # t"
  by (simp add: canonical_def)

text \<open>A line the log can hold: printable, starting with a brace.\<close>

definition log_line :: "pystr \<Rightarrow> bool" where
  "log_line ln \<longleftrightarrow> printable ln \<and> (\<exists>t. ln = 123 # t)"

definition file_text :: "pystr list \<Rightarrow> pystr" where
  "file_text ls = concat (map (\<lambda>ln. ln @ [10]) ls)"

lemma file_text_simps [simp]:
  "file_text [] = []" "file_text (ln # ls) = ln @ [10] @ file_text ls"
  "file_text (ls @ ms) = file_text ls @ file_text ms"
  by (simp_all add: file_text_def)

lemma log_line_canonical: "object_ok d \<Longrightarrow> log_line (canonical d)"
  using printable_canonical canonical_head by (simp add: log_line_def)

lemma printable_no_break: "printable s \<Longrightarrow> c \<in> set s \<Longrightarrow> \<not> line_break c"
  by (auto simp: printable_def line_break_def)

lemma splitlines_line:
  assumes "\<forall>c \<in> set ln. \<not> line_break c"
  shows "splitlines_from acc (ln @ 10 # s) = (rev acc @ ln) # splitlines_from [] s"
  using assms by (induction ln arbitrary: acc) (auto simp: line_break_def)

lemma splitlines_file: "\<forall>ln \<in> set ls. log_line ln \<Longrightarrow> splitlines (file_text ls) = ls"
proof (induction ls)
  case (Cons ln ls)
  then have "\<forall>c \<in> set ln. \<not> line_break c"
    using printable_no_break by (auto simp: log_line_def)
  with Cons splitlines_line [of ln "[]" "file_text ls"] show ?case by (simp add: splitlines_def)
qed (simp add: splitlines_def)

lemma nonblank_file:
  assumes "\<forall>ln \<in> set ls. log_line ln"
  shows "nonblank_lines (file_text ls) = ls"
proof -
  have "py_strip ln \<noteq> []" if "ln \<in> set ls" for ln
    using assms that by (auto simp: log_line_def py_strip_empty_iff py_isspace_def)
  then show ?thesis
    by (simp add: nonblank_lines_def splitlines_file [OF assms])
qed

lemma file_ascii: "\<forall>ln \<in> set ls. log_line ln \<Longrightarrow> \<forall>c \<in> set (file_text ls). c < 128"
  by (induction ls) (auto simp: log_line_def printable_def)

lemma utf8_ok_ascii: "\<forall>c \<in> set bs. c < 128 \<Longrightarrow> utf8_ok bs"
  by (induction bs) auto

lemmas file_decodes = file_ascii [THEN utf8_decode_ascii] file_ascii [THEN utf8_ok_ascii]

lemma file_text_empty: "file_text ls = [] \<longleftrightarrow> ls = []"
  by (cases ls) auto

section \<open>The chain\<close>

lemma walk_append:
  "walk fl i prev (ls @ ms) =
     (case walk fl i prev ls of Inr (Inr h) \<Rightarrow> walk fl (i + length ls) h ms | r \<Rightarrow> r)"
  by (induction ls arbitrary: i prev) (auto split: option.split pyval.split sum.split simp: Let_def)

lemma loads_line:
  assumes "entry_ok e" "code_points ts" "json_ok prev"
  shows "loads fl (canonical (line_record prev e ts)) = Some (PDict (read_object (line_record prev e ts)))"
    "chain_payload (read_object (line_record prev e ts)) = chain_payload (entry_dict e ts)"
    "dict_get (read_object (line_record prev e ts)) (lit ''prev_sha256'') = rejoin prev"
    "dict_get (read_object (line_record prev e ts)) (lit ''sha256'') = PStr (entry_sha e ts)"
  using object_ok_line [OF assms]
  by (simp_all add: loads_canonical chain_payload_read_object chain_payload_line
      dict_get_read_object line_fields entry_sha_def sha256_join)

text \<open>A hash as the chain stores it.\<close>

definition hash_text :: "pystr \<Rightarrow> bool" where
  "hash_text h \<longleftrightarrow> code_points h \<and> join_surr h = h"

lemma hash_text_GENESIS: "hash_text GENESIS"
  by (simp add: hash_text_def GENESIS_def code_points_def join_surr_ascii)

lemma hash_text_sha: "hash_text (sha256_hex bs)"
  by (simp add: hash_text_def sha256_code_points sha256_join)

lemma walk_record:
  assumes "entry_ok e" "code_points ts" "hash_text h"
  shows "walk fl i h [canonical (line_record (PStr h) e ts)] = Inr (Inr (entry_sha e ts))"
  using assms(3) loads_line [OF assms(1,2), of "PStr h"]
  by (simp add: hash_text_def Let_def entry_sha_def)

text \<open>The log on disk is a chain with the given lines and head.\<close>

definition chain_on_disk :: "(pystr \<Rightarrow> pystr) \<Rightarrow> disk \<Rightarrow> pystr list \<Rightarrow> pystr \<Rightarrow> bool" where
  "chain_on_disk fl d ls h \<longleftrightarrow> log_readable d \<and> head_readable d \<and> hash_text h
     \<and> (log_file d = Some (file_text ls) \<or> log_file d = None \<and> ls = [])
     \<and> (\<forall>ln \<in> set ls. log_line ln) \<and> walk fl 1 GENESIS ls = Inr (Inr h)
     \<and> (ls \<noteq> [] \<longrightarrow> (\<exists>r. loads fl (last ls) = Some (PDict r) \<and> map_of r (lit ''sha256'') = Some (PStr h)))"

definition audit_inv :: "(pystr \<Rightarrow> pystr) \<Rightarrow> audit_log \<times> disk \<Rightarrow> bool" where
  "audit_inv fl st \<longleftrightarrow> (case st of (al, d) \<Rightarrow>
     \<exists>ls h. chain_on_disk fl d ls h \<and> al_prev al = PStr h \<and> al_lines al = length ls)"

lemma head_object_ok:
  "hash_text h \<Longrightarrow> n < 10 ^ MAX_STR_DIGITS \<Longrightarrow> object_ok [(lit ''sha256'', PStr h), (lit ''lines'', PInt (int n))]"
  using length_nat_digits [of n MAX_STR_DIGITS]
  by (simp add: object_ok_def key_ok_lit hash_text_def MAX_STR_DIGITS_def del: power_numeral)

lemma check_head_ok:
  assumes "head_file d = Some (head_text (PStr h) n)" "head_readable d" "hash_text h" "n < 10 ^ MAX_STR_DIGITS"
  shows "check_head fl d h n = Inr \<lparr>cr_ok = True, cr_error = None, cr_lines = n\<rparr>"
proof -
  let ?o = "[(lit ''sha256'', PStr h), (lit ''lines'', PInt (int n))]"
  let ?c = "canonical ?o"
  have ok: "object_ok ?o" using head_object_ok assms(3,4) by blast
  have line: "log_line ?c" using log_line_canonical [OF ok] .
  have ht: "head_text (PStr h) n = file_text [?c]" by (simp add: head_text_def)
  have dec: "utf8_decode (head_text (PStr h) n) = ?c @ [10]" "utf8_ok (head_text (PStr h) n)"
    using file_decodes [of "[?c]"] line unfolding ht by auto
  have last: "?c \<noteq> [] \<and> last ?c = 125" "hd ?c = 123" by (simp_all add: canonical_def)
  have "py_strip (?c @ [10]) = ?c"
    using last py_strip_snoc_space [of 10 ?c] py_strip_id [of ?c] by (auto simp: py_isspace_def)
  then show ?thesis
    using assms dec loads_canonical [OF ok, of fl] dict_get_read_object [OF ok]
    by (simp add: check_head_def hash_text_def equals_int_def dict_get_def [of ?o])
qed

section \<open>Recording\<close>

text \<open>What one call of \<open>record\<close> does to the log and the disk.\<close>

lemma write_record_cases:
  assumes "write_record e ts inject lo ho al d = (err, al', d')"
  obtains (refused) "err = Some Secret_in_value \<or> err = Some Log_write_error" "al' = al" "d' = d"
    | (stopped) "err = Some Log_write_error" "al' = al" "lo \<noteq> Write_ok"
        "d' = d\<lparr>log_file := snd (append_file lo (record_line (al_prev al) e ts) (log_file d))\<rparr>"
    | (appended) "lo = Write_ok" "err = None \<longleftrightarrow> ho = Write_ok"
        "al' = al\<lparr>al_prev := PStr (entry_sha e ts), al_lines := Suc (al_lines al)\<rparr>"
        "d' = d\<lparr>log_file := Some ((case log_file d of None \<Rightarrow> [] | Some old \<Rightarrow> old) @ record_line (al_prev al) e ts),
               head_file := snd (replace_file ho (head_text (PStr (entry_sha e ts)) (Suc (al_lines al))) (head_file d))\<rparr>"
        "check_secrets (al_secrets al)
           [e_instance e, e_path e, PStr (e_operation e), PStr (e_decision e), PStr (e_reason e)]"
proof -
  consider "\<not> check_secrets (al_secrets al)
      [e_instance e, e_path e, PStr (e_operation e), PStr (e_decision e), PStr (e_reason e)] \<or> inject"
    | "lo \<noteq> Write_ok" "check_secrets (al_secrets al)
      [e_instance e, e_path e, PStr (e_operation e), PStr (e_decision e), PStr (e_reason e)]" "\<not> inject"
    | "lo = Write_ok" "check_secrets (al_secrets al)
      [e_instance e, e_path e, PStr (e_operation e), PStr (e_decision e), PStr (e_reason e)]" "\<not> inject"
    by blast
  then show thesis
  proof cases
    case 1
    with assms show thesis by (intro refused) (auto simp: write_record_def split: if_splits)
  next
    case 2
    with assms show thesis
      by (cases lo) (auto simp: write_record_def intro!: stopped)
  next
    case 3
    with assms show thesis
      by (cases ho) (auto simp: write_record_def Let_def intro!: appended)
  qed
qed

lemma chain_appended:
  assumes "chain_on_disk fl d ls h" "al_prev al = PStr h" "entry_ok e" "code_points ts"
  defines "ln \<equiv> canonical (line_record (PStr h) e ts)"
  shows "chain_on_disk fl (d\<lparr>log_file := Some ((case log_file d of None \<Rightarrow> [] | Some old \<Rightarrow> old)
      @ record_line (al_prev al) e ts), head_file := hf\<rparr>) (ls @ [ln]) (entry_sha e ts)"
proof -
  have h: "hash_text h" "json_ok (PStr h)" "walk fl 1 GENESIS ls = Inr (Inr h)"
    using assms(1) by (auto simp: chain_on_disk_def hash_text_def)
  have "walk fl 1 GENESIS (ls @ [ln]) = Inr (Inr (entry_sha e ts))"
    using walk_record [OF assms(3,4) h(1)] h(3) by (simp add: walk_append ln_def del: walk.simps)
  moreover have "log_line ln"
    using log_line_canonical [OF object_ok_line [OF assms(3,4) h(2)]] by (simp add: ln_def)
  moreover have "\<exists>r. loads fl ln = Some (PDict r) \<and> map_of r (lit ''sha256'') = Some (PStr (entry_sha e ts))"
    using loads_line(1,4) [OF assms(3,4) h(2)] map_of_read_object [OF object_ok_line [OF assms(3,4) h(2)]]
    by (auto simp: ln_def dict_get_def split: option.splits)
  moreover have "(case log_file d of None \<Rightarrow> [] | Some old \<Rightarrow> old) @ record_line (al_prev al) e ts = file_text (ls @ [ln])"
    using assms(1,2) by (auto simp: chain_on_disk_def record_line_def ln_def)
  ultimately show ?thesis
    using assms(1) hash_text_sha by (auto simp: chain_on_disk_def entry_sha_def)
qed

lemma load_last_hash_chain:
  assumes "chain_on_disk fl d ls h"
  shows "load_last_hash fl d = Inr (PStr (if ls = [] then GENESIS else h), length ls)"
    "ls = [] \<Longrightarrow> h = GENESIS"
proof -
  note c = assms [unfolded chain_on_disk_def]
  have "utf8_decode (file_text ls) = file_text ls" "nonblank_lines (file_text ls) = ls"
    using c nonblank_file file_decodes(1) by auto
  then show "load_last_hash fl d = Inr (PStr (if ls = [] then GENESIS else h), length ls)"
    using c by (auto simp: load_last_hash_def file_text_empty Let_def)
  show "ls = [] \<Longrightarrow> h = GENESIS" using c by auto
qed

lemma verify_chain_on_disk:
  assumes "chain_on_disk fl d ls h" "ls \<noteq> []"
  shows "verify_chain fl d = check_head fl d h (length ls)"
proof -
  note c = assms(1) [unfolded chain_on_disk_def]
  have "utf8_decode (file_text ls) = file_text ls" "nonblank_lines (file_text ls) = ls" "utf8_ok (file_text ls)"
    using c nonblank_file file_decodes by auto
  then show ?thesis using c assms(2) by (auto simp: verify_chain_def Let_def)
qed

section \<open>Histories of one log\<close>

text \<open>Calls of \<open>record\<close> in which the log opens or does not (a write of the log that stops in
  the middle is treated below), whatever happens to the checkpoint, and restarts.\<close>

datatype audit_op =
    Record audit_entry pystr bool bool write_outcome
  | Reopen

fun exec_audit :: "(pystr \<Rightarrow> pystr) \<Rightarrow> audit_op \<Rightarrow> audit_log \<times> disk \<Rightarrow> audit_log \<times> disk" where
  "exec_audit fl (Record e ts inject opens ho) (al, d) =
     snd (write_record e ts inject (if opens then Write_ok else Open_fails) ho al d)"
| "exec_audit fl Reopen (al, d) =
     (case open_log fl (al_secrets al) d of Inl _ \<Rightarrow> (al, d) | Inr al' \<Rightarrow> (al', d))"

fun legal_audit :: "audit_op \<Rightarrow> bool" where
  "legal_audit (Record e ts inject opens ho) = (entry_ok e \<and> code_points ts)"
| "legal_audit Reopen = True"

lemma audit_inv_record:
  assumes "audit_inv fl (al, d)" "entry_ok e" "code_points ts"
    and "write_record e ts inject lo ho al d = (err, al', d')" "lo = Write_ok \<or> lo = Open_fails"
  shows "audit_inv fl (al', d')"
proof -
  obtain ls h where c: "chain_on_disk fl d ls h" "al_prev al = PStr h" "al_lines al = length ls"
    using assms(1) by (auto simp: audit_inv_def)
  from assms(4) show ?thesis
  proof (cases rule: write_record_cases)
    case refused
    with assms(1) show ?thesis by simp
  next
    case stopped
    with assms(1,5) show ?thesis by auto
  next
    case appended
    from chain_appended [OF c(1,2) assms(2,3)] c(3) show ?thesis
      unfolding appended(3,4) audit_inv_def by (auto intro!: exI [of _ "ls @ [_]"])
  qed
qed

lemma audit_inv_reopen:
  assumes "audit_inv fl (al, d)"
  shows "exec_audit fl Reopen (al, d) = (al\<lparr>al_secrets := filter (\<lambda>s. s \<noteq> []) (al_secrets al)\<rparr>, d)"
proof -
  obtain ls h where c: "chain_on_disk fl d ls h" "al_prev al = PStr h" "al_lines al = length ls"
    using assms by (auto simp: audit_inv_def)
  then show ?thesis
    using load_last_hash_chain [OF c(1)] by (auto simp: open_log_def)
qed

lemma audit_inv_step: "legal_audit op \<Longrightarrow> audit_inv fl st \<Longrightarrow> audit_inv fl (exec_audit fl op st)"
proof (cases op)
  case (Record e ts inject opens ho)
  assume "legal_audit op" "audit_inv fl st"
  with Record show ?thesis
    using audit_inv_record [of fl "fst st" "snd st" e ts inject "if opens then Write_ok else Open_fails" ho]
    by (cases st) (metis exec_audit.simps(1) fst_conv legal_audit.simps(1) prod.collapse snd_conv)
next
  case Reopen
  assume "audit_inv fl st"
  with Reopen audit_inv_reopen [of fl "fst st" "snd st"] show ?thesis
    by (cases st) (auto simp: audit_inv_def)
qed

interpretation audit_chain: checked_system "exec_audit fl" "audit_inv fl" legal_audit for fl
  by unfold_locales (rule audit_inv_step)

lemma audit_inv_new: "audit_inv fl (new_log secrets, new_disk)"
  using hash_text_GENESIS
  by (simp add: audit_inv_def new_log_def new_disk_def chain_on_disk_def)

section \<open>The log verifies\<close>


text \<open>Witness: the first record of a new log.\<close>

definition example_entry :: audit_entry where
  "example_entry = \<lparr>e_instance = PStr (lit ''home''), e_path = PStr (lit ''docs/x''),
     e_operation = lit ''read'', e_grant_id = None, e_decision = lit ''allowed'',
     e_reason = lit ''granted read'', e_principal = Some (lit ''agent'')\<rparr>"

lemma code_points_lit: "code_points (lit s)"
  using key_ok_lit by (simp add: key_ok_def)

lemma example_entry_ok: "entry_ok example_entry"
  by (simp add: entry_ok_def example_entry_def code_points_lit)

lemma example_no_secrets:
  "check_secrets [lit ''hunter2''] [e_instance example_entry, e_path example_entry,
     PStr (e_operation example_entry), PStr (e_decision example_entry), PStr (e_reason example_entry)]"
  by (simp add: check_secrets_def example_entry_def lit_def sublist_Cons_right)

lemma example_record:
  obtains al' d' where "write_record example_entry (lit ''t0'') False Write_ok Write_ok
      (new_log [lit ''hunter2'']) new_disk = (None, al', d')" "al_lines al' = 1"
  using example_no_secrets by (simp add: write_record_def new_log_def Let_def)


section \<open>Write before operate\<close>

definition log_bytes :: "disk \<Rightarrow> nat list" where
  "log_bytes d = (case log_file d of None \<Rightarrow> [] | Some bytes \<Rightarrow> bytes)"

lemma append_file_prefix: "prefix (case f of None \<Rightarrow> [] | Some old \<Rightarrow> old)
    (case snd (append_file lo data f) of None \<Rightarrow> [] | Some new \<Rightarrow> new)"
  by (cases lo) auto

text \<open>C17: whatever the disk does, the callback of \<open>record\<close> runs only when the whole record
  has been appended to the log and the checkpoint replaced, and no recorded field holds a
  configured secret; in every other case the call raises, the callback has not run and its
  world is untouched. The log is only ever appended to.\<close>

theorem write_before_operate:
  assumes "record_then e ts inject lo ho (Some f) al d w = (res, al', d', w')"
  shows "prefix (log_bytes d) (log_bytes d')
    \<and> ((\<exists>r. res = Inr (Some r) \<and> f w = (r, w') \<and> \<not> inject
          \<and> log_bytes d' = log_bytes d @ record_line (al_prev al) e ts
          \<and> head_file d' = Some (head_text (PStr (entry_sha e ts)) (Suc (al_lines al)))
          \<and> (\<forall>secret \<in> set (al_secrets al). \<forall>s \<in> {e_operation e, e_decision e, e_reason e}
               \<union> {s. PStr s = e_instance e \<or> PStr s = e_path e}. \<not> py_in secret s))
      \<or> (\<exists>err. res = Inl err \<and> w' = w))"
proof -
  obtain err al1 d1 where wr: "write_record e ts inject lo ho al d = (err, al1, d1)"
    using prod_cases3 by blast
  have res: "(case err of Some x \<Rightarrow> res = Inl x \<and> w' = w | None \<Rightarrow> \<exists>r. res = Inr (Some r) \<and> f w = (r, w'))"
    "d' = d1"
    using assms wr by (auto simp: record_then_def Let_def split: option.splits prod.splits)
  from wr show ?thesis
  proof (cases rule: write_record_cases)
    case refused
    with res show ?thesis by auto
  next
    case stopped
    with res append_file_prefix [of "log_file d" lo "record_line (al_prev al) e ts"]
    show ?thesis by (auto simp: log_bytes_def)
  next
    case appended
    have inj: "err = None \<Longrightarrow> \<not> inject" using wr by (auto simp: write_record_def split: if_splits)
    have pre: "prefix (log_bytes d) (log_bytes d')" "log_bytes d' = log_bytes d @ record_line (al_prev al) e ts"
      using res(2) by (auto simp: log_bytes_def appended(4))
    have sec: "\<forall>secret \<in> set (al_secrets al). \<forall>s \<in> {e_operation e, e_decision e, e_reason e}
               \<union> {s. PStr s = e_instance e \<or> PStr s = e_path e}. \<not> py_in secret s"
      using appended(5) by (auto simp: check_secrets_def split: pyval.splits)
    show ?thesis
    proof (cases err)
      case None
      then have "ho = Write_ok" using appended(2) by simp
      with None res pre sec inj show ?thesis by (auto simp: appended(4))
    qed (use res(1) pre in auto)
  qed
qed

text \<open>Witness: a callback that would count, once with a working disk and once with a failing
  checkpoint.\<close>

theorem write_before_operate_witness:
  "\<exists>res al' d' w'. record_then example_entry (lit ''t0'') False Write_ok Open_fails
     (Some (\<lambda>n :: nat. ((), Suc n))) (new_log []) new_disk 0 = (res, al', d', w')
   \<and> ((\<exists>r. res = Inr (Some r)) \<or> (\<exists>err. res = Inl err \<and> w' = 0))"
proof -
  obtain res al' d' w' where r: "record_then example_entry (lit ''t0'') False Write_ok Open_fails
     (Some (\<lambda>n :: nat. ((), Suc n))) (new_log []) new_disk 0 = (res, al', d', w')"
    using prod_cases4 by blast
  from write_before_operate [OF r] r show ?thesis by auto
qed

section \<open>Tampering\<close>

definition accepted :: "audit_error + chain_result \<Rightarrow> bool" where
  "accepted res \<longleftrightarrow> (\<exists>n. res = Inr \<lparr>cr_ok = True, cr_error = None, cr_lines = n\<rparr>)"

lemma accepted_broken [simp]: "\<not> accepted (Inr (broken err n))" "\<not> accepted (Inl e)"
  by (simp_all add: accepted_def broken_def)

definition with_log :: "pystr list \<Rightarrow> disk \<Rightarrow> disk" where
  "with_log ls d = d\<lparr>log_file := Some (file_text ls)\<rparr>"

lemma verify_with_log:
  assumes "\<forall>ln \<in> set ls. log_line ln" "log_readable d"
  shows "verify_chain fl (with_log ls d) =
    (case walk fl 1 GENESIS ls of
       Inl e \<Rightarrow> Inl e | Inr (Inl r) \<Rightarrow> Inr r | Inr (Inr prev) \<Rightarrow> check_head fl d prev (length ls))"
proof -
  have "check_head fl (with_log ls d) p n = check_head fl d p n" for p n
    by (simp add: check_head_def with_log_def cong: option.case_cong)
  then show ?thesis
    using assms file_decodes [OF assms(1)] nonblank_file [OF assms(1)]
    by (simp add: verify_chain_def with_log_def Let_def split: sum.split)
qed

lemma walk_rejects: "walk fl i prev ls = Inr (Inl r) \<Longrightarrow> \<not> cr_ok r"
  by (induction ls arbitrary: i prev) (auto simp: broken_def Let_def split: option.splits pyval.splits if_splits)

lemma accepted_walk:
  assumes "\<forall>ln \<in> set ls. log_line ln" "log_readable d" "accepted (verify_chain fl (with_log ls d))"
  obtains prev where "walk fl 1 GENESIS ls = Inr (Inr prev)" "accepted (check_head fl d prev (length ls))"
  using assms(3) verify_with_log [OF assms(1,2), of fl] walk_rejects [of fl 1 GENESIS ls]
  by (auto simp: accepted_def split: sum.splits)

lemma accepted_head:
  assumes "accepted (check_head fl d prev n)" "head_file d \<noteq> None"
  obtains h where "dict_get h (lit ''sha256'') = PStr prev" "equals_int (dict_get h (lit ''lines'')) (int n)"
    "\<And>p m. check_head fl d p m =
       (if dict_get h (lit ''sha256'') \<noteq> PStr p then Inr (broken Checkpoint_mismatch 0)
        else if \<not> equals_int (dict_get h (lit ''lines'')) (int m) then Inr (broken Checkpoint_count 0)
        else Inr \<lparr>cr_ok = True, cr_error = None, cr_lines = m\<rparr>)"
proof -
  obtain bytes where b: "head_file d = Some bytes" using assms(2) by blast
  have ok: "head_readable d \<and> utf8_ok bytes"
    using assms(1) b by (auto simp: check_head_def split: if_splits)
  obtain h where h: "loads fl (py_strip (utf8_decode bytes)) = Some (PDict h)"
    using assms(1) b ok by (auto simp: check_head_def split: option.splits pyval.splits)
  then show thesis
    using that [of h] assms(1) b ok by (auto simp: check_head_def split: if_splits)
qed

lemma py_str_int_inj: "py_str_int (int n) = py_str_int (int m) \<Longrightarrow> n = m"
proof -
  assume "py_str_int (int n) = py_str_int (int m)"
  then have "nat_digits n = nat_digits m" by (simp add: py_str_int_def)
  then have "py_int_of_digits (nat_digits n) = py_int_of_digits (nat_digits m)" by (rule arg_cong)
  then show "n = m" unfolding py_int_nat_digits by simp
qed

lemma equals_int_unique: "equals_int v (int n) \<Longrightarrow> equals_int v (int m) \<Longrightarrow> n = m"
  unfolding equals_int_def using py_str_int_inj [of n m] by (elim disjE conjE) simp_all

text \<open>One checkpoint accepts one head and one count.\<close>

lemma accepted_heads_agree:
  assumes "accepted (check_head fl d p n)" "accepted (check_head fl d q m)" "head_file d \<noteq> None"
  shows "p = q \<and> n = m"
  using assms(1,3)
proof (rule accepted_head)
  fix h
  assume h: "dict_get h (lit ''sha256'') = PStr p" "equals_int (dict_get h (lit ''lines'')) (int n)"
    "\<And>p m. check_head fl d p m =
       (if dict_get h (lit ''sha256'') \<noteq> PStr p then Inr (broken Checkpoint_mismatch 0)
        else if \<not> equals_int (dict_get h (lit ''lines'')) (int m) then Inr (broken Checkpoint_count 0)
        else Inr \<lparr>cr_ok = True, cr_error = None, cr_lines = m\<rparr>)"
  then show ?thesis using assms(2) equals_int_unique [of _ n m] by (auto split: if_splits)
qed

text \<open>The step of the walk over one object.\<close>

lemma walk_object:
  assumes "loads fl ln = Some (PDict r)" "walk fl i prev (ln # ls) = Inr (Inr h)"
  shows "dict_get r (lit ''prev_sha256'') = PStr prev"
    "dict_get r (lit ''sha256'') = PStr (sha256_hex (chain_payload r))"
    "walk fl (Suc i) (sha256_hex (chain_payload r)) ls = Inr (Inr h)"
  using assms by (auto simp: Let_def split: if_splits)

lemma walk_first_prev:
  assumes "walk fl i p ls = Inr (Inr h)" "walk fl j q ls = Inr (Inr k)" "p \<noteq> q"
  shows "ls = []"
proof (cases ls)
  case (Cons ln lns)
  obtain r where r: "loads fl ln = Some (PDict r)"
    using assms(1) Cons by (auto split: option.splits pyval.splits)
  from walk_object(1) [OF r assms(1) [unfolded Cons]] walk_object(1) [OF r assms(2) [unfolded Cons]] assms(3)
  show ?thesis by simp
qed

lemma walk_prefix:
  assumes "walk fl i p (ls @ ms) = Inr (Inr h)"
  obtains q where "walk fl i p ls = Inr (Inr q)" "walk fl (i + length ls) q ms = Inr (Inr h)"
  using assms by (auto simp: walk_append split: sum.splits)

text \<open>What an edit cannot avoid: two payloads with one hash.\<close>

definition collision :: "pystr \<Rightarrow> pystr \<Rightarrow> bool" where
  "collision p q \<longleftrightarrow> p \<noteq> q \<and> sha256_hex p = sha256_hex q"

definition rejected :: "audit_error + chain_result \<Rightarrow> bool" where
  "rejected res \<longleftrightarrow> \<not> accepted res"


text \<open>Witness: the operation of the only record of a log is changed from read to trash.\<close>

definition example_line :: "pystr \<Rightarrow> pystr" where
  "example_line oper = canonical (line_record (PStr GENESIS) (example_entry\<lparr>e_operation := oper\<rparr>) (lit ''t0''))"

definition example_disk :: disk where
  "example_disk = \<lparr>log_file = None,
     head_file = Some (head_text (PStr (entry_sha (example_entry\<lparr>e_operation := lit ''read''\<rparr>) (lit ''t0''))) 1),
     log_readable = True, head_readable = True\<rparr>"

lemma example_lines:
  "log_line (example_line (lit oper))"
  "loads fl (example_line (lit oper)) =
     Some (PDict (read_object (line_record (PStr GENESIS) (example_entry\<lparr>e_operation := lit oper\<rparr>) (lit ''t0''))))"
  "chain_payload (read_object (line_record (PStr GENESIS) (example_entry\<lparr>e_operation := lit oper\<rparr>) (lit ''t0'')))
     = chain_payload (entry_dict (example_entry\<lparr>e_operation := lit oper\<rparr>) (lit ''t0''))"
proof -
  have ok: "entry_ok (example_entry\<lparr>e_operation := lit oper\<rparr>)"
    by (simp add: entry_ok_def example_entry_def code_points_lit)
  have g: "json_ok (PStr GENESIS)" using hash_text_GENESIS by (simp add: hash_text_def)
  show "log_line (example_line (lit oper))"
    using log_line_canonical [OF object_ok_line [OF ok code_points_lit g]] by (simp add: example_line_def)
  show "loads fl (example_line (lit oper)) =
     Some (PDict (read_object (line_record (PStr GENESIS) (example_entry\<lparr>e_operation := lit oper\<rparr>) (lit ''t0''))))"
    "chain_payload (read_object (line_record (PStr GENESIS) (example_entry\<lparr>e_operation := lit oper\<rparr>) (lit ''t0'')))
     = chain_payload (entry_dict (example_entry\<lparr>e_operation := lit oper\<rparr>) (lit ''t0''))"
    using loads_line(1,2) [OF ok code_points_lit g] by (simp_all add: example_line_def)
qed

lemma example_accepted: "accepted (verify_chain fl (with_log ([] @ [example_line (lit ''read'')]) example_disk))"
proof -
  let ?e = "example_entry\<lparr>e_operation := lit ''read''\<rparr>"
  have ok: "entry_ok ?e" by (simp add: entry_ok_def example_entry_def code_points_lit)
  have "walk fl 1 GENESIS [example_line (lit ''read'')] = Inr (Inr (entry_sha ?e (lit ''t0'')))"
    using walk_record [OF ok code_points_lit hash_text_GENESIS] by (simp add: example_line_def del: walk.simps)
  moreover have "(1 :: nat) < 10 ^ MAX_STR_DIGITS"
    using one_less_power [of "10 :: nat" MAX_STR_DIGITS] by (simp add: MAX_STR_DIGITS_def del: power_numeral)
  then have "check_head fl example_disk (entry_sha ?e (lit ''t0'')) 1 = Inr \<lparr>cr_ok = True, cr_error = None, cr_lines = 1\<rparr>"
    using hash_text_sha by (intro check_head_ok) (simp_all add: example_disk_def entry_sha_def)
  ultimately show ?thesis
    using example_lines(1) by (simp add: verify_with_log example_disk_def accepted_def del: walk.simps)
qed

text \<open>The chained fields can be read back from the payload.\<close>

lemma object_ok_chained: "object_ok d \<Longrightarrow> object_ok (chained d)"
proof -
  have "map fst (concat (map (\<lambda>k. case map_of d k of None \<Rightarrow> [] | Some v \<Rightarrow> [(k, v)]) ks))
      = filter (\<lambda>k. map_of d k \<noteq> None) ks" for ks
    by (induction ks) (auto split: option.splits)
  then have "map fst (chained d) = filter (\<lambda>k. map_of d k \<noteq> None) CHAINED_FIELDS"
    by (simp only: chained_def)
  moreover have "distinct CHAINED_FIELDS" by (simp add: CHAINED_FIELDS_def)
  moreover assume "object_ok d"
  ultimately show ?thesis using set_chained by (fastforce simp: object_ok_def)
qed

lemma payload_operation:
  assumes "entry_ok e" "code_points ts"
  obtains d where "loads fl (chain_payload (entry_dict e ts)) = Some (PDict d)"
    "dict_get d (lit ''operation'') = PStr (join_surr (e_operation e))"
proof -
  have ok: "object_ok (chained (entry_dict e ts))"
    by (rule object_ok_chained [OF object_ok_entry [OF assms]])
  have "map_of (chained (entry_dict e ts)) (lit ''operation'') = Some (PStr (e_operation e))"
    by (cases "e_principal e") (simp_all add: chained_def CHAINED_FIELDS_def entry_dict_def)
  with that loads_canonical [OF ok] dict_get_read_object [OF ok] show thesis
    by (simp add: chain_payload_def dict_get_def)
qed

lemma payloads_same_operation:
  assumes "entry_ok e" "entry_ok e'" "code_points ts"
    and "chain_payload (entry_dict e ts) = chain_payload (entry_dict e' ts)"
  shows "join_surr (e_operation e) = join_surr (e_operation e')"
proof -
  obtain d where d: "loads (\<lambda>t. t) (chain_payload (entry_dict e ts)) = Some (PDict d)"
    "dict_get d (lit ''operation'') = PStr (join_surr (e_operation e))"
    by (rule payload_operation [OF assms(1,3)])
  obtain d' where d': "loads (\<lambda>t. t) (chain_payload (entry_dict e' ts)) = Some (PDict d')"
    "dict_get d' (lit ''operation'') = PStr (join_surr (e_operation e'))"
    by (rule payload_operation [OF assms(2,3)])
  have "d = d'" using d(1) d'(1) unfolding assms(4) by simp
  then show ?thesis using d(2) d'(2) by simp
qed


text \<open>A lost tail is detected. If a log verifies against its checkpoint, no log with
  another number of records verifies against that checkpoint, whatever its lines.\<close>

lemma truncation_is_detected:
  assumes "log_readable d" "head_file d \<noteq> None" "\<forall>ln \<in> set (ls @ ls'). log_line ln"
    and "accepted (verify_chain fl (with_log ls d))" "length ls' \<noteq> length ls"
  shows "\<not> accepted (verify_chain fl (with_log ls' d))"
proof
  assume acc: "accepted (verify_chain fl (with_log ls' d))"
  have lines: "\<forall>x \<in> set ls. log_line x" "\<forall>x \<in> set ls'. log_line x" using assms(3) by auto
  obtain h where h: "accepted (check_head fl d h (length ls))"
    by (rule accepted_walk [OF lines(1) assms(1,4)])
  obtain h' where h': "accepted (check_head fl d h' (length ls'))"
    by (rule accepted_walk [OF lines(2) assms(1) acc])
  from accepted_heads_agree [OF h h' assms(2)] assms(5) show False by simp
qed

section \<open>What the chain does not detect\<close>



text \<open>A missing checkpoint is accepted: without the sidecar, every initial part of a log that
  verifies is accepted.\<close>

theorem missing_checkpoint_is_accepted:
  assumes "log_readable d" "head_file d = None" "\<forall>ln \<in> set (ls @ ms). log_line ln"
    and "accepted (verify_chain fl (with_log (ls @ ms) d))"
  shows "verify_chain fl (with_log ls d) = Inr \<lparr>cr_ok = True, cr_error = None, cr_lines = length ls\<rparr>"
proof -
  obtain h where "walk fl 1 GENESIS (ls @ ms) = Inr (Inr h)"
    using accepted_walk [OF assms(3,1,4)] by blast
  then obtain q where "walk fl 1 GENESIS ls = Inr (Inr q)" by (rule walk_prefix)
  then show ?thesis
    using assms(1-3) by (simp add: verify_with_log check_head_def)
qed

end
