(* ===== verification/Nextcloud.thy ===== *)
theory Nextcloud
  imports Grants Audit_Log
begin

text \<open>
  The WebDAV layer, \<open>broker/nextcloud.py\<close>: the namespace guard, the wall in
  \<open>_authorized\<close>, write-before-operate in \<open>_audit_and\<close>, the scrubbing of errors, and the
  operations. The transport of an instance is the parameter \<open>dav\<close>: a call of one of its
  verbs gives a reply or an exception, on a remote state of which nothing is assumed.

  The state is the store, the audit log with its disk (or none), and the remote state. The
  clock of the layer is the clock of the store, as \<open>run.py\<close> wires them. The outcomes of the
  disk writes and the timestamps of the log are sequences, one item for each call of
  \<open>record\<close>. The history of the world is kept as a trace: the entries the log accepted and
  the calls of the transport, in order.
\<close>

section \<open>Data\<close>

text \<open>What a transport returns: its dictionaries hold bytes beside the JSON values.\<close>

datatype field = Bytes "nat list" | Val pyval

datatype reply = Reply_dict "(pystr \<times> field) list" | Reply_other pyval

datatype dav_call =
    Propfind pystr
  | Get pystr
  | Put pystr "nat list" "pystr option"
  | Move pystr pystr
  | Delete pystr
  | Mkcol pystr
  | Lock pystr int
  | Unlock pystr pystr

text \<open>The exceptions of the transport: \<open>WebDavError(status, message)\<close> with the message its
  constructor is given, an \<open>OSError\<close> (as \<open>ConnectionError\<close> is), or any other.\<close>

datatype dav_error = Http int pystr | Os_exception pystr | Other_exception pystr

datatype layer_error =
    Access_refused pystr
  | Webdav_error int pystr
  | Backend_error pystr
  | Transport_error pystr
  | Audit_refused audit_error
  | Store_failed store_error
  | No_attribute pyval

record client =
  c_url :: pystr
  c_username :: pystr
  c_password :: pystr

text \<open>\<open>NextcloudLayer\<close>; \<open>l_repr\<close> is the \<open>repr\<close> of a string, used in messages only.\<close>

record layer =
  l_clients :: "(pystr \<times> client) list"
  l_discovery :: "pystr list"
  l_principal :: "pystr option"
  l_repr :: "pystr \<Rightarrow> pystr"

datatype event = Logged audit_entry | Called pystr dav_call

record 'd world =
  w_store :: store
  w_audit :: "(audit_log \<times> disk) option"
  w_io :: "nat \<Rightarrow> write_outcome \<times> write_outcome"
  w_stamp :: "nat \<Rightarrow> pystr"
  w_records :: nat
  w_remote :: 'd
  w_trace :: "event list"

type_synonym 'd transport = "pystr \<Rightarrow> dav_call \<Rightarrow> 'd \<Rightarrow> (dav_error + reply) \<times> 'd"

text \<open>What an operation returns.\<close>

datatype op_result =
    Reply reply
  | Checked_out field field
  | Checked_in bool bool
  | Verdict bool "pystr option"

section \<open>Errors\<close>

text \<open>\<open>(password|token|secret)\S*\<close>, case ignored, and the cut at 300 characters.\<close>

definition CREDENTIAL_RE :: re where
  "CREDENTIAL_RE = Seq (Grp 1 (Alt (str_re_ci (lit ''password''))
       (Alt (str_re_ci (lit ''token'')) (str_re_ci (lit ''secret'')))))
     (Rep True 0 None (\<lambda>c. \<not> py_isspace c))"

definition sanitize :: "pystr \<Rightarrow> pystr" where
  "sanitize message = take 300 (re_sub CREDENTIAL_RE (lit ''[redacted]'') message)"

definition raise_dav :: "dav_error \<Rightarrow> layer_error" where
  "raise_dav e = (case e of Http status message \<Rightarrow> Webdav_error status (sanitize message)
     | Os_exception t \<Rightarrow> Backend_error t | Other_exception t \<Rightarrow> Transport_error t)"

definition scrub_value :: "pystr option \<Rightarrow> pystr \<Rightarrow> pystr" where
  "scrub_value secret message =
     (case secret of
        None \<Rightarrow> message
      | Some s \<Rightarrow> if s \<noteq> [] \<and> py_in s message then py_replace s (lit ''[redacted]'') message else message)"

definition describe :: "layer \<Rightarrow> client \<Rightarrow> pystr" where
  "describe l c = lit ''NextcloudClient(url='' @ l_repr l (c_url c) @ lit '', username=''
     @ l_repr l (c_username c) @ lit '')''"

section \<open>The log and the transport\<close>

text \<open>One call of \<open>audit.record\<close>, with the callback in the world after it.\<close>

definition audit_record ::
  "audit_entry \<Rightarrow> ('d world \<Rightarrow> (layer_error + 'r) \<times> 'd world) option \<Rightarrow> audit_log \<times> disk \<Rightarrow> 'd world
     \<Rightarrow> (layer_error + 'r option) \<times> 'd world" where
  "audit_record e callback st w =
     (case st of (al, d) \<Rightarrow>
        (case write_record e (w_stamp w (w_records w)) False (fst (w_io w (w_records w)))
                (snd (w_io w (w_records w))) al d of
           (Some err, al1, d1) \<Rightarrow>
             (Inl (Audit_refused err), w\<lparr>w_audit := Some (al1, d1), w_records := Suc (w_records w)\<rparr>)
         | (None, al1, d1) \<Rightarrow>
             (let w1 = w\<lparr>w_audit := Some (al1, d1), w_records := Suc (w_records w),
                         w_trace := w_trace w @ [Logged e]\<rparr>
              in case callback of
                   None \<Rightarrow> (Inr None, w1)
                 | Some f \<Rightarrow>
                     (case f w1 of
                        (Inl x, w2) \<Rightarrow> (Inl x, w2)
                      | (Inr r, w2) \<Rightarrow> (Inr (Some r), w2)))))"

text \<open>\<open>client._dav.verb(...)\<close>.\<close>

definition dav_verb ::
  "'d transport \<Rightarrow> pystr \<Rightarrow> dav_call \<Rightarrow> 'd world \<Rightarrow> (layer_error + reply) \<times> 'd world" where
  "dav_verb dav inst c w =
     (case dav inst c (w_remote w) of
        (Inl e, d) \<Rightarrow> (Inl (raise_dav e), w\<lparr>w_remote := d, w_trace := w_trace w @ [Called inst c]\<rparr>)
      | (Inr r, d) \<Rightarrow> (Inr r, w\<lparr>w_remote := d, w_trace := w_trace w @ [Called inst c]\<rparr>))"

definition scrub_errors ::
  "layer \<Rightarrow> pystr \<Rightarrow> ('d world \<Rightarrow> (layer_error + 'r) \<times> 'd world) \<Rightarrow> 'd world \<Rightarrow> (layer_error + 'r) \<times> 'd world" where
  "scrub_errors l inst action w =
     (case action w of
        (Inl (Webdav_error status message), w1) \<Rightarrow>
          (Inl (Webdav_error status
             (scrub_value (map_option c_password (map_of (l_clients l) inst)) message)), w1)
      | r \<Rightarrow> r)"

text \<open>\<open>_audit_refusal\<close>: whatever the log raises is swallowed.\<close>

definition audit_refusal :: "layer \<Rightarrow> pystr \<Rightarrow> pyval \<Rightarrow> pystr \<Rightarrow> pystr \<Rightarrow> 'd world \<Rightarrow> 'd world" where
  "audit_refusal l inst path operation reason w =
     (case w_audit w of
        None \<Rightarrow> w
      | Some st \<Rightarrow>
          snd (audit_record \<lparr>e_instance = PStr inst, e_path = path, e_operation = operation,
                 e_grant_id = None, e_decision = lit ''refused'', e_reason = reason,
                 e_principal = l_principal l\<rparr> (None :: ('d world \<Rightarrow> (layer_error + unit) \<times> 'd world) option) st w))"

definition allowed_entry :: "layer \<Rightarrow> pystr \<Rightarrow> pystr \<Rightarrow> pystr \<Rightarrow> pystr \<Rightarrow> pystr option \<Rightarrow> audit_entry" where
  "allowed_entry l inst path operation reason prin =
     \<lparr>e_instance = PStr inst, e_path = PStr path, e_operation = operation, e_grant_id = None,
      e_decision = lit ''allowed'', e_reason = reason,
      e_principal = (case prin of None \<Rightarrow> l_principal l | Some p \<Rightarrow> Some p)\<rparr>"

definition audit_and ::
  "layer \<Rightarrow> 'd transport \<Rightarrow> pystr \<Rightarrow> pystr \<Rightarrow> pystr \<Rightarrow> pystr \<Rightarrow> dav_call \<Rightarrow> pystr option \<Rightarrow> 'd world
     \<Rightarrow> (layer_error + reply) \<times> 'd world" where
  "audit_and l dav inst path operation reason c prin w =
     (case w_audit w of
        None \<Rightarrow> scrub_errors l inst (dav_verb dav inst c) w
      | Some st \<Rightarrow>
          (case audit_record (allowed_entry l inst path operation reason prin)
                  (Some (scrub_errors l inst (dav_verb dav inst c))) st w of
             (Inl e, w1) \<Rightarrow> (Inl e, w1)
           | (Inr None, w1) \<Rightarrow> (Inr (Reply_other PNone), w1)
           | (Inr (Some r), w1) \<Rightarrow> (Inr r, w1)))"

section \<open>The wall\<close>

definition namespace_of :: "pystr \<Rightarrow> pystr \<Rightarrow> bool" where
  "namespace_of name lowered \<longleftrightarrow> lowered = name \<or> py_startswith lowered (name @ lit ''/'')"

definition namespace_guard :: "pyval \<Rightarrow> pystr option" where
  "namespace_guard path =
     (case normalize_path path of
        None \<Rightarrow>
          (case path of
             PStr s \<Rightarrow> if py_strip s = [] \<or> py_strip s = lit ''/'' then Some [] else None
           | _ \<Rightarrow> None)
      | Some norm \<Rightarrow>
          (let lowered = py_lower norm
           in if namespace_of (lit ''trashbin'') lowered then None
              else if namespace_of (lit ''files_trashbin'') lowered then None
              else if namespace_of (lit ''remote.php/dav/trashbin'') lowered then None
              else Some norm))"

text \<open>The list comprehension over the records and their items.\<close>

definition grants_of :: "grant_record list \<Rightarrow> grant list" where
  "grants_of recs = concat (map (\<lambda>rec. map (\<lambda>i. \<lparr>g_path = i_path i, g_mode = i_mode i,
     g_expires_at = gr_expires_at rec, g_id = gr_id rec\<rparr>) (gr_items rec)) recs)"

text \<open>The check both \<open>_authorized\<close> and \<open>_authorized_read\<close> make: the grants, then the clock.\<close>

definition consult :: "pystr \<Rightarrow> pystr \<Rightarrow> pystr \<Rightarrow> 'd world \<Rightarrow> (layer_error + decision) \<times> 'd world" where
  "consult inst norm mode w =
     (case active_grants (Some inst) (w_store w) of
        (Inl e, s) \<Rightarrow> (Inl (Store_failed e), w\<lparr>w_store := s\<rparr>)
      | (Inr recs, s) \<Rightarrow>
          (let (now, s1) = read_clock s
           in (Inr (check_access (PStr norm) mode (grants_of recs) now), w\<lparr>w_store := s1\<rparr>)))"

definition authorized ::
  "layer \<Rightarrow> pystr \<Rightarrow> pyval \<Rightarrow> pystr \<Rightarrow> 'd world \<Rightarrow> (layer_error + pystr) \<times> 'd world" where
  "authorized l inst path mode w =
     (if map_of (l_clients l) inst = None
      then (Inl (Access_refused (lit ''unknown instance '' @ l_repr l inst @ lit '' (not configured)'')),
            audit_refusal l inst path mode (lit ''unknown instance '' @ l_repr l inst) w)
      else (case namespace_guard path of
              None \<Rightarrow> (Inl (Access_refused (lit ''path is in a forbidden namespace'')),
                       audit_refusal l inst path mode (lit ''forbidden namespace'') w)
            | Some norm \<Rightarrow>
                (case consult inst norm mode w of
                   (Inl e, w1) \<Rightarrow> (Inl e, w1)
                 | (Inr decision, w1) \<Rightarrow>
                     if \<not> d_allowed decision
                     then (Inl (Access_refused (d_reason decision)),
                           audit_refusal l inst (PStr norm) mode (d_reason decision) w1)
                     else (Inr norm, w1))))"

definition authorized_read :: "pystr \<Rightarrow> pystr \<Rightarrow> 'd world \<Rightarrow> (layer_error + pystr) \<times> 'd world" where
  "authorized_read inst norm w =
     (case consult inst norm READ w of
        (Inl e, w1) \<Rightarrow> (Inl e, w1)
      | (Inr decision, w1) \<Rightarrow>
          if \<not> d_allowed decision then (Inl (Access_refused (d_reason decision)), w1)
          else (Inr norm, w1))"

section \<open>The operations\<close>

text \<open>An operation on one path: the wall, then the log and the call.\<close>

definition guarded_op ::
  "layer \<Rightarrow> 'd transport \<Rightarrow> pystr \<Rightarrow> pyval \<Rightarrow> pystr \<Rightarrow> pystr \<Rightarrow> pystr \<Rightarrow> (pystr \<Rightarrow> dav_call) \<Rightarrow> pystr option
     \<Rightarrow> 'd world \<Rightarrow> (layer_error + op_result) \<times> 'd world" where
  "guarded_op l dav inst path mode operation reason c prin w =
     (case authorized l inst path mode w of
        (Inl e, w1) \<Rightarrow> (Inl e, w1)
      | (Inr norm, w1) \<Rightarrow>
          (case audit_and l dav inst norm operation reason (c norm) prin w1 of
             (Inl e, w2) \<Rightarrow> (Inl e, w2)
           | (Inr r, w2) \<Rightarrow> (Inr (Reply r), w2)))"

definition list_op :: "layer \<Rightarrow> 'd transport \<Rightarrow> pystr \<Rightarrow> pyval \<Rightarrow> 'd world
    \<Rightarrow> (layer_error + op_result) \<times> 'd world" where
  "list_op l dav inst path w =
     (if map_of (l_clients l) inst = None
      then (Inl (Access_refused (lit ''unknown instance '' @ l_repr l inst @ lit '' (not configured)'')), w)
      else (case namespace_guard path of
              None \<Rightarrow> (Inl (Access_refused (lit ''path is in a forbidden namespace'')), w)
            | Some norm \<Rightarrow>
                (case (if inst \<in> set (l_discovery l) then (Inr (lit ''discovery''), w)
                       else (case authorized_read inst norm w of
                               (Inl e, w1) \<Rightarrow> (Inl e, w1)
                             | (Inr _, w1) \<Rightarrow> (Inr (lit ''granted read''), w1))) of
                   (Inl e, w1) \<Rightarrow> (Inl e, w1)
                 | (Inr reason, w1) \<Rightarrow>
                     (case audit_and l dav inst norm (lit ''list'') reason (Propfind norm) None w1 of
                        (Inl e, w2) \<Rightarrow> (Inl e, w2)
                      | (Inr r, w2) \<Rightarrow> (Inr (Reply r), w2)))))"

definition read_op :: "layer \<Rightarrow> 'd transport \<Rightarrow> pystr \<Rightarrow> pyval \<Rightarrow> pystr option \<Rightarrow> 'd world
    \<Rightarrow> (layer_error + op_result) \<times> 'd world" where
  "read_op l dav inst path prin =
     guarded_op l dav inst path READ (lit ''read'') (lit ''granted read'') Get prin"

definition write_op :: "layer \<Rightarrow> 'd transport \<Rightarrow> pystr \<Rightarrow> pyval \<Rightarrow> nat list \<Rightarrow> pystr option \<Rightarrow> 'd world
    \<Rightarrow> (layer_error + op_result) \<times> 'd world" where
  "write_op l dav inst path data prin =
     guarded_op l dav inst path WRITE (lit ''write'') (lit ''granted write'') (\<lambda>p. Put p data None) prin"

definition trash_op :: "layer \<Rightarrow> 'd transport \<Rightarrow> pystr \<Rightarrow> pyval \<Rightarrow> 'd world
    \<Rightarrow> (layer_error + op_result) \<times> 'd world" where
  "trash_op l dav inst path =
     guarded_op l dav inst path WRITE (lit ''trash'') (lit ''granted write'') Delete None"

definition mkdir_op :: "layer \<Rightarrow> 'd transport \<Rightarrow> pystr \<Rightarrow> pyval \<Rightarrow> 'd world
    \<Rightarrow> (layer_error + op_result) \<times> 'd world" where
  "mkdir_op l dav inst path =
     guarded_op l dav inst path WRITE (lit ''mkdir'') (lit ''granted write'') Mkcol None"

definition move_op :: "layer \<Rightarrow> 'd transport \<Rightarrow> pystr \<Rightarrow> pyval \<Rightarrow> pyval \<Rightarrow> 'd world
    \<Rightarrow> (layer_error + op_result) \<times> 'd world" where
  "move_op l dav inst src dst w =
     (case authorized l inst src WRITE w of
        (Inl e, w1) \<Rightarrow> (Inl e, w1)
      | (Inr norm_src, w1) \<Rightarrow>
          (case authorized l inst dst WRITE w1 of
             (Inl e, w2) \<Rightarrow> (Inl e, w2)
           | (Inr norm_dst, w2) \<Rightarrow>
               (case audit_and l dav inst (norm_src @ lit '' -> '' @ norm_dst) (lit ''move'')
                       (lit ''granted write'') (Move norm_src norm_dst) None w2 of
                  (Inl e, w3) \<Rightarrow> (Inl e, w3)
                | (Inr r, w3) \<Rightarrow> (Inr (Reply r), w3))))"

definition field_of :: "(pystr \<times> field) list \<Rightarrow> pystr \<Rightarrow> field" where
  "field_of d k = (case map_of d k of None \<Rightarrow> Val PNone | Some v \<Rightarrow> v)"

definition checkout_op :: "layer \<Rightarrow> 'd transport \<Rightarrow> pystr \<Rightarrow> pyval \<Rightarrow> int \<Rightarrow> pystr option \<Rightarrow> 'd world
    \<Rightarrow> (layer_error + op_result) \<times> 'd world" where
  "checkout_op l dav inst path timeout prin w =
     (case authorized l inst path WRITE w of
        (Inl e, w1) \<Rightarrow> (Inl e, w1)
      | (Inr norm, w1) \<Rightarrow>
          (case audit_and l dav inst norm (lit ''checkout'') (lit ''granted write'') (Lock norm timeout) prin w1 of
             (Inl e, w2) \<Rightarrow> (Inl e, w2)
           | (Inr result, w2) \<Rightarrow>
               (case audit_and l dav inst norm (lit ''read'') (lit ''checkout read'') (Get norm) prin w2 of
                  (Inl e, w3) \<Rightarrow> (Inl e, w3)
                | (Inr content, w3) \<Rightarrow>
                    (let data = (case content of Reply_dict d \<Rightarrow> field_of d (lit ''content'') | _ \<Rightarrow> Val PNone)
                     in case result of
                          Reply_dict d \<Rightarrow> (Inr (Checked_out (field_of d (lit ''lock_token'')) data), w3)
                        | Reply_other v \<Rightarrow> (Inl (No_attribute v), w3)))))"

fun truthy :: "pyval \<Rightarrow> bool" where
  "truthy PNone = False"
| "truthy (PBool b) = b"
| "truthy (PInt i) = (i \<noteq> 0)"
| "truthy (PFloat t) = (t \<notin> {lit ''0.0'', lit ''-0.0''})"
| "truthy (PStr s) = (s \<noteq> [])"
| "truthy (PList vs) = (vs \<noteq> [])"
| "truthy (PDict d) = (d \<noteq> [])"

definition reply_true :: "reply \<Rightarrow> bool" where
  "reply_true r = (case r of Reply_dict d \<Rightarrow> d \<noteq> [] | Reply_other v \<Rightarrow> truthy v)"

definition checkin_op :: "layer \<Rightarrow> 'd transport \<Rightarrow> pystr \<Rightarrow> pyval \<Rightarrow> nat list \<Rightarrow> pystr \<Rightarrow> pystr option \<Rightarrow> 'd world
    \<Rightarrow> (layer_error + op_result) \<times> 'd world" where
  "checkin_op l dav inst path data lock_token prin w =
     (case authorized l inst path WRITE w of
        (Inl e, w1) \<Rightarrow> (Inl e, w1)
      | (Inr norm, w1) \<Rightarrow>
          (case audit_and l dav inst norm (lit ''checkin'') (lit ''granted write'')
                  (Put norm data (Some lock_token)) prin w1 of
             (Inl e, w2) \<Rightarrow> (Inl e, w2)
           | (Inr written, w2) \<Rightarrow>
               (case audit_and l dav inst norm (lit ''checkin-unlock'') (lit ''lock released'')
                       (Unlock norm lock_token) prin w2 of
                  (Inl e, w3) \<Rightarrow> (Inl e, w3)
                | (Inr unlocked, w3) \<Rightarrow> (Inr (Checked_in (reply_true written) (reply_true unlocked)), w3))))"

definition check_op :: "layer \<Rightarrow> pystr \<Rightarrow> pyval \<Rightarrow> pystr \<Rightarrow> 'd world
    \<Rightarrow> (layer_error + op_result) \<times> 'd world" where
  "check_op l inst path mode w =
     (case authorized l inst path mode w of
        (Inl (Access_refused reason), w1) \<Rightarrow> (Inr (Verdict False (Some reason)), w1)
      | (Inl e, w1) \<Rightarrow> (Inl e, w1)
      | (Inr _, w1) \<Rightarrow> (Inr (Verdict True None), w1))"

text \<open>The calls of the layer.\<close>

datatype request =
    List_req pystr pyval
  | Read_req pystr pyval "pystr option"
  | Write_req pystr pyval "nat list" "pystr option"
  | Move_req pystr pyval pyval
  | Trash_req pystr pyval
  | Mkdir_req pystr pyval
  | Checkout_req pystr pyval int "pystr option"
  | Checkin_req pystr pyval "nat list" pystr "pystr option"
  | Check_req pystr pyval pystr

fun run_op :: "layer \<Rightarrow> 'd transport \<Rightarrow> request \<Rightarrow> 'd world \<Rightarrow> (layer_error + op_result) \<times> 'd world" where
  "run_op l dav (List_req i p) w = list_op l dav i p w"
| "run_op l dav (Read_req i p pr) w = read_op l dav i p pr w"
| "run_op l dav (Write_req i p b pr) w = write_op l dav i p b pr w"
| "run_op l dav (Move_req i p q) w = move_op l dav i p q w"
| "run_op l dav (Trash_req i p) w = trash_op l dav i p w"
| "run_op l dav (Mkdir_req i p) w = mkdir_op l dav i p w"
| "run_op l dav (Checkout_req i p t pr) w = checkout_op l dav i p t pr w"
| "run_op l dav (Checkin_req i p b t pr) w = checkin_op l dav i p b t pr w"
| "run_op l dav (Check_req i p m) w = check_op l i p m w"

end
