(* ===== verification/Nextcloud_Properties.thy ===== *)
theory Nextcloud_Properties
  imports Nextcloud Grant_Lifecycle
begin

text \<open>
  What the WebDAV layer of \<open>broker/nextcloud.py\<close> promises: every call of the transport is
  covered by a live grant or by discovery, names no trashbin, and comes right after its entry
  in the audit log; a refusal calls nothing; an error leaves the layer without the password.
\<close>

section \<open>A decision and the grant behind it\<close>

text \<open>The wall on one path: an item of a live grant contains it, with a sufficient mode.\<close>

definition covered :: "(grant_record \<Rightarrow> bool) \<Rightarrow> pystr \<Rightarrow> pystr \<Rightarrow> bool" where
  "covered live norm mode \<longleftrightarrow>
     (\<exists>rec i gn n. live rec \<and> i \<in> set (gr_items rec)
        \<and> normalize_path (PStr (i_path i)) = Some gn \<and> gn \<noteq> []
        \<and> normalize_path (PStr norm) = Some n \<and> inside gn n
        \<and> i_mode i \<in> set MODES \<and> (mode = WRITE \<longrightarrow> i_mode i = WRITE))"

lemma covered_read: "covered live norm mode \<Longrightarrow> covered live norm READ"
  by (auto simp: covered_def)

context authorization_source
begin

lemma allowed_is_covered:
  assumes "ready s" "ask inst s = (Inr recs, t)"
    and "d_allowed (check_access (PStr norm) mode (grants_of recs) now)"
  shows "covered (live s inst) norm mode"
proof -
  obtain n g where g: "normalize_path (PStr norm) = Some n" "g \<in> set (grants_of recs)" "permits n mode now g"
    using assms(3) by (auto simp: allowed_check_access)
  then obtain rec i where r: "rec \<in> set recs" "i \<in> set (gr_items rec)" "g_path g = i_path i" "g_mode g = i_mode i"
    by (auto simp: grants_of_def)
  have "live s inst rec" by (rule answers_live [OF assms(1,2) r(1)])
  with g r show ?thesis
    by (auto simp: covered_def permits_def in_scope_def split: option.splits)
qed

end

section \<open>What happens to the world\<close>

definition extends :: "'d world \<Rightarrow> event list \<Rightarrow> 'd world \<Rightarrow> bool" where
  "extends w evs w' \<longleftrightarrow> w_trace w' = w_trace w @ evs \<and> same_data (w_store w) (w_store w')
     \<and> (w_audit w' = None \<longleftrightarrow> w_audit w = None)"

lemma extends_refl: "extends w [] w"
  by (simp add: extends_def)

lemma extends_trans: "extends w evs w1 \<Longrightarrow> extends w1 evs' w2 \<Longrightarrow> extends w (evs @ evs') w2"
  by (auto simp: extends_def intro: same_data_trans)

text \<open>A line for a refusal, and no call.\<close>

definition refusals_only :: "event list \<Rightarrow> bool" where
  "refusals_only evs \<longleftrightarrow> (\<forall>ev \<in> set evs. \<exists>e. ev = Logged e \<and> e_decision e = lit ''refused'')"

lemma audit_refusal_extends:
  "\<exists>evs. extends w evs (audit_refusal l inst path oper reason w) \<and> refusals_only evs"
proof (cases "w_audit w")
  case None
  then have "audit_refusal l inst path oper reason w = w" by (simp add: audit_refusal_def)
  then show ?thesis using extends_refl [of w] by (auto simp: refusals_only_def intro!: exI [of _ "[]"])
next
  case (Some st)
  then show ?thesis
    by (auto simp: audit_refusal_def audit_record_def extends_def refusals_only_def Let_def
        split: prod.split option.split)
qed

lemma consult_extends:
  assumes "consult inst norm mode w = (x, w')"
  shows "extends w [] w'"
proof -
  obtain y s where a: "active_grants (Some inst) (w_store w) = (y, s)" by fastforce
  have sd: "same_data (w_store w) s" by (rule same_data_active_grants [OF a])
  then have "same_data (w_store w) (s\<lparr>ticks := Suc (ticks s)\<rparr>)"
    using same_data_trans same_data_tick by blast
  with assms a sd show ?thesis
    by (auto simp: consult_def extends_def read_clock_def split: sum.splits)
qed

lemma consult_decides:
  assumes "store_inv (w_store w)" "consult inst norm mode w = (x, w')"
  obtains recs now s where "x = Inr (check_access (PStr norm) mode (grants_of recs) now)"
    "active_grants (Some inst) (w_store w) = (Inr recs, s)" "now = clock s (ticks s)"
proof -
  obtain y s where a: "active_grants (Some inst) (w_store w) = (y, s)" by fastforce
  with grant_source.answers [OF assms(1) a] that assms(2) show thesis
    by (auto simp: consult_def read_clock_def)
qed

lemma authorized_ok:
  assumes "store_inv (w_store w)" "authorized l inst path mode w = (x, w')"
  shows "\<exists>evs. extends w evs w' \<and> refusals_only evs
    \<and> (\<forall>norm. x = Inr norm \<longrightarrow> evs = [] \<and> map_of (l_clients l) inst \<noteq> None
         \<and> namespace_guard path = Some norm \<and> mode \<in> set MODES
         \<and> covered (live_grant (w_store w) inst) norm mode)"
proof (cases "map_of (l_clients l) inst = None \<or> namespace_guard path = None")
  case True
  with assms(2) obtain path' reason why where
    "x = Inl (Access_refused why)" "w' = audit_refusal l inst path' mode reason w"
    by (cases "map_of (l_clients l) inst") (auto simp: authorized_def)
  with audit_refusal_extends show ?thesis by fastforce
next
  case False
  then obtain norm where norm: "namespace_guard path = Some norm" by auto
  obtain y w1 where c: "consult inst norm mode w = (y, w1)" by fastforce
  from consult_decides [OF assms(1) c] obtain recs now s where
    y: "y = Inr (check_access (PStr norm) mode (grants_of recs) now)"
    and ag: "active_grants (Some inst) (w_store w) = (Inr recs, s)" by metis
  have ext: "extends w [] w1" by (rule consult_extends [OF c])
  show ?thesis
  proof (cases "d_allowed (check_access (PStr norm) mode (grants_of recs) now)")
    case True
    have "mode \<in> set MODES" using True by (simp add: allowed_check_access)
    moreover have "covered (live_grant (w_store w) inst) norm mode"
      by (rule grant_source.allowed_is_covered [OF assms(1) ag True])
    ultimately show ?thesis
      using False assms(2) norm c y ext True
      by (auto simp: authorized_def refusals_only_def intro!: exI [of _ "[]"])
  next
    case denied: False
    have "x = Inl (Access_refused (d_reason (check_access (PStr norm) mode (grants_of recs) now)))"
      "w' = audit_refusal l inst (PStr norm) mode (d_reason (check_access (PStr norm) mode (grants_of recs) now)) w1"
      using False assms(2) norm c y denied by (auto simp: authorized_def)
    then show ?thesis
      using audit_refusal_extends [of w1] extends_trans [OF ext] by (metis append_Nil sum.distinct(1))
  qed
qed

section \<open>Traces\<close>

text \<open>The (path, mode) pairs a call needs.\<close>

fun needs :: "dav_call \<Rightarrow> (pystr \<times> pystr) list" where
  "needs (Propfind p) = [(p, READ)]"
| "needs (Get p) = [(p, READ)]"
| "needs (Put p b t) = [(p, WRITE)]"
| "needs (Move p q) = [(p, WRITE), (q, WRITE)]"
| "needs (Delete p) = [(p, WRITE)]"
| "needs (Mkcol p) = [(p, WRITE)]"
| "needs (Lock p n) = [(p, WRITE)]"
| "needs (Unlock p t) = [(p, WRITE)]"

definition in_trashbin :: "pystr \<Rightarrow> bool" where
  "in_trashbin p \<longleftrightarrow> (\<exists>ns \<in> {lit ''trashbin'', lit ''files_trashbin'', lit ''remote.php/dav/trashbin''}.
     namespace_of ns (py_lower p))"

definition clean_path :: "pystr \<Rightarrow> bool" where
  "clean_path p \<longleftrightarrow> canonical_path p \<and> \<not> in_trashbin p"

lemma namespace_guard_clean:
  assumes "namespace_guard path = Some p"
  shows "clean_path p"
proof (cases "normalize_path path")
  case None
  with assms have "p = []" by (auto simp: namespace_guard_def split: pyval.splits if_splits)
  then show ?thesis
    by (simp add: clean_path_def canonical_path_def in_trashbin_def namespace_of_def lit_def)
next
  case (Some n)
  with assms show ?thesis
    using normalize_canonical [OF Some]
    by (auto simp: clean_path_def in_trashbin_def namespace_guard_def Let_def split: if_splits)
qed

definition discovery_call :: "layer \<Rightarrow> pystr \<Rightarrow> dav_call \<Rightarrow> bool" where
  "discovery_call l inst c \<longleftrightarrow> inst \<in> set (l_discovery l) \<and> (\<exists>p. c = Propfind p)"

definition call_ok :: "layer \<Rightarrow> store \<Rightarrow> pystr \<Rightarrow> dav_call \<Rightarrow> bool" where
  "call_ok l s inst c \<longleftrightarrow> map_of (l_clients l) inst \<noteq> None
     \<and> (\<forall>(p, m) \<in> set (needs c). clean_path p \<and> (discovery_call l inst c \<or> covered (live_grant s inst) p m))"

text \<open>The path under which a call is logged.\<close>

fun logged_path :: "dav_call \<Rightarrow> pystr" where
  "logged_path (Propfind p) = p"
| "logged_path (Get p) = p"
| "logged_path (Put p b t) = p"
| "logged_path (Move p q) = p @ lit '' -> '' @ q"
| "logged_path (Delete p) = p"
| "logged_path (Mkcol p) = p"
| "logged_path (Lock p n) = p"
| "logged_path (Unlock p t) = p"

definition announces :: "audit_entry \<Rightarrow> pystr \<Rightarrow> dav_call \<Rightarrow> bool" where
  "announces e inst c \<longleftrightarrow> e_decision e = lit ''allowed'' \<and> e_instance e = PStr inst
     \<and> e_path e = PStr (logged_path c)"

text \<open>Every call comes right after an entry that announces it.\<close>

fun announced :: "event list \<Rightarrow> bool" where
  "announced [] = True"
| "announced (Called inst c # evs) = False"
| "announced (Logged e # Called inst c # evs) = (announces e inst c \<and> announced evs)"
| "announced (Logged e # evs) = announced evs"

fun calls :: "event list \<Rightarrow> (pystr \<times> dav_call) list" where
  "calls [] = []"
| "calls (Called inst c # evs) = (inst, c) # calls evs"
| "calls (Logged e # evs) = calls evs"

lemma calls_append [simp]: "calls (evs @ evs') = calls evs @ calls evs'"
  by (induction evs rule: calls.induct) auto

lemma calls_refusals: "refusals_only evs \<Longrightarrow> calls evs = []"
  by (induction evs rule: calls.induct) (auto simp: refusals_only_def)

lemma announced_Logged: "announced evs \<Longrightarrow> announced (Logged e # evs)"
  by (cases evs rule: announced.cases) auto

lemma announced_append: "announced evs \<Longrightarrow> announced evs' \<Longrightarrow> announced (evs @ evs')"
  by (induction evs rule: announced.induct) (auto simp: announced_Logged)

lemma announced_refusals: "refusals_only evs \<Longrightarrow> announced evs"
proof (induction evs rule: announced.induct)
  case (3 e inst c evs)
  then show ?case by (auto simp: refusals_only_def)
qed (auto simp: refusals_only_def)

section \<open>One operation\<close>

lemma live_grant_same_data: "same_data s t \<Longrightarrow> live_grant t inst rec \<Longrightarrow> live_grant s inst rec"
  unfolding live_grant_def using same_data_fields [of s t] find_row_same_data [of s t]
  by (metis order_trans)

lemma covered_same_data: "same_data s t \<Longrightarrow> covered (live_grant t inst) p m \<Longrightarrow> covered (live_grant s inst) p m"
  unfolding covered_def using live_grant_same_data by blast

lemma call_ok_same_data: "same_data s t \<Longrightarrow> call_ok l t inst c \<Longrightarrow> call_ok l s inst c"
  unfolding call_ok_def using covered_same_data by blast

text \<open>What an operation on an instance leaves in the world: its calls are within the wall and,
  when a log is wired, announced; if the operation was refused there are none.\<close>

definition well_behaved :: "layer \<Rightarrow> store \<Rightarrow> pystr \<Rightarrow> 'd world \<Rightarrow> (layer_error + 'r) \<times> 'd world \<Rightarrow> bool" where
  "well_behaved l s inst w r \<longleftrightarrow>
     (\<exists>evs. extends w evs (snd r)
        \<and> (\<forall>(i, c) \<in> set (calls evs). i = inst \<and> call_ok l s i c)
        \<and> (w_audit w \<noteq> None \<longrightarrow> announced evs)
        \<and> (\<forall>why. fst r = Inl (Access_refused why) \<longrightarrow> calls evs = []))"

lemma well_behavedI:
  assumes "extends w evs (snd r)" "\<forall>(i, c) \<in> set (calls evs). i = inst \<and> call_ok l s i c"
    and "w_audit w \<noteq> None \<longrightarrow> announced evs" "\<forall>why. fst r = Inl (Access_refused why) \<longrightarrow> calls evs = []"
  shows "well_behaved l s inst w r"
  using assms unfolding well_behaved_def by blast

text \<open>Steps in sequence.\<close>

lemma well_behaved_after:
  assumes "extends w evs w1" "\<forall>(i, c) \<in> set (calls evs). i = inst \<and> call_ok l s i c"
    and "w_audit w \<noteq> None \<longrightarrow> announced evs" "calls evs = [] \<or> (\<forall>why. fst r \<noteq> Inl (Access_refused why))"
    and "well_behaved l s inst w1 r"
  shows "well_behaved l s inst w r"
proof -
  from assms(5) obtain evs' where e: "extends w1 evs' (snd r)"
      "\<forall>(i, c) \<in> set (calls evs'). i = inst \<and> call_ok l s i c"
      "w_audit w1 \<noteq> None \<longrightarrow> announced evs'" "\<forall>why. fst r = Inl (Access_refused why) \<longrightarrow> calls evs' = []"
    by (auto simp: well_behaved_def)
  have w1: "w_audit w1 = None \<longleftrightarrow> w_audit w = None"
    using assms(1) by (simp add: extends_def)
  show ?thesis
  proof (rule well_behavedI [OF extends_trans [OF assms(1) e(1)]])
    show "\<forall>(i, c) \<in> set (calls (evs @ evs')). i = inst \<and> call_ok l s i c"
      using assms(2) e(2) by auto
    show "w_audit w \<noteq> None \<longrightarrow> announced (evs @ evs')"
      using assms(3) e(3) w1 by (simp add: announced_append)
    show "\<forall>why. fst r = Inl (Access_refused why) \<longrightarrow> calls (evs @ evs') = []"
      using assms(4) e(4) by auto
  qed
qed

lemma well_behaved_quiet: "extends w [] w1 \<Longrightarrow> well_behaved l s inst w1 r \<Longrightarrow> well_behaved l s inst w r"
  by (rule well_behaved_after) auto

lemma well_behaved_stop: "extends w evs w1 \<Longrightarrow> refusals_only evs \<Longrightarrow> well_behaved l s inst w (y, w1)"
  by (rule well_behavedI) (auto simp: calls_refusals announced_refusals)

definition not_refused :: "layer_error + 'r \<Rightarrow> bool" where
  "not_refused x \<longleftrightarrow> (\<forall>why. x \<noteq> Inl (Access_refused why))"

lemma scrubbed_verb:
  assumes "scrub_errors l inst (dav_verb dav inst c) w = (x, w')"
  shows "extends w [Called inst c] w' \<and> not_refused x"
  using assms
  by (auto simp: scrub_errors_def dav_verb_def raise_dav_def extends_def not_refused_def
      split: prod.splits sum.splits dav_error.splits layer_error.splits)

lemma audit_and_events:
  assumes "audit_and l dav inst path oper reason c prin w = (x, w')"
  shows "not_refused x \<and> (\<exists>evs. extends w evs w' \<and>
    (evs = [] \<or> w_audit w = None \<and> evs = [Called inst c]
      \<or> evs = [Logged (allowed_entry l inst path oper reason prin), Called inst c]))"
proof (cases "w_audit w")
  case None
  with assms scrubbed_verb show ?thesis by (fastforce simp: audit_and_def)
next
  case (Some st)
  obtain al d where st: "st = (al, d)" by fastforce
  let ?e = "allowed_entry l inst path oper reason prin"
  obtain err al1 d1 where wr: "write_record ?e (w_stamp w (w_records w)) False
      (fst (w_io w (w_records w))) (snd (w_io w (w_records w))) al d = (err, al1, d1)"
    using prod_cases3 by blast
  show ?thesis
  proof (cases err)
    case (Some er)
    with assms \<open>w_audit w = Some st\<close> st wr show ?thesis
      by (auto simp: audit_and_def audit_record_def extends_def not_refused_def intro!: exI [of _ "[]"])
  next
    case None
    let ?w1 = "w\<lparr>w_audit := Some (al1, d1), w_records := Suc (w_records w), w_trace := w_trace w @ [Logged ?e]\<rparr>"
    obtain y w2 where v: "scrub_errors l inst (dav_verb dav inst c) ?w1 = (y, w2)" by fastforce
    from scrubbed_verb [OF v] have "extends w [Logged ?e, Called inst c] w2" "not_refused y"
      using \<open>w_audit w = Some st\<close> by (auto simp: extends_def)
    with assms \<open>w_audit w = Some st\<close> st wr None v show ?thesis
      by (cases y) (auto simp: audit_and_def audit_record_def Let_def not_refused_def)
  qed
qed

lemma audit_and_well_behaved:
  assumes "audit_and l dav inst path oper reason c prin w = (x, w')"
    and "path = logged_path c" "call_ok l s inst c"
  shows "not_refused x \<and> (\<exists>evs. extends w evs w'
    \<and> (\<forall>(i, c) \<in> set (calls evs). i = inst \<and> call_ok l s i c)
    \<and> (w_audit w \<noteq> None \<longrightarrow> announced evs))"
proof -
  have "announces (allowed_entry l inst path oper reason prin) inst c"
    using assms(2) by (simp add: announces_def allowed_entry_def)
  with audit_and_events [OF assms(1)] assms(3) show ?thesis by fastforce
qed

text \<open>A call that ends an operation, and one that does not.\<close>

lemma last_call:
  assumes "audit_and l dav inst path oper reason c prin w = (x, w')"
    and "path = logged_path c" "call_ok l s inst c"
    and "\<And>why. fst r = Inl (Access_refused why) \<Longrightarrow> x = Inl (Access_refused why)" "snd r = w'"
  shows "well_behaved l s inst w r"
  using audit_and_well_behaved [OF assms(1-3)] assms(4,5)
  by (fastforce simp: well_behaved_def not_refused_def)

lemma next_call:
  assumes "audit_and l dav inst path oper reason c prin w = (x, w')"
    and "path = logged_path c" "call_ok l s inst c" "not_refused (fst r)"
    and "well_behaved l s inst w' r"
  shows "well_behaved l s inst w r"
  using audit_and_well_behaved [OF assms(1-3)] assms(4,5) well_behaved_after
  unfolding not_refused_def by blast

lemma after_wall:
  assumes inv: "store_inv (w_store w)" and wall: "authorized l inst path mode w = (x, w1)"
    and no: "\<And>e. x = Inl e \<Longrightarrow> snd r = w1"
    and ok: "\<And>p. x = Inr p \<Longrightarrow> store_inv (w_store w1) \<Longrightarrow> same_data (w_store w) (w_store w1)
      \<Longrightarrow> map_of (l_clients l) inst \<noteq> None
      \<Longrightarrow> clean_path p \<Longrightarrow> covered (live_grant (w_store w) inst) p mode
      \<Longrightarrow> well_behaved l s inst w1 r"
  shows "well_behaved l s inst w r"
proof -
  from authorized_ok [OF inv wall] obtain evs where e: "extends w evs w1" "refusals_only evs"
    "\<forall>norm. x = Inr norm \<longrightarrow> evs = [] \<and> map_of (l_clients l) inst \<noteq> None
       \<and> namespace_guard path = Some norm \<and> mode \<in> set MODES \<and> covered (live_grant (w_store w) inst) norm mode"
    by blast
  have sd: "same_data (w_store w) (w_store w1)" using e(1) by (simp add: extends_def)
  show ?thesis
  proof (cases x)
    case (Inl e')
    with no well_behaved_stop [OF e(1,2), of l s inst "fst r"] show ?thesis
      by (metis prod.collapse)
  next
    case (Inr p)
    then have "well_behaved l s inst w1 r"
      using ok [OF Inr] e(3) inv sd namespace_guard_clean [of path p] by (simp add: store_inv_same_data)
    then show ?thesis using Inr e well_behaved_quiet by blast
  qed
qed

section \<open>Every operation\<close>

lemma guarded_op_well_behaved:
  assumes "store_inv (w_store w)" "\<And>p. logged_path (c p) = p" "\<And>p. needs (c p) = [(p, mode)]"
  shows "well_behaved l (w_store w) inst w (guarded_op l dav inst path mode oper reason c prin w)"
proof -
  obtain x w1 where a: "authorized l inst path mode w = (x, w1)" by fastforce
  show ?thesis
  proof (rule after_wall [OF assms(1) a])
    show "snd (guarded_op l dav inst path mode oper reason c prin w) = w1" if "x = Inl e" for e
      using that a by (simp add: guarded_op_def)
  next
    fix p
    assume p: "x = Inr p" "map_of (l_clients l) inst \<noteq> None" "clean_path p"
      "covered (live_grant (w_store w) inst) p mode"
    obtain y w2 where b: "audit_and l dav inst p oper reason (c p) prin w1 = (y, w2)" by fastforce
    show "well_behaved l (w_store w) inst w1 (guarded_op l dav inst path mode oper reason c prin w)"
      by (rule last_call [OF b]) (use a b p assms in \<open>auto simp: guarded_op_def call_ok_def split: sum.splits\<close>)
  qed
qed

lemma list_op_well_behaved:
  assumes "store_inv (w_store w)"
  shows "well_behaved l (w_store w) inst w (list_op l dav inst path w)"
proof (cases "map_of (l_clients l) inst = None \<or> namespace_guard path = None")
  case True
  then have "\<exists>why. list_op l dav inst path w = (Inl (Access_refused why), w)"
    by (cases "map_of (l_clients l) inst") (auto simp: list_op_def)
  then show ?thesis using well_behaved_stop [OF extends_refl] by (auto simp: refusals_only_def)
next
  case False
  then obtain p where p: "namespace_guard path = Some p" "clean_path p"
    using namespace_guard_clean by auto
  show ?thesis
  proof (cases "inst \<in> set (l_discovery l)")
    case True
    obtain y w2 where b: "audit_and l dav inst p (lit ''list'') (lit ''discovery'') (Propfind p) None w = (y, w2)"
      by fastforce
    show ?thesis
      by (rule last_call [OF b])
        (use True False p b in \<open>auto simp: list_op_def call_ok_def discovery_call_def split: sum.splits\<close>)
  next
    case granted: False
    obtain x w1 where c: "consult inst p READ w = (x, w1)" by fastforce
    from consult_decides [OF assms c] obtain recs now s where
      x: "x = Inr (check_access (PStr p) READ (grants_of recs) now)"
      and ag: "active_grants (Some inst) (w_store w) = (Inr recs, s)" by metis
    obtain y w2 where b: "audit_and l dav inst p (lit ''list'') (lit ''granted read'') (Propfind p) None w1 = (y, w2)"
      by fastforce
    show ?thesis
    proof (rule well_behaved_quiet [OF consult_extends [OF c]],
        cases "d_allowed (check_access (PStr p) READ (grants_of recs) now)")
      case True
      then have "call_ok l (w_store w) inst (Propfind p)"
        using False p grant_source.allowed_is_covered [OF assms ag] by (simp add: call_ok_def)
      then show "well_behaved l (w_store w) inst w1 (list_op l dav inst path w)"
        by (rule last_call [OF b, rotated])
          (use True False granted p b c x in \<open>auto simp: list_op_def authorized_read_def split: sum.splits\<close>)
    next
      case denied: False
      then have "\<exists>e. list_op l dav inst path w = (Inl e, w1)"
        using False granted p c x by (auto simp: list_op_def authorized_read_def)
      then show "well_behaved l (w_store w) inst w1 (list_op l dav inst path w)"
        using well_behaved_stop [OF extends_refl] by (auto simp: refusals_only_def)
    qed
  qed
qed

lemma move_op_well_behaved:
  assumes "store_inv (w_store w)"
  shows "well_behaved l (w_store w) inst w (move_op l dav inst src dst w)"
proof -
  let ?r = "move_op l dav inst src dst w"
  obtain x w1 where a: "authorized l inst src WRITE w = (x, w1)" by fastforce
  obtain x2 w2 where a2: "authorized l inst dst WRITE w1 = (x2, w2)" by fastforce
  show ?thesis
  proof (rule after_wall [OF assms a])
    show "snd ?r = w1" if "x = Inl e" for e using that a by (simp add: move_op_def)
  next
    fix p
    assume p: "x = Inr p" "store_inv (w_store w1)" "same_data (w_store w) (w_store w1)"
      "clean_path p" "covered (live_grant (w_store w) inst) p WRITE"
    show "well_behaved l (w_store w) inst w1 ?r"
    proof (rule after_wall [OF p(2) a2])
      show "snd ?r = w2" if "x2 = Inl e" for e using that p a a2 by (simp add: move_op_def)
    next
      fix q
      assume q: "x2 = Inr q" "map_of (l_clients l) inst \<noteq> None" "clean_path q"
        "covered (live_grant (w_store w1) inst) q WRITE"
      obtain y w3 where b: "audit_and l dav inst (p @ lit '' -> '' @ q) (lit ''move'') (lit ''granted write'')
          (Move p q) None w2 = (y, w3)" by fastforce
      have "call_ok l (w_store w) inst (Move p q)"
        using p q covered_same_data [OF p(3)] by (simp add: call_ok_def)
      then show "well_behaved l (w_store w) inst w2 ?r"
        by (rule last_call [OF b, rotated]) (use a a2 b p q in \<open>auto simp: move_op_def split: sum.splits\<close>)
    qed
  qed
qed

lemma checkout_op_well_behaved:
  assumes "store_inv (w_store w)"
  shows "well_behaved l (w_store w) inst w (checkout_op l dav inst path timeout prin w)"
proof -
  let ?r = "checkout_op l dav inst path timeout prin w"
  obtain x w1 where a: "authorized l inst path WRITE w = (x, w1)" by fastforce
  show ?thesis
  proof (rule after_wall [OF assms a])
    show "snd ?r = w1" if "x = Inl e" for e using that a by (simp add: checkout_op_def)
  next
    fix p
    assume p: "x = Inr p" "map_of (l_clients l) inst \<noteq> None" "clean_path p"
      "covered (live_grant (w_store w) inst) p WRITE"
    have ok: "call_ok l (w_store w) inst (Lock p timeout)" "call_ok l (w_store w) inst (Get p)"
      using p covered_read by (auto simp: call_ok_def)
    obtain y w2 where b: "audit_and l dav inst p (lit ''checkout'') (lit ''granted write'') (Lock p timeout) prin w1
        = (y, w2)" by fastforce
    obtain z w3 where c: "audit_and l dav inst p (lit ''read'') (lit ''checkout read'') (Get p) prin w2
        = (z, w3)" by fastforce
    have nr: "not_refused y" "not_refused z"
      using audit_and_events [OF b] audit_and_events [OF c] by simp_all
    show "well_behaved l (w_store w) inst w1 ?r"
    proof (cases y)
      case (Inl e)
      show ?thesis
        by (rule last_call [OF b _ ok(1)]) (use Inl a b p in \<open>auto simp: checkout_op_def\<close>)
    next
      case (Inr result)
      have "well_behaved l (w_store w) inst w2 ?r"
        by (rule last_call [OF c _ ok(2)])
          (use Inr a b c p in \<open>auto simp: checkout_op_def Let_def split: sum.splits reply.splits\<close>)
      moreover have "not_refused (fst ?r)"
        using Inr a b c p nr by (auto simp: checkout_op_def not_refused_def split: sum.splits reply.splits)
      ultimately show ?thesis by (intro next_call [OF b _ ok(1)]) auto
    qed
  qed
qed

lemma checkin_op_well_behaved:
  assumes "store_inv (w_store w)"
  shows "well_behaved l (w_store w) inst w (checkin_op l dav inst path data token prin w)"
proof -
  let ?r = "checkin_op l dav inst path data token prin w"
  obtain x w1 where a: "authorized l inst path WRITE w = (x, w1)" by fastforce
  show ?thesis
  proof (rule after_wall [OF assms a])
    show "snd ?r = w1" if "x = Inl e" for e using that a by (simp add: checkin_op_def)
  next
    fix p
    assume p: "x = Inr p" "map_of (l_clients l) inst \<noteq> None" "clean_path p"
      "covered (live_grant (w_store w) inst) p WRITE"
    have ok: "call_ok l (w_store w) inst (Put p data (Some token))" "call_ok l (w_store w) inst (Unlock p token)"
      using p by (auto simp: call_ok_def)
    obtain y w2 where b: "audit_and l dav inst p (lit ''checkin'') (lit ''granted write'')
        (Put p data (Some token)) prin w1 = (y, w2)" by fastforce
    obtain z w3 where c: "audit_and l dav inst p (lit ''checkin-unlock'') (lit ''lock released'')
        (Unlock p token) prin w2 = (z, w3)" by fastforce
    have nr: "not_refused y" "not_refused z"
      using audit_and_events [OF b] audit_and_events [OF c] by simp_all
    show "well_behaved l (w_store w) inst w1 ?r"
    proof (cases y)
      case (Inl e)
      show ?thesis
        by (rule last_call [OF b _ ok(1)]) (use Inl a b p in \<open>auto simp: checkin_op_def\<close>)
    next
      case (Inr result)
      have "well_behaved l (w_store w) inst w2 ?r"
        by (rule last_call [OF c _ ok(2)])
          (use Inr a b c p in \<open>auto simp: checkin_op_def split: sum.splits\<close>)
      moreover have "not_refused (fst ?r)"
        using Inr a b c p nr by (auto simp: checkin_op_def not_refused_def split: sum.splits)
      ultimately show ?thesis by (intro next_call [OF b _ ok(1)]) auto
    qed
  qed
qed

lemma check_op_well_behaved:
  assumes "store_inv (w_store w)"
  shows "well_behaved l (w_store w) inst w (check_op l inst path mode w)"
proof -
  obtain x w1 where a: "authorized l inst path mode w = (x, w1)" by fastforce
  then have "snd (check_op l inst path mode w) = w1"
    by (auto simp: check_op_def split: sum.splits layer_error.splits)
  then show ?thesis
    using after_wall [OF assms a] well_behaved_stop [OF extends_refl]
    by (metis list.set(1) empty_iff refusals_only_def prod.collapse)
qed

fun op_instance :: "request \<Rightarrow> pystr" where
  "op_instance (List_req i p) = i"
| "op_instance (Read_req i p pr) = i"
| "op_instance (Write_req i p b pr) = i"
| "op_instance (Move_req i p q) = i"
| "op_instance (Trash_req i p) = i"
| "op_instance (Mkdir_req i p) = i"
| "op_instance (Checkout_req i p t pr) = i"
| "op_instance (Checkin_req i p b t pr) = i"
| "op_instance (Check_req i p m) = i"

lemma run_op_well_behaved:
  assumes "store_inv (w_store w)"
  shows "well_behaved l (w_store w) (op_instance r) w (run_op l dav r w)"
  using assms
  by (cases r) (simp_all add: list_op_well_behaved move_op_well_behaved checkout_op_well_behaved
      checkin_op_well_behaved check_op_well_behaved read_op_def write_op_def trash_op_def mkdir_op_def
      guarded_op_well_behaved)

section \<open>The secret\<close>

lemma sublist_sep:
  assumes "c \<notin> set old"
  shows "sublist old (u @ c # v) \<longleftrightarrow> sublist old u \<or> sublist old v"
proof
  assume "sublist old (u @ c # v)"
  then obtain a b where ab: "u @ c # v = a @ old @ b" by (auto simp: sublist_def)
  from this [symmetric] consider (left) r where "a @ old = u @ r" "r @ b = c # v"
    | (right) r where "a @ old @ r = u" "b = r @ c # v"
    by (auto simp: append_eq_append_conv2 [of "a @ old", simplified])
  then show "sublist old u \<or> sublist old v"
  proof cases
    case left
    show ?thesis
    proof (cases r)
      case Nil
      with left show ?thesis by (auto simp: sublist_def intro: exI [of _ "[]"])
    next
      case (Cons x r')
      with left(2) have r: "r = c # r'" "v = r' @ b" by auto
      with left(1) assms obtain a' where "r' = a' @ old"
        by (auto simp: append_eq_append_conv2 append_eq_Cons_conv)
      with r show ?thesis by (auto simp: sublist_def)
    qed
  next
    case right
    then show ?thesis by (auto simp: sublist_def)
  qed
next
  assume "sublist old u \<or> sublist old v"
  then show "sublist old (u @ c # v)"
    by (auto simp: sublist_append sublist_Cons_right)
qed

definition redactable :: "pystr \<Rightarrow> bool" where
  "redactable secret \<longleftrightarrow> secret \<noteq> [] \<and> 91 \<notin> set secret \<and> 93 \<notin> set secret \<and> \<not> py_in secret (lit ''redacted'')"

lemma redaction: "lit ''[redacted]'' = 91 # lit ''redacted'' @ [93]"
  by (simp add: lit_def)

lemma prefix_replace: "prefix p (py_replace old (91 # r) xs) \<Longrightarrow> 91 \<notin> set p \<Longrightarrow> prefix p xs"
proof (induction xs arbitrary: p)
  case (Cons x xs)
  then show ?case by (cases p) (auto simp: py_replace.simps(2) split: if_splits)
qed simp

lemma replace_removes:
  assumes "redactable secret"
  shows "\<not> sublist secret (py_replace secret (lit ''[redacted]'') xs)"
  using assms
proof (induction secret "lit ''[redacted]''" xs rule: py_replace.induct)
  case (1 old)
  then show ?case by (simp add: redactable_def)
next
  case (2 old x xs)
  show ?case
  proof (cases "prefix old (x # xs)")
    case True
    let ?rest = "py_replace old (lit ''[redacted]'') (drop (length old) (x # xs))"
    have "sublist old ([] @ 91 # lit ''redacted'' @ 93 # ?rest) \<longleftrightarrow>
        sublist old [] \<or> sublist old (lit ''redacted'') \<or> sublist old ?rest"
      using sublist_sep [of 91 old "[]" "lit ''redacted'' @ 93 # ?rest"]
        sublist_sep [of 93 old "lit ''redacted''" ?rest] "2.prems" by (simp add: redactable_def)
    with True 2 show ?thesis
      by (simp add: py_replace.simps(2) redaction redactable_def)
  next
    case False
    then have "\<not> prefix old (x # py_replace old (lit ''[redacted]'') xs)"
      using "2.prems" prefix_replace [of _ old "lit ''redacted'' @ [93]" xs]
      by (cases old) (auto simp: redactable_def redaction)
    with False 2 show ?thesis by (simp add: py_replace.simps(2) sublist_Cons_right)
  qed
qed

lemma scrub_value_removes: "redactable secret \<Longrightarrow> \<not> py_in secret (scrub_value (Some secret) message)"
  using replace_removes [of secret message] by (auto simp: scrub_value_def redactable_def)

text \<open>A WebDAV error comes from an error of the transport of the instance, sanitized and scrubbed.\<close>

definition scrubbed :: "layer \<Rightarrow> 'd transport \<Rightarrow> pystr \<Rightarrow> layer_error + 'r \<Rightarrow> bool" where
  "scrubbed l dav inst x \<longleftrightarrow> (\<forall>st m. x = Inl (Webdav_error st m) \<longrightarrow>
     (\<exists>c d msg d'. dav inst c d = (Inl (Http st msg), d')
        \<and> m = scrub_value (map_option c_password (map_of (l_clients l) inst)) (sanitize msg)))"

lemma scrubbed_simps [simp]: "scrubbed l dav inst (Inr r)"
  by (simp add: scrubbed_def)

lemma scrubbed_audit_and:
  assumes "audit_and l dav inst path oper reason c prin w = (x, w')"
  shows "scrubbed l dav inst x"
proof -
  have *: "scrubbed l dav inst (fst (scrub_errors l inst (dav_verb dav inst c) w))" for w
    unfolding scrubbed_def scrub_errors_def dav_verb_def
    by (cases "dav inst c (w_remote w)"; cases "fst (dav inst c (w_remote w))")
      (fastforce simp: raise_dav_def split: dav_error.splits)+
  show ?thesis
    using assms *
    by (auto simp: audit_and_def audit_record_def scrubbed_def Let_def
        split: option.splits prod.splits sum.splits) (metis fst_conv)+
qed

lemma authorized_no_webdav: "authorized l inst path mode w = (x, w') \<Longrightarrow> x \<noteq> Inl (Webdav_error st m)"
  by (auto simp: authorized_def consult_def Let_def split: if_splits option.splits prod.splits sum.splits)

lemma scrubbed_authorized: "authorized l inst path mode w = (x, w') \<Longrightarrow> scrubbed l dav inst x"
  using authorized_no_webdav unfolding scrubbed_def by blast


lemma run_op_scrubbed: "scrubbed l dav (op_instance r) (fst (run_op l dav r w))"
proof -
  have guarded: "scrubbed l dav inst (fst (guarded_op l dav inst path mode oper reason c prin w))"
    for inst path mode oper reason c prin
  proof -
    obtain x w1 where a: "authorized l inst path mode w = (x, w1)" by fastforce
    show ?thesis
    proof (cases x)
      case (Inl e)
      with a show ?thesis
        using authorized_no_webdav [OF a] by (auto simp: guarded_op_def scrubbed_def)
    next
      case (Inr p)
      obtain y w2 where b: "audit_and l dav inst p oper reason (c p) prin w1 = (y, w2)" by fastforce
      with a Inr show ?thesis
        using scrubbed_audit_and [OF b] by (auto simp: guarded_op_def scrubbed_def split: sum.splits)
    qed
  qed
  show ?thesis
  proof (cases r)
    case (List_req i p)
    then show ?thesis
      by (auto simp: list_op_def authorized_read_def consult_def Let_def scrubbed_def
          split: option.splits sum.splits prod.splits dest!: scrubbed_audit_and [unfolded scrubbed_def])
  next
    case (Move_req i p q)
    then show ?thesis
      by (auto simp: move_op_def scrubbed_def split: sum.splits prod.splits
          dest!: scrubbed_authorized [unfolded scrubbed_def] scrubbed_audit_and [unfolded scrubbed_def])
  next
    case (Checkout_req i p t pr)
    then show ?thesis
      by (auto simp: checkout_op_def Let_def scrubbed_def split: sum.splits prod.splits reply.splits
          dest!: scrubbed_authorized [unfolded scrubbed_def] scrubbed_audit_and [unfolded scrubbed_def])
  next
    case (Checkin_req i p b t pr)
    then show ?thesis
      by (auto simp: checkin_op_def scrubbed_def split: sum.splits prod.splits
          dest!: scrubbed_authorized [unfolded scrubbed_def] scrubbed_audit_and [unfolded scrubbed_def])
  next
    case (Check_req i p m)
    then show ?thesis
      by (auto simp: check_op_def scrubbed_def split: sum.splits prod.splits layer_error.splits
          dest!: scrubbed_authorized [unfolded scrubbed_def])
  qed (simp_all add: guarded read_op_def write_op_def trash_op_def mkdir_op_def)
qed

section \<open>An example\<close>

definition example_layer :: layer where
  "example_layer = \<lparr>l_clients = [(lit ''home'', \<lparr>c_url = lit ''https://cloud'', c_username = lit ''ann'',
       c_password = lit ''hunter2''\<rparr>)], l_discovery = [], l_principal = Some (lit ''agent''),
     l_repr = (\<lambda>s. s)\<rparr>"

definition example_world :: "unit world" where
  "example_world = \<lparr>w_store = example_store, w_audit = Some (new_log [], new_disk),
     w_io = (\<lambda>n. (Write_ok, Write_ok)), w_stamp = (\<lambda>n. lit ''t0''), w_records = 0, w_remote = (),
     w_trace = []\<rparr>"

text \<open>A transport that answers every call with an error that shows the password.\<close>

definition leaky :: "unit transport" where
  "leaky inst c d = (Inl (Http 500 (lit ''hunter2 is not welcome'')), d)"

lemma example_world_inv: "store_inv (w_store example_world)"
  by (simp add: example_world_def example_store_inv)

lemma docs_normal: "normalize_path (PStr (lit ''docs'')) = Some (lit ''docs'')"
  by (rule normalize_plain)
    (simp add: plain_path_def canonical_path_def canonical_component_def has_escape_Cons escape_at_def
      lit_def is_control_def MAX_PATH_LENGTH_def py_strip_def py_isspace_def)

lemma docs_x_normal: "normalize_path (PStr (lit ''docs/x'')) = Some (lit ''docs/x'')"
  by (rule normalize_plain)
    (simp add: plain_path_def canonical_path_def canonical_component_def has_escape_Cons escape_at_def
      lit_def is_control_def MAX_PATH_LENGTH_def py_strip_def py_isspace_def)

lemma example_active:
  "\<exists>s. active_grants (Some (lit ''home'')) example_store = (Inr [record_of example_grant Active], s)
     \<and> clock s = example_clock \<and> ticks s < 10"
  by (simp add: active_grants_def example_store_def example_grant_def example_request_def get_row_def
      find_row_def effective_state_def read_clock_def example_clock_def DEFAULT_GRANT_DURATION_def
      MICROSECONDS_def DEFAULT_PENDING_TIMEOUT_def lit_def record_of_def)

lemma leaky_message:
  "scrub_value (Some (lit ''hunter2'')) (sanitize (lit ''hunter2 is not welcome'')) = lit ''[redacted] is not welcome''"
proof -
  have "sanitize (lit ''hunter2 is not welcome'') = lit ''hunter2 is not welcome''" by code_simp
  moreover have "scrub_value (Some (lit ''hunter2'')) (lit ''hunter2 is not welcome'') = lit ''[redacted] is not welcome''"
    by code_simp
  ultimately show ?thesis by simp
qed

lemma example_guard: "namespace_guard (PStr (lit ''docs/x'')) = Some (lit ''docs/x'')"
  by (simp add: namespace_guard_def docs_x_normal Let_def)
    (simp add: namespace_of_def lit_def py_lower_def py_lower_cp_def)

lemma example_consult:
  assumes "mode \<in> {READ, WRITE}"
  shows "\<exists>w1. consult (lit ''home'') (lit ''docs/x'') mode example_world
     = (Inr \<lparr>d_allowed = True, d_grant_id = Some 1, d_reason = lit ''ok''\<rparr>, w1)
    \<and> w_audit w1 = w_audit example_world \<and> w_trace w1 = [] \<and> w_io w1 = w_io example_world \<and> w_remote w1 = ()
    \<and> w_store w1 = example_store\<lparr>ticks := ticks (w_store w1)\<rparr> \<and> w_stamp w1 = w_stamp example_world"
proof -
  obtain s where s: "active_grants (Some (lit ''home'')) example_store = (Inr [record_of example_grant Active], s)"
    "clock s = example_clock" "ticks s < 10"
    using example_active by blast
  have "same_data example_store s" by (rule same_data_active_grants [OF s(1)])
  then have st: "s = example_store\<lparr>ticks := ticks s\<rparr>" by (simp add: same_data_def)
  have "clock s (ticks s) < 60 * 60 * MICROSECONDS"
    using s(2,3) by (simp add: example_clock_def MICROSECONDS_def)
  then have "check_access (PStr (lit ''docs/x'')) mode (grants_of [record_of example_grant Active]) (clock s (ticks s))
      = \<lparr>d_allowed = True, d_grant_id = Some 1, d_reason = lit ''ok''\<rparr>"
    using assms by (auto simp: check_access_def docs_x_normal docs_normal grants_of_def record_of_def example_grant_def
        example_item_def scan_grants.simps(2) DEFAULT_GRANT_DURATION_def MICROSECONDS_def)
      (simp_all add: inside_def lit_def)
  then show ?thesis
    using s(1) by (simp add: consult_def example_world_def read_clock_def Let_def)
      (subst st, simp)
qed


lemma example_client:
  "map_of (l_clients example_layer) (lit ''home'') = Some \<lparr>c_url = lit ''https://cloud'', c_username = lit ''ann'',
     c_password = lit ''hunter2''\<rparr>"
  by (simp add: example_layer_def)

text \<open>A read of the example past the wall.\<close>

lemma example_call:
  assumes "w_audit w1 = Some (new_log [], new_disk)" "w_trace w1 = []" "w_io w1 = (\<lambda>n. (Write_ok, Write_ok))"
  shows "\<exists>e w'. (case audit_and example_layer leaky (lit ''home'') p (lit ''read'') (lit ''granted read'') (Get p) prin w1 of
       (Inl e, w2) \<Rightarrow> (Inl e, w2) | (Inr r, w2) \<Rightarrow> (Inr (Reply r), w2))
      = (Inl (Webdav_error 500 (lit ''[redacted] is not welcome'')), w')
    \<and> w_trace w' = [Logged e, Called (lit ''home'') (Get p)]"
  using assms by (simp add: audit_and_def audit_record_def write_record_def check_secrets_def
      new_log_def Let_def scrub_errors_def dav_verb_def leaky_def raise_dav_def example_client leaky_message
      split: pyval.split)

lemma example_authorized:
  assumes "mode \<in> {READ, WRITE}"
  obtains w1 where
    "authorized example_layer (lit ''home'') (PStr (lit ''docs/x'')) mode example_world = (Inr (lit ''docs/x''), w1)"
    "w_audit w1 = Some (new_log [], new_disk)" "w_trace w1 = []" "w_io w1 = (\<lambda>n. (Write_ok, Write_ok))"
proof -
  obtain w1 where c: "consult (lit ''home'') (lit ''docs/x'') mode example_world
     = (Inr \<lparr>d_allowed = True, d_grant_id = Some 1, d_reason = lit ''ok''\<rparr>, w1)"
    "w_audit w1 = Some (new_log [], new_disk)" "w_trace w1 = []" "w_io w1 = (\<lambda>n. (Write_ok, Write_ok))"
    using example_consult [OF assms] by (auto simp: example_world_def)
  have a: "authorized example_layer (lit ''home'') (PStr (lit ''docs/x'')) mode example_world = (Inr (lit ''docs/x''), w1)"
    using c(1) by (simp add: authorized_def example_guard example_client)
  show thesis by (rule that [OF a c(2-4)])
qed

lemma example_read:
  obtains e w' where "run_op example_layer leaky (Read_req (lit ''home'') (PStr (lit ''docs/x'')) prin) example_world
      = (Inl (Webdav_error 500 (lit ''[redacted] is not welcome'')), w')"
    "w_trace w' = [Logged e, Called (lit ''home'') (Get (lit ''docs/x''))]"
proof -
  obtain w1 where
    a: "authorized example_layer (lit ''home'') (PStr (lit ''docs/x'')) READ example_world = (Inr (lit ''docs/x''), w1)"
    and c: "w_audit w1 = Some (new_log [], new_disk)" "w_trace w1 = []" "w_io w1 = (\<lambda>n. (Write_ok, Write_ok))"
    by (rule example_authorized [of READ]) simp_all
  show thesis
    using that example_call [OF c, of "lit ''docs/x''" prin]
    unfolding run_op.simps read_op_def guarded_op_def a by auto
qed

lemma example_discovery_off: "l_discovery example_layer = []"
  by (simp add: example_layer_def)



text \<open>With an audit log wired, every call of the transport comes directly after an entry in
  the log that allows it: same instance, same path, decision \<open>allowed\<close>. No call is made that
  the log has not accepted first.\<close>

lemma calls_are_announced:
  assumes "store_inv (w_store w)" "w_audit w \<noteq> None" "run_op l dav r w = (x, w')"
  shows "\<exists>evs. w_trace w' = w_trace w @ evs \<and> announced evs \<and> w_audit w' \<noteq> None"
  using run_op_well_behaved [OF assms(1), of l r dav] assms(2,3)
  by (auto simp: well_behaved_def extends_def)

text \<open>A refusal is total. An operation that the wall refuses has made no call at all, so a
  move whose destination is refused has not touched its source; it leaves the grants as they
  were, and the log with at most refusals.\<close>

lemma refused_means_no_call:
  assumes "store_inv (w_store w)" "run_op l dav r w = (Inl (Access_refused why), w')"
  shows "\<exists>evs. w_trace w' = w_trace w @ evs \<and> calls evs = [] \<and> same_data (w_store w) (w_store w')"
  using run_op_well_behaved [OF assms(1), of l r dav] assms(2)
  by (auto simp: well_behaved_def extends_def)

lemma normalize_unescaped:
  assumes "normalize_path (PStr p) = Some n" "canonical_path p" "\<not> has_escape p"
  shows "n = p"
proof -
  have "plain_path p"
    using assms py_strip_def by (auto simp: plain_path_def normalize_path_Some_iff)
  from normalize_plain [OF this] assms(1) show ?thesis by simp
qed

text \<open>On a path without a percent escape, being covered is being inside. If an operation
  calls the transport on such a path of an instance without discovery, the path itself is a
  granted path or below one, component by component.\<close>

lemma plain_paths_stay_inside:
  assumes "store_inv (w_store w)" "run_op l dav r w = (x, w')" "w_trace w' = w_trace w @ evs"
    and "(i, c) \<in> set (calls evs)" "(p, m) \<in> set (needs c)" "\<not> has_escape p" "i \<notin> set (l_discovery l)"
  shows "\<exists>rec item g. live_grant (w_store w) i rec \<and> item \<in> set (gr_items rec)
    \<and> normalize_path (PStr (i_path item)) = Some g \<and> prefix (split_on 47 g) (split_on 47 p)
    \<and> (m = WRITE \<longrightarrow> i_mode item = WRITE)"
proof -
  from run_op_well_behaved [OF assms(1), of l r dav] assms(2-4) have "call_ok l (w_store w) i c"
    by (auto simp: well_behaved_def extends_def)
  with assms(5,7) have cov: "covered (live_grant (w_store w) i) p m" and can: "canonical_path p"
    by (auto simp: call_ok_def clean_path_def discovery_call_def)
  from cov obtain rec item g n where live: "live_grant (w_store w) i rec" "item \<in> set (gr_items rec)"
    and g: "normalize_path (PStr (i_path item)) = Some g" "g \<noteq> []"
    and n: "normalize_path (PStr p) = Some n" "inside g n" and m: "m = WRITE \<longrightarrow> i_mode item = WRITE"
    by (auto simp: covered_def)
  have "n = p" by (rule normalize_unescaped [OF n(1) can assms(6)])
  moreover have "n \<noteq> []" using n(2) g(2) by (auto simp: inside_def)
  ultimately have "prefix (split_on 47 g) (split_on 47 p)"
    using inside_components [OF g(1) n(1) g(2)] n(2) by simp
  with live g m show ?thesis by blast
qed

text \<open>C15: the app password does not leave the layer in an error. If an operation raises a WebDAV
  error, the message does not contain the password of its instance, whatever the transport put
  in it; the password is only assumed not to be empty, to have no square brackets and not to
  be a part of the word that replaces it.\<close>

theorem error_never_shows_the_password:
  assumes "map_of (l_clients l) (op_instance r) = Some c" "redactable (c_password c)"
    and "run_op l dav r w = (Inl (Webdav_error status message), w')"
  shows "\<not> py_in (c_password c) message"
  using run_op_scrubbed [of l dav r w] assms scrub_value_removes [OF assms(2)]
  by (auto simp: scrubbed_def)

theorem error_never_shows_the_password_witness:
  "\<not> py_in (lit ''hunter2'') (lit ''[redacted] is not welcome'')"
proof (rule example_read)
  fix e w'
  assume r: "run_op example_layer leaky (Read_req (lit ''home'') (PStr (lit ''docs/x'')) None) example_world
      = (Inl (Webdav_error 500 (lit ''[redacted] is not welcome'')), w')"
  have "redactable (lit ''hunter2'')"
    by (simp add: redactable_def lit_def sublist_Cons_right)
  with error_never_shows_the_password [OF _ _ r, of "\<lparr>c_url = lit ''https://cloud'', c_username = lit ''ann'',
       c_password = lit ''hunter2''\<rparr>"] show ?thesis
    by (simp add: example_layer_def)
qed

lemma no_calls_refusal:
  "\<exists>evs. w_trace (audit_refusal l inst p oper why w) = w_trace w @ evs \<and> calls evs = []"
  using audit_refusal_extends [of w l inst p oper why] calls_refusals by (auto simp: extends_def)

lemma authorized_no_calls:
  assumes "authorized l inst path mode w = (x, w')"
  shows "\<exists>evs. w_trace w' = w_trace w @ evs \<and> calls evs = []"
proof (cases "map_of (l_clients l) inst = None \<or> namespace_guard path = None")
  case True
  with assms obtain q why where "w' = audit_refusal l inst q mode why w"
    by (cases "map_of (l_clients l) inst") (auto simp: authorized_def)
  with no_calls_refusal show ?thesis by blast
next
  case False
  then obtain norm where norm: "namespace_guard path = Some norm" by auto
  obtain y w1 where c: "consult inst norm mode w = (y, w1)" by fastforce
  have tr: "w_trace w1 = w_trace w" using consult_extends [OF c] by (simp add: extends_def)
  have "w' = w1 \<or> (\<exists>q why. w' = audit_refusal l inst q mode why w1)"
    using assms False norm c by (cases y) (auto simp: authorized_def split: if_splits)
  then show ?thesis
    using tr no_calls_refusal [of l inst _ mode _ w1] by fastforce
qed

lemma check_op_no_calls: "\<exists>evs. w_trace (snd (check_op l i p m w)) = w_trace w @ evs \<and> calls evs = []"
proof -
  obtain x w1 where a: "authorized l i p m w = (x, w1)" by fastforce
  then have "snd (check_op l i p m w) = w1"
    by (auto simp: check_op_def split: sum.splits layer_error.splits)
  with authorized_no_calls [OF a] show ?thesis by simp
qed

text \<open>The check tool agrees with the operations. It says no, with a reason, exactly when a
  read or a write of that path at that moment would be refused for that reason, and leaves the
  world exactly as that refused operation does; it never calls the transport.\<close>

lemma check_predicts_the_operations:
  "(check_op l i p READ w = (Inr (Verdict False (Some why)), w1)
      \<longleftrightarrow> run_op l dav (Read_req i p prin) w = (Inl (Access_refused why), w1))
   \<and> (check_op l i p WRITE w = (Inr (Verdict False (Some why)), w1)
      \<longleftrightarrow> run_op l dav (Write_req i p data prin) w = (Inl (Access_refused why), w1))
   \<and> (\<exists>evs. w_trace (snd (check_op l i p m w)) = w_trace w @ evs \<and> calls evs = [])"
proof (intro conjI)
  have op: "check_op l i p m w = (Inr (Verdict False (Some why)), w1)
      \<longleftrightarrow> guarded_op l dav i p m oper reason c prin w = (Inl (Access_refused why), w1)" for m oper reason c
    using audit_and_events
    by (fastforce simp: check_op_def guarded_op_def not_refused_def
        split: prod.splits sum.splits layer_error.splits)
  show "check_op l i p READ w = (Inr (Verdict False (Some why)), w1)
      \<longleftrightarrow> run_op l dav (Read_req i p prin) w = (Inl (Access_refused why), w1)"
    by (simp add: op [of READ] read_op_def)
  show "check_op l i p WRITE w = (Inr (Verdict False (Some why)), w1)
      \<longleftrightarrow> run_op l dav (Write_req i p data prin) w = (Inl (Access_refused why), w1)"
    by (simp add: op [of WRITE] write_op_def)
  show "\<exists>evs. w_trace (snd (check_op l i p m w)) = w_trace w @ evs \<and> calls evs = []"
    by (rule check_op_no_calls)
qed

section \<open>What is decided is not always what is operated on\<close>

text \<open>The path is normalised by the namespace guard and, what comes out of it, once more by the
  path checker. Where the first decoding stops at its cap the two differ: here a path five
  times encoded is allowed under a grant of \<open>docs\<close>, and the transport is called on a path that
  is not below \<open>docs\<close>.\<close>

definition five_times_encoded :: pystr where
  "five_times_encoded = lit ''x/%252525252e%252525252e/docs/x''"

lemma decoding_steps:
  "unquote (lit ''x/%252525252e%252525252e/docs/x'') = lit ''x/%2525252e%2525252e/docs/x''"
  "unquote (lit ''x/%2525252e%2525252e/docs/x'') = lit ''x/%25252e%25252e/docs/x''"
  "unquote (lit ''x/%25252e%25252e/docs/x'') = lit ''x/%252e%252e/docs/x''"
  "unquote (lit ''x/%252e%252e/docs/x'') = lit ''x/%2e%2e/docs/x''"
  "unquote (lit ''x/%2e%2e/docs/x'') = lit ''x/../docs/x''"
  "unquote (lit ''x/../docs/x'') = lit ''x/../docs/x''"
  by code_simp+

lemma encoded_normal:
  "normalize_path (PStr five_times_encoded) = Some (lit ''x/%2e%2e/docs/x'')"
  "normalize_path (PStr (lit ''x/%2e%2e/docs/x'')) = Some (lit ''docs/x'')"
proof -
  have "percent_decode five_times_encoded = lit ''x/%2e%2e/docs/x''"
    by (simp add: percent_decode_pow MAX_DECODE_PASSES_def eval_nat_numeral five_times_encoded_def decoding_steps)
  then show "normalize_path (PStr five_times_encoded) = Some (lit ''x/%2e%2e/docs/x'')"
    by (simp add: normalize_path.simps(1) Let_def)
      (simp add: five_times_encoded_def lit_def py_strip_def py_isspace_def MAX_PATH_LENGTH_def is_control_def
        backslashes_to_slashes_def)
  have "percent_decode (lit ''x/%2e%2e/docs/x'') = lit ''x/../docs/x''"
    by (simp add: percent_decode_pow MAX_DECODE_PASSES_def eval_nat_numeral decoding_steps)
  then show "normalize_path (PStr (lit ''x/%2e%2e/docs/x'')) = Some (lit ''docs/x'')"
    by (simp add: normalize_path.simps(1) Let_def)
      (simp add: lit_def py_strip_def py_isspace_def MAX_PATH_LENGTH_def is_control_def
        backslashes_to_slashes_def)
qed

text \<open>C19: a path five times encoded is allowed under a grant of \<open>docs\<close>, and the transport is
  called on a path that is not below \<open>docs\<close>.\<close>

theorem encoded_path_leaves_the_grant:
  "\<exists>e w'. run_op example_layer leaky (Read_req (lit ''home'') (PStr five_times_encoded) None) example_world
      = (Inl (Webdav_error 500 (lit ''[redacted] is not welcome'')), w')
    \<and> w_trace w' = [Logged e, Called (lit ''home'') (Get (lit ''x/%2e%2e/docs/x''))]
    \<and> \<not> inside (lit ''docs'') (lit ''x/%2e%2e/docs/x'')"
proof -
  obtain w1 where c: "consult (lit ''home'') (lit ''docs/x'') READ example_world
     = (Inr \<lparr>d_allowed = True, d_grant_id = Some 1, d_reason = lit ''ok''\<rparr>, w1)"
    "w_audit w1 = Some (new_log [], new_disk)" "w_trace w1 = []" "w_io w1 = (\<lambda>n. (Write_ok, Write_ok))"
    using example_consult [of READ] by (auto simp: example_world_def)
  have "check_access (PStr (lit ''x/%2e%2e/docs/x'')) READ gs now = check_access (PStr (lit ''docs/x'')) READ gs now"
    for gs now by (simp add: check_access_def encoded_normal docs_x_normal)
  then have c': "consult (lit ''home'') (lit ''x/%2e%2e/docs/x'') READ example_world
     = (Inr \<lparr>d_allowed = True, d_grant_id = Some 1, d_reason = lit ''ok''\<rparr>, w1)"
    using c(1) by (simp only: consult_def)
  have g: "namespace_guard (PStr five_times_encoded) = Some (lit ''x/%2e%2e/docs/x'')"
    by (simp add: namespace_guard_def encoded_normal Let_def)
      (simp add: namespace_of_def lit_def py_lower_def py_lower_cp_def)
  have a: "authorized example_layer (lit ''home'') (PStr five_times_encoded) READ example_world
      = (Inr (lit ''x/%2e%2e/docs/x''), w1)"
    using c' by (simp add: authorized_def g example_client)
  have "\<not> inside (lit ''docs'') (lit ''x/%2e%2e/docs/x'')" by (simp add: inside_def lit_def)
  then show ?thesis using example_call [OF c(2-4)]
    unfolding run_op.simps read_op_def guarded_op_def a by simp
qed

end
