(* ===== verification/Grant_Text.thy ===== *)
theory Grant_Text
  imports Grants
begin

text \<open>
  The texts that \<open>broker/grants.py\<close> makes: the messages of its exceptions and the status
  block of \<open>summary\<close>. The \<open>repr\<close> of a value is a parameter; it occurs in messages only.
\<close>

fun state_text :: "gstate \<Rightarrow> pystr" where
  "state_text Pending = lit ''pending''"
| "state_text Active = lit ''active''"
| "state_text Expired = lit ''expired''"
| "state_text Revoked = lit ''revoked''"
| "state_text Rejected = lit ''rejected''"

fun error_text :: "(pyval \<Rightarrow> pystr) \<Rightarrow> store_error \<Rightarrow> pystr" where
  "error_text rp Empty_reason = lit ''reason must be a non-empty string''"
| "error_text rp Empty_items = lit ''items must be a non-empty list''"
| "error_text rp (Unknown_instance i) = lit ''unknown instance: '' @ rp (PStr i)"
| "error_text rp (Invalid_mode m) = lit ''invalid mode: '' @ rp m"
| "error_text rp (Invalid_path p) = lit ''invalid path: '' @ rp p"
| "error_text rp (Invalid_expiry t) = lit ''invalid expiry string: '' @ rp (PStr t)"
| "error_text rp (Expiry_not_positive t) = lit ''expiry must be positive: '' @ rp (PStr t)"
| "error_text rp (Invalid_item_number n) = lit ''invalid item number: '' @ rp (PInt n)"
| "error_text rp (Already_decided rid st) =
     lit ''grant '' @ py_str_int rid @ lit '' already decided ('' @ state_text st @ lit '')''"
| "error_text rp (No_grant rid) = lit ''no grant with id '' @ py_str_int rid"
| "error_text rp Missing_expiry = lit ''fromisoformat: argument must be str''"
| "error_text rp (Duplicate_event ev) = lit ''UNIQUE constraint failed: posted_messages.event_id''"

text \<open>\<open>str.upper\<close> of the modes, which are ASCII.\<close>

definition py_upper :: "pystr \<Rightarrow> pystr" where
  "py_upper s = map (\<lambda>c. if 97 \<le> c \<and> c \<le> 122 then c - 32 else c) s"

text \<open>\<open>f"{hours:.0f}"\<close> of a duration in microseconds: the nearest number of hours, the even
  one of two, with the sign of the duration.\<close>

definition round_hours :: "int \<Rightarrow> pystr" where
  "round_hours d =
     (let h = 3600 * MICROSECONDS; q = \<bar>d\<bar> div h; r = \<bar>d\<bar> mod h;
          n = (if 2 * r > h \<or> 2 * r = h \<and> odd q then q + 1 else q)
      in (if d < 0 then [45] else []) @ py_str_int n)"

text \<open>The loop of \<open>summary\<close>: without an instant given, each line reads the clock.\<close>

fun summary_lines :: "int option \<Rightarrow> grant_record list \<Rightarrow> store \<Rightarrow> (store_error + pystr list) \<times> store" where
  "summary_lines given [] s = (Inr [], s)"
| "summary_lines given (rec # recs) s =
     (case gr_expires_at rec of
        None \<Rightarrow> (Inl Missing_expiry, s)
      | Some expires \<Rightarrow>
          (let (now, s1) = (case given of Some n \<Rightarrow> (n, s) | None \<Rightarrow> read_clock s);
               paths = join_on (lit '', '') (map (\<lambda>i. py_upper (i_mode i) @ lit '' '' @ i_path i) (gr_items rec));
               line = lit ''Grant #'' @ py_str_int (gr_id rec) @ lit '' active - '' @ gr_instance rec
                 @ lit '' - '' @ paths @ lit '' - '' @ round_hours (expires - now) @ lit ''h left''
           in case summary_lines given recs s1 of
                (Inl e, s2) \<Rightarrow> (Inl e, s2)
              | (Inr ls, s2) \<Rightarrow> (Inr (line # ls), s2)))"

definition summary :: "int option \<Rightarrow> store \<Rightarrow> (store_error + pystr) \<times> store" where
  "summary given s =
     (case active_grants None s of
        (Inl e, s1) \<Rightarrow> (Inl e, s1)
      | (Inr recs, s1) \<Rightarrow>
          (case summary_lines given recs s1 of
             (Inl e, s2) \<Rightarrow> (Inl e, s2)
           | (Inr ls, s2) \<Rightarrow>
               (let pending = length (filter (\<lambda>r. r_state r = Pending) (rows s2));
                    last = (if ls \<noteq> [] then lit ''Pending: '' @ nat_digits pending
                      else lit ''No active grants.''
                        @ (if pending \<noteq> 0 then lit '' Pending: '' @ nat_digits pending
                           else lit '' Pending: none''))
                in (Inr (join_on [10] (ls @ [last])), s2))))"

end
