(* ===== verification/Matrixbot.thy ===== *)
theory Matrixbot
  imports Grant_Text "HOL-Library.List_Lexorder"
begin

text \<open>
  The approval bot, \<open>broker/matrixbot.py\<close>: the parser of replies with its two patterns, the
  suggestion for an unknown command, the texts it posts, and its handlers of reactions,
  replies and of the sweep, with the undo windows.

  The Matrix transport is a parameter in the state of the bot: the n-th call of
  \<open>send_message\<close> or \<open>add_reaction\<close> succeeds with an event id or raises. Each such call is
  an \<open>await\<close>, so other tasks may use the store meanwhile: what they do during the n-th call
  is the list \<open>b_others n\<close> of calls of the store. The clock of the bot is the clock of the
  store, as \<open>run.py\<close> wires them; instants count microseconds of UTC.
\<close>

section \<open>Replies\<close>

definition APPROVE_EMOJI :: pystr where "APPROVE_EMOJI = [128077]"
definition REJECT_EMOJI :: pystr where "REJECT_EMOJI = [128078]"
definition REVOKE_EMOJI :: pystr where "REVOKE_EMOJI = [128711]"
definition STATUS_EMOJI :: pystr where "STATUS_EMOJI = [128203]"

definition name_first :: "cp \<Rightarrow> bool" where
  "name_first c \<longleftrightarrow> ci_letter c \<or> c = 95"

definition name_rest :: "cp \<Rightarrow> bool" where
  "name_rest c \<longleftrightarrow> ci_letter c \<or> 48 \<le> c \<and> c \<le> 57 \<or> c = 95 \<or> c = 45"

definition REPLY_RE :: re where
  "REPLY_RE = Seq
     (Grp 1 (Alt (str_re_ci (lit ''approve'')) (Alt (str_re_ci (lit ''reject''))
       (Alt (str_re_ci (lit ''revoke'')) (Alt (str_re_ci (lit ''undo'')) (str_re_ci (lit ''status'')))))))
     (Seq (Rep True 0 None py_isspace)
     (Seq (Opt (Grp 2 (Alt (Rep True 1 None py_isdecimal)
                        (Seq (Cls name_first) (Rep True 0 None name_rest)))))
     (Seq (Opt (Seq (Rep True 1 None py_isspace) (Grp 3 (Rep True 1 None (\<lambda>c. py_isdecimal c \<or> c = 44)))))
     (Seq (Opt (Seq (Rep True 1 None py_isspace)
        (Grp 4 (Seq (Rep True 1 (Some 3) py_isdecimal)
                 (Cls (\<lambda>c. ci_eq 104 c \<or> ci_eq 109 c \<or> ci_eq 100 c))))))
      Eos))))"

definition REVOKE_TARGET_RE :: re where
  "REVOKE_TARGET_RE = Seq (str_re_ci (lit ''revoke'')) (Seq (Rep True 1 None py_isspace)
     (Seq (Grp 1 (Alt (str_re_ci (lit ''all''))
        (Grp 2 (Seq (Cls (\<lambda>c. ci_letter c \<or> 48 \<le> c \<and> c \<le> 57)) (Rep True 0 None name_rest)))))
      Eos))"

datatype parsed =
    Status_reply
  | Revoke_all
  | Revoke_instance pystr
  | Undo_reply int
  | Decide_reply pystr int "int list option" "pystr option"

datatype bot_error = Value_error | Store_raised store_error | Unreachable pystr | Other_raised pystr

text \<open>\<open>str.isdigit\<close> of what group 2 can match: decimal digits, or a word that begins with a
  letter.\<close>

definition py_isdigit :: "pystr \<Rightarrow> bool" where
  "py_isdigit s \<longleftrightarrow> s \<noteq> [] \<and> (\<forall>c \<in> set s. py_isdecimal c)"

text \<open>\<open>[int(x) for x in items.split(",")]\<close>.\<close>

fun ints :: "pystr list \<Rightarrow> int list option" where
  "ints [] = Some []"
| "ints (x # xs) = (case py_int x of None \<Rightarrow> None | Some n \<Rightarrow> map_option ((#) n) (ints xs))"

definition parse_target :: "pystr \<Rightarrow> parsed option" where
  "parse_target s =
     (case re_match REVOKE_TARGET_RE s of
        None \<Rightarrow> None
      | Some (_, c) \<Rightarrow>
          (case re_group c 1 of
             None \<Rightarrow> None
           | Some t \<Rightarrow>
               (let target = py_lower t
                in if target = lit ''all'' then Some Revoke_all else Some (Revoke_instance target))))"

definition parse_numbered :: "pystr \<Rightarrow> pystr \<Rightarrow> captures \<Rightarrow> bot_error + parsed option" where
  "parse_numbered action number c =
     (case py_int number of
        None \<Rightarrow> Inl Value_error
      | Some rid \<Rightarrow>
          if rid \<le> 0 then Inr None
          else if action = lit ''undo'' then Inr (Some (Undo_reply rid))
          else (case re_group c 3 of
                  None \<Rightarrow> Inr (Some (Decide_reply action rid None (re_group c 4)))
                | Some items \<Rightarrow>
                    if items = [] then Inr (Some (Decide_reply action rid None (re_group c 4)))
                    else (case ints (split_on 44 items) of
                            None \<Rightarrow> Inl Value_error
                          | Some ns \<Rightarrow>
                              if \<exists>n \<in> set ns. n \<le> 0 then Inr None
                              else Inr (Some (Decide_reply action rid (Some ns) (re_group c 4))))))"

definition parse_reply :: "pyval \<Rightarrow> bot_error + parsed option" where
  "parse_reply text =
     (case text of
        PStr t \<Rightarrow>
          (case re_match REPLY_RE (py_strip t) of
             None \<Rightarrow> Inr None
           | Some (_, c) \<Rightarrow>
               (let action = py_lower (the (re_group c 1))
                in if action = lit ''status'' then Inr (Some Status_reply)
                   else (case re_group c 2 of
                           None \<Rightarrow> Inr None
                         | Some number \<Rightarrow>
                             if action \<noteq> lit ''revoke'' \<and> \<not> py_isdigit number then Inr None
                             else if action = lit ''revoke'' \<and> \<not> py_isdigit number
                             then Inr (parse_target (py_strip t))
                             else parse_numbered action number c)))
      | _ \<Rightarrow> Inr None)"

section \<open>Suggestions\<close>

definition COMMANDS :: "pystr list" where
  "COMMANDS = [lit ''approve'', lit ''reject'', lit ''revoke'', lit ''undo'', lit ''status'']"

text \<open>
  \<open>difflib.get_close_matches(word, COMMANDS, n=1, cutoff=0.6)\<close>. The blocks that two strings
  have in common: the longest one, the first in the first string of several, then in the
  second, and so on to its left and right. The ratio is twice their length by the sum of the
  lengths; it is compared as a fraction. \<open>difflib\<close> ignores popular characters of a word of
  200 characters or more, whose ratio with a command is below the cutoff in any case.
\<close>

fun common_prefix :: "'a list \<Rightarrow> 'a list \<Rightarrow> nat" where
  "common_prefix (x # xs) (y # ys) = (if x = y then Suc (common_prefix xs ys) else 0)"
| "common_prefix _ _ = 0"

definition blocks :: "'a list \<Rightarrow> 'a list \<Rightarrow> (nat \<times> nat \<times> nat) list" where
  "blocks a b = concat (map (\<lambda>i. map (\<lambda>j. (i, j, common_prefix (drop i a) (drop j b)))
     [0 ..< length b]) [0 ..< length a])"

fun longest :: "(nat \<times> nat \<times> nat) list \<Rightarrow> nat \<times> nat \<times> nat" where
  "longest [] = (0, 0, 0)"
| "longest (b # bs) = (let m = longest bs in if snd (snd m) \<le> snd (snd b) then b else m)"

lemma longest_mem: "longest bs \<noteq> (0, 0, 0) \<Longrightarrow> longest bs \<in> set bs"
  by (induction bs) (auto simp: Let_def split: if_splits)

lemma block_bounds: "longest (blocks a b) = (i, j, k) \<Longrightarrow> 0 < k \<Longrightarrow> i < length a \<and> j < length b"
  using longest_mem [of "blocks a b"] by (auto simp: blocks_def)

function matched :: "'a list \<Rightarrow> 'a list \<Rightarrow> nat" where
  "matched a b =
     (case longest (blocks a b) of (i, j, k) \<Rightarrow>
        if k = 0 then 0
        else k + matched (take i a) (take j b) + matched (drop (i + k) a) (drop (j + k) b))"
  by pat_completeness auto
termination
  by (relation "measure (\<lambda>(a, b). length a)") (auto dest: block_bounds [OF sym])

declare matched.simps [simp del]

text \<open>The best of the commands that are close enough: the larger score, then the larger word.\<close>

fun best_match :: "pystr \<Rightarrow> pystr list \<Rightarrow> (nat \<times> nat \<times> pystr) option" where
  "best_match word [] = None"
| "best_match word (x # xs) =
     (let m = matched x word; t = length x + length word; rest = best_match word xs
      in if 10 * m < 3 * t then rest
         else (case rest of
                 None \<Rightarrow> Some (m, t, x)
               | Some (m', t', y) \<Rightarrow>
                   if m' * t < m * t' \<or> m' * t = m * t' \<and> y < x then Some (m, t, x)
                   else Some (m', t', y)))"

definition closest_command :: "pystr \<Rightarrow> pystr option" where
  "closest_command word =
     (if word = [] then None
      else map_option (\<lambda>(m, t, x). x) (best_match (py_lower word) COMMANDS))"

section \<open>The bot\<close>

definition UNDO_GRACE_SECONDS :: int where
  "UNDO_GRACE_SECONDS = 15"

record undo_window =
  uw_deadline :: int
  uw_instance :: pystr
  uw_reason :: pystr
  uw_items :: "item list"

datatype net_outcome = Net_ok pystr | Net_fails bot_error

datatype room_event = Said pystr pystr | Reacted pystr pystr

record bot =
  b_store :: store
  b_approver :: pystr
  b_swept :: "int set"
  b_undo :: "int \<rightharpoonup> undo_window"
  b_repr :: "pyval \<Rightarrow> pystr"
  b_net :: "nat \<Rightarrow> net_outcome"
  b_others :: "nat \<Rightarrow> gop list"
  b_calls :: nat
  b_room :: "room_event list"

text \<open>A step of the bot returns or raises, in the state it leaves.\<close>

type_synonym 'a step = "bot \<Rightarrow> (bot_error + 'a) \<times> bot"

definition give :: "'a \<Rightarrow> 'a step" where
  "give x b = (Inr x, b)"

definition and_then :: "'a step \<Rightarrow> ('a \<Rightarrow> 'b step) \<Rightarrow> 'b step" where
  "and_then f g b = (case f b of (Inl e, b1) \<Rightarrow> (Inl e, b1) | (Inr x, b1) \<Rightarrow> g x b1)"

definition on_store :: "(store \<Rightarrow> (store_error + 'a) \<times> store) \<Rightarrow> 'a step" where
  "on_store f b =
     (case f (b_store b) of
        (Inl e, s) \<Rightarrow> (Inl (Store_raised e), b\<lparr>b_store := s\<rparr>)
      | (Inr x, s) \<Rightarrow> (Inr x, b\<lparr>b_store := s\<rparr>))"

definition now_step :: "int step" where
  "now_step b = (case read_clock (b_store b) of (now, s) \<Rightarrow> (Inr now, b\<lparr>b_store := s\<rparr>))"

text \<open>\<open>try: f except ... as exc: h\<close> for some of the exceptions of the store.\<close>

definition catching :: "(store_error \<Rightarrow> bool) \<Rightarrow> 'a step \<Rightarrow> (store_error \<Rightarrow> 'a step) \<Rightarrow> 'a step" where
  "catching p f h b =
     (case f b of
        (Inl (Store_raised e), b1) \<Rightarrow> if p e then h e b1 else (Inl (Store_raised e), b1)
      | r \<Rightarrow> r)"

text \<open>\<open>except (ValueError, LookupError)\<close>.\<close>

definition is_refusal :: "store_error \<Rightarrow> bool" where
  "is_refusal e \<longleftrightarrow> is_value_error e \<or> (\<exists>rid. e = No_grant rid)"

text \<open>One call of the transport, with what other tasks do meanwhile.\<close>

definition net_call :: "(pystr \<Rightarrow> room_event) \<Rightarrow> pystr step" where
  "net_call ev b =
     (let k = b_calls b;
          b1 = b\<lparr>b_calls := Suc k, b_store := fold exec_gop (b_others b k) (b_store b)\<rparr>
      in case b_net b k of
           Net_fails e \<Rightarrow> (Inl e, b1)
         | Net_ok i \<Rightarrow> (Inr i, b1\<lparr>b_room := b_room b @ [ev i]\<rparr>))"

definition say :: "pystr \<Rightarrow> pystr step" where
  "say text = net_call (\<lambda>i. Said text i)"

definition add_reaction :: "pystr \<Rightarrow> pystr \<Rightarrow> pystr step" where
  "add_reaction event_id emoji = net_call (\<lambda>_. Reacted event_id emoji)"

section \<open>Texts\<close>

definition lines :: "pystr list \<Rightarrow> pystr" where
  "lines ls = join_on [10] ls"

definition dash :: pystr where "dash = lit '' '' @ [8212] @ lit '' ''"

definition dot :: pystr where "dot = lit '' '' @ [183] @ lit '' ''"

definition rule :: pystr where
  "rule = [10, 10, 8212, 8212, 8212, 10, 10]"

definition HELP_TEXT :: pystr where
  "HELP_TEXT = lines
     [lit ''**How to decide**'',
      [],
      lit ''**Reactions**'' @ dash @ lit ''tap on a request message:'',
      [128077] @ lit '' approve all'' @ dot @ [128078] @ lit '' reject all'' @ dot @ [9940]
        @ lit '' revoke an active grant'' @ dot @ [128203] @ lit '' status'',
      [],
      lit ''**Commands**'' @ dash @ lit ''type in this room:'',
      lit ''`approve <id> [items] [expiry]`'' @ dash @ lit ''e.g. `approve 3 8h`, `approve 3 1,2 30m`'',
      lit ''`reject <id>`'' @ dot @ lit ''`revoke <id>`'' @ dot @ lit ''`revoke <instance>`'' @ dot
        @ lit ''`revoke all`'' @ [32, 183],
      lit ''`undo <id>` (15s after a reject/revoke)'' @ dot @ lit ''`status`'',
      [],
      lit ''`<required>` `[optional]`. The **#** shown in messages is **not part** of'',
      lit ''the id: type `approve 3`, never `approve #3`. Expiry: `8h`, `30m`, `2d`.'']"

definition format_remaining :: "int \<Rightarrow> pystr" where
  "format_remaining delta =
     (let seconds = max 0 (delta div MICROSECONDS)
      in if seconds \<ge> 2 * 3600 then py_str_int (seconds div 3600) @ lit ''h''
         else py_str_int (seconds div 60) @ lit ''m'')"

definition item_line :: "item \<Rightarrow> pystr" where
  "item_line i = lit ''**'' @ py_upper (i_mode i) @ lit ''** `'' @ i_path i @ lit ''`''"

definition render_request :: "grant_record \<Rightarrow> pystr" where
  "render_request req = lines
     ([[9203] @ lit '' **PENDING #'' @ py_str_int (gr_id req) @ lit ''**'' @ dash @ lit ''awaiting your approval'',
       lit ''Instance: **'' @ gr_instance req @ lit ''**'',
       lit ''Reason: '' @ gr_reason req]
      @ map (\<lambda>(i, it). nat_digits i @ lit ''. '' @ item_line it) (enumerate 1 (gr_items req))
      @ [lit ''Expiry if approved: 24h (or reply a shorter one, e.g. `approve 3 8h`)'',
         lit ''Decide: `approve|reject <id> [expiry]`''])"

definition modes_label :: "grant_record \<Rightarrow> pystr" where
  "modes_label rec = join_on (lit ''+'') (sort (remdups (map (\<lambda>i. py_upper (i_mode i)) (gr_items rec))))"

text \<open>\<open>_active_grant_lines\<close> reads the clock once. Its \<open>assert\<close> on the expiry cannot fail:
  \<open>active_grants\<close> has computed the state of the record from the same expiry.\<close>

definition active_grant_lines :: "grant_record \<Rightarrow> bool \<Rightarrow> store \<Rightarrow> (store_error + pystr list) \<times> store" where
  "active_grant_lines rec with_instance s =
     (case gr_expires_at rec of
        None \<Rightarrow> (Inl Missing_expiry, s)
      | Some expires \<Rightarrow>
          (let (now, s1) = read_clock s
           in (Inr (([9989] @ lit '' **#'' @ py_str_int (gr_id rec) @ lit ''**'' @ dash @ modes_label rec
                      @ lit '', '' @ format_remaining (expires - now) @ lit '' left''
                      @ (if with_instance then dash @ gr_instance rec else []))
                    # map (\<lambda>i. lit ''   '' @ item_line i) (gr_items rec)), s1)))"

fun grants_lines :: "grant_record list \<Rightarrow> bool \<Rightarrow> store \<Rightarrow> (store_error + pystr list) \<times> store" where
  "grants_lines [] with_instance s = (Inr [], s)"
| "grants_lines (rec # recs) with_instance s =
     (case active_grant_lines rec with_instance s of
        (Inl e, s1) \<Rightarrow> (Inl e, s1)
      | (Inr ls, s1) \<Rightarrow>
          (case grants_lines recs with_instance s1 of
             (Inl e, s2) \<Rightarrow> (Inl e, s2)
           | (Inr ls', s2) \<Rightarrow> (Inr (ls @ ls'), s2)))"

fun grouped_lines :: "pystr list \<Rightarrow> grant_record list \<Rightarrow> store \<Rightarrow> (store_error + pystr list) \<times> store" where
  "grouped_lines [] recs s = (Inr [], s)"
| "grouped_lines (i # is) recs s =
     (case grants_lines (filter (\<lambda>r. gr_instance r = i) recs) False s of
        (Inl e, s1) \<Rightarrow> (Inl e, s1)
      | (Inr ls, s1) \<Rightarrow>
          (case grouped_lines is recs s1 of
             (Inl e, s2) \<Rightarrow> (Inl e, s2)
           | (Inr ls', s2) \<Rightarrow> (Inr ((i @ lit '':'') # ls @ ls'), s2)))"

text \<open>\<open>f"{t:%H:%M}"\<close>.\<close>

definition two_digits :: "int \<Rightarrow> pystr" where
  "two_digits n = (if n < 10 then lit ''0'' else []) @ py_str_int n"

definition hours_minutes :: "int \<Rightarrow> pystr" where
  "hours_minutes t = (let m = (t div (60 * MICROSECONDS)) mod 1440
     in two_digits (m div 60) @ lit '':'' @ two_digits (m mod 60))"

definition pending_line :: "int \<Rightarrow> grant_record \<Rightarrow> pystr" where
  "pending_line now rec =
     (let age = now - gr_created_at rec
      in [9203] @ lit '' **#'' @ py_str_int (gr_id rec) @ lit ''**'' @ dash @ gr_instance rec @ dash
         @ lit ''waiting '' @ format_remaining age
         @ (if age \<ge> 4 * 3600 * MICROSECONDS
            then lit '' (since '' @ hours_minutes (gr_created_at rec) @ lit '')'' @ dash @ lit ''**stale?**''
            else if age \<ge> 3600 * MICROSECONDS
            then lit '' (since '' @ hours_minutes (gr_created_at rec) @ lit '')''
            else []))"

definition footer_parts :: "grant_record list \<Rightarrow> grant_record list \<Rightarrow> pystr list" where
  "footer_parts active pending =
     (if pending \<noteq> [] then [lit ''Decide a request: `approve|reject <id> [expiry]`''] else [])
     @ (if active \<noteq> []
        then [lit ''Revise: `undo <id>` (15s)'' @ dot @ lit ''Kill: `revoke <id>` ''
              @ lit ''(mass: `revoke <instance>` / `revoke all`)'']
        else [])"

definition status_lines :: "store \<Rightarrow> (store_error + pystr list) \<times> store" where
  "status_lines s =
     (case active_grants None s of
        (Inl e, s1) \<Rightarrow> (Inl e, s1)
      | (Inr active, s1) \<Rightarrow>
          (case (let is = remdups (map gr_instance active)
                 in if length is > 1 then grouped_lines (sort is) active s1
                    else grants_lines active True s1) of
             (Inl e, s2) \<Rightarrow> (Inl e, s2)
           | (Inr body, s2) \<Rightarrow>
               (case pending_records s2 of
                  (Inl e, s3) \<Rightarrow> (Inl e, s3)
                | (Inr pending, s3) \<Rightarrow>
                    (let (waiting, s4) =
                           (if pending = [] then ([lit ''Awaiting your approval: none''], s3)
                            else (let (now, s') = read_clock s3
                                  in ((lit ''**Awaiting your approval** ('' @ nat_digits (length pending) @ lit ''):'')
                                      # map (pending_line now) pending, s')));
                         parts = footer_parts active pending
                     in (Inr ([lit ''**Active grants**''] @ (if body = [] then [lit ''none''] else body)
                           @ [[]] @ waiting
                           @ (if parts = [] then [] else [[], join_on dot parts])), s4)))))"

definition status_text :: "store \<Rightarrow> (store_error + pystr) \<times> store" where
  "status_text s = (case status_lines s of (Inl e, s1) \<Rightarrow> (Inl e, s1) | (Inr ls, s1) \<Rightarrow> (Inr (lines ls), s1))"

definition render_decision :: "grant_record \<Rightarrow> pystr \<Rightarrow> pystr option \<Rightarrow> bool \<Rightarrow> store
    \<Rightarrow> (store_error + pystr) \<times> store" where
  "render_decision rec verb expiry undo s =
     (let head = lit ''**'' @ verb @ lit '' #'' @ py_str_int (gr_id rec) @ lit ''**''
            @ (case expiry of
                 Some e \<Rightarrow> if gr_state rec = Active \<and> e \<noteq> [] then lit '' ('' @ e @ lit '').'' else lit ''.''
               | None \<Rightarrow> lit ''.'')
            @ (if gr_items rec = [] then []
               else [10] @ lines (map (\<lambda>i. lit ''  '' @ item_line i) (gr_items rec)))
            @ (if undo then [10, 10] @ lit ''Mistake? `undo '' @ py_str_int (gr_id rec) @ lit ''` within ''
                 @ py_str_int UNDO_GRACE_SECONDS @ lit ''s re-opens it as a new request.'' else [])
      in case status_text s of (Inl e, s1) \<Rightarrow> (Inl e, s1) | (Inr t, s1) \<Rightarrow> (Inr (head @ rule @ t), s1))"

section \<open>Posting\<close>

fun add_reactions :: "pystr \<Rightarrow> pystr list \<Rightarrow> unit step" where
  "add_reactions ev [] = give ()"
| "add_reactions ev (emoji # rest) = and_then (add_reaction ev emoji) (\<lambda>_. add_reactions ev rest)"

definition post_request :: "grant_record \<Rightarrow> pystr step" where
  "post_request req =
     and_then (say (render_request req)) (\<lambda>event_id.
     and_then (add_reactions event_id [APPROVE_EMOJI, REJECT_EMOJI, REVOKE_EMOJI, STATUS_EMOJI]) (\<lambda>_.
     and_then (on_store (record_posted event_id (gr_id req))) (\<lambda>_.
     give event_id)))"

section \<open>Decisions\<close>

definition arm_undo :: "int \<Rightarrow> grant_record \<Rightarrow> unit step" where
  "arm_undo rid rec =
     and_then now_step (\<lambda>now b.
       (Inr (), b\<lparr>b_undo := (b_undo b)(rid \<mapsto>
          \<lparr>uw_deadline = now + UNDO_GRACE_SECONDS * MICROSECONDS, uw_instance = gr_instance rec,
           uw_reason = gr_reason rec, uw_items = gr_items rec\<rparr>)\<rparr>))"

definition or_24h :: "pystr option \<Rightarrow> pystr" where
  "or_24h expiry = (case expiry of None \<Rightarrow> lit ''24h'' | Some e \<Rightarrow> if e = [] then lit ''24h'' else e)"

text \<open>The outcome of \<open>_decide\<close>: the text to post, or the refusal of the store.\<close>

definition decide_text :: "int \<Rightarrow> pystr \<Rightarrow> int list option \<Rightarrow> pystr option \<Rightarrow> pystr step" where
  "decide_text rid action item_numbers expiry =
     (if action = lit ''approve''
      then and_then (on_store (approve rid expiry item_numbers)) (\<lambda>rec.
           on_store (render_decision rec (lit ''Approved'') (Some (or_24h expiry)) False))
      else and_then (on_store (reject rid)) (\<lambda>_.
           and_then (on_store (get_row rid)) (\<lambda>rec.
           and_then (arm_undo rid rec) (\<lambda>_.
           on_store (render_decision rec (lit ''Rejected'') None True)))))"

definition cannot :: "pystr \<Rightarrow> int \<Rightarrow> store_error \<Rightarrow> pystr step" where
  "cannot verb rid e b = give (lit ''Cannot '' @ verb @ lit '' #'' @ py_str_int rid @ lit '': ''
     @ error_text (b_repr b) e) b"

definition decide_request :: "int \<Rightarrow> pystr \<Rightarrow> int list option \<Rightarrow> pystr option \<Rightarrow> unit step" where
  "decide_request rid action item_numbers expiry =
     and_then (catching is_value_error (decide_text rid action item_numbers expiry)
                 (cannot (lit ''approve'') rid)) (\<lambda>text.
     and_then (say text) (\<lambda>_. give ()))"

definition revoke_request :: "int \<Rightarrow> unit step" where
  "revoke_request rid =
     and_then (catching is_refusal
         (and_then (on_store (revoke rid)) (\<lambda>_. give None))
         (\<lambda>e. and_then (cannot (lit ''revoke'') rid e) (\<lambda>t. give (Some t)))) (\<lambda>refusal.
     case refusal of
       Some text \<Rightarrow> and_then (say text) (\<lambda>_. give ())
     | None \<Rightarrow>
         and_then (on_store (get_row rid)) (\<lambda>rec.
         and_then (arm_undo rid rec) (\<lambda>_.
         and_then (on_store (render_decision rec (lit ''Revoked'') None True)) (\<lambda>text.
         and_then (say text) (\<lambda>_. give ())))))"

text \<open>The loop of \<open>_revoke_many\<close>: a grant that can no longer be revoked is passed over.\<close>

fun revoke_each :: "grant_record list \<Rightarrow> int list step" where
  "revoke_each [] = give []"
| "revoke_each (rec # recs) =
     and_then (catching is_refusal (and_then (on_store (revoke (gr_id rec))) (\<lambda>_. give [gr_id rec]))
                 (\<lambda>e. give [])) (\<lambda>ids.
     and_then (revoke_each recs) (\<lambda>rest. give (ids @ rest)))"

definition revoked_text :: "int list \<Rightarrow> pystr" where
  "revoked_text revoked = lit ''**Revoked '' @ nat_digits (length revoked) @ lit '' grant(s)** (''
     @ join_on (lit '', '') (map (\<lambda>i. lit ''#'' @ py_str_int i) revoked) @ lit '').''"

definition revoke_many :: "pystr option \<Rightarrow> unit step" where
  "revoke_many inst =
     and_then (on_store (active_grants inst)) (\<lambda>active b.
       if inst \<noteq> None \<and> active = []
            \<and> (case allowed_instances (b_store b) of None \<Rightarrow> False | Some al \<Rightarrow> the inst \<notin> set al)
       then and_then (say (lit ''Unknown instance '' @ [39] @ the inst @ [39] @ lit ''.'')) (\<lambda>_. give ()) b
       else and_then (revoke_each active) (\<lambda>revoked.
         if revoked = []
         then and_then (say (lit ''Nothing to revoke ('' @ (case inst of None \<Rightarrow> lit ''all instances'' | Some i \<Rightarrow> i)
                          @ lit '').'')) (\<lambda>_. give ())
         else and_then (on_store status_text) (\<lambda>t.
              and_then (say (revoked_text revoked @ rule @ t)) (\<lambda>_. give ()))) b)"

definition post_summary :: "unit step" where
  "post_summary = and_then (on_store status_text) (\<lambda>t. and_then (say t) (\<lambda>_. give ()))"

section \<open>Undo\<close>

definition item_dict :: "item \<Rightarrow> (pystr \<times> pyval) list" where
  "item_dict i = [(lit ''path'', PStr (i_path i)), (lit ''mode'', PStr (i_mode i))]"

definition close_window :: "int \<Rightarrow> bot \<Rightarrow> bot" where
  "close_window rid b = b\<lparr>b_undo := (b_undo b)(rid := None)\<rparr>"

definition window_closed :: "int \<Rightarrow> unit step" where
  "window_closed rid b =
     and_then (say (lit ''Undo window for #'' @ py_str_int rid
       @ lit '' closed. File a new request if access is still needed.'')) (\<lambda>_. give ()) (close_window rid b)"

definition undo_request :: "int \<Rightarrow> unit step" where
  "undo_request rid b =
     (case b_undo b rid of
        None \<Rightarrow> window_closed rid b
      | Some window \<Rightarrow>
          and_then now_step (\<lambda>now b1.
            if now \<ge> uw_deadline window then window_closed rid b1
            else and_then (on_store (create_request (uw_instance window) (PStr (uw_reason window))
                             (map item_dict (uw_items window)))) (\<lambda>req.
                 and_then (post_request req) (\<lambda>_. give ())) (close_window rid b1)) b)"

section \<open>Handlers\<close>

definition handle_reaction :: "pystr \<Rightarrow> pystr \<Rightarrow> pystr \<Rightarrow> unit step" where
  "handle_reaction sender event_id emoji b =
     (if sender \<noteq> b_approver b then give () b
      else (case request_for_event event_id (b_store b) of
              None \<Rightarrow> give () b
            | Some rid \<Rightarrow>
                if emoji = APPROVE_EMOJI then decide_request rid (lit ''approve'') None None b
                else if emoji = REJECT_EMOJI then decide_request rid (lit ''reject'') None None b
                else if emoji = REVOKE_EMOJI then revoke_request rid b
                else if emoji = STATUS_EMOJI then post_summary b
                else give () b))"

text \<open>\<open>text.strip().split(" ", 1)[0]\<close>.\<close>

definition first_word :: "pystr \<Rightarrow> pystr" where
  "first_word text = takeWhile (\<lambda>c. c \<noteq> 32) (py_strip text)"

definition teach :: "pystr \<Rightarrow> unit step" where
  "teach text =
     (case closest_command (first_word text) of
        Some closest \<Rightarrow>
          and_then (say (lit ''Unknown command '' @ [39] @ first_word text @ [39] @ dash @ lit ''closest: `''
            @ closest @ lit ''`. Type `status` to see the command list.'')) (\<lambda>_. give ())
      | None \<Rightarrow> and_then (say HELP_TEXT) (\<lambda>_. give ()))"

definition decide_reply :: "pystr \<Rightarrow> int \<Rightarrow> int list option \<Rightarrow> pystr option \<Rightarrow> unit step" where
  "decide_reply action rid item_numbers expiry =
     and_then (on_store all_records) (\<lambda>records.
       if rid \<notin> gr_id ` set records
       then and_then (say (lit ''No request #'' @ py_str_int rid @ lit '' exists.'')) (\<lambda>_. give ())
       else if action = lit ''approve'' then decide_request rid (lit ''approve'') item_numbers expiry
       else if action = lit ''reject'' then decide_request rid (lit ''reject'') None None
       else revoke_request rid)"

definition handle_reply :: "pystr \<Rightarrow> pystr \<Rightarrow> unit step" where
  "handle_reply sender text b =
     (if sender \<noteq> b_approver b then give () b
      else (case parse_reply (PStr text) of
              Inl e \<Rightarrow> (Inl e, b)
            | Inr None \<Rightarrow> teach text b
            | Inr (Some Status_reply) \<Rightarrow> post_summary b
            | Inr (Some Revoke_all) \<Rightarrow> revoke_many None b
            | Inr (Some (Revoke_instance i)) \<Rightarrow> revoke_many (Some i) b
            | Inr (Some (Undo_reply rid)) \<Rightarrow> undo_request rid b
            | Inr (Some (Decide_reply action rid ns ex)) \<Rightarrow> decide_reply action rid ns ex b))"

text \<open>\<open>sweep\<close>: one notice for each request that timed out.\<close>

fun sweep_each :: "grant_record list \<Rightarrow> unit step" where
  "sweep_each [] = give ()"
| "sweep_each (rec # recs) =
     (\<lambda>b. if gr_state rec = Expired \<and> gr_id rec \<notin> b_swept b
          then and_then (say (lit ''Request #'' @ py_str_int (gr_id rec)
                 @ lit '' expired unanswered. Silence grants nothing.'')) (\<lambda>_ b1.
               sweep_each recs (b1\<lparr>b_swept := insert (gr_id rec) (b_swept b1)\<rparr>)) b
          else sweep_each recs b)"

definition sweep :: "unit step" where
  "sweep = and_then (on_store pending_records) sweep_each"

text \<open>What the bot is called with; \<open>New_request\<close> is the tool server posting a request it
  has created.\<close>

datatype bot_input =
    Reaction pystr pystr pystr
  | Reply pystr pystr
  | Sweep
  | New_request grant_record

fun run_bot :: "bot_input \<Rightarrow> unit step" where
  "run_bot (Reaction sender ev emoji) = handle_reaction sender ev emoji"
| "run_bot (Reply sender text) = handle_reply sender text"
| "run_bot Sweep = sweep"
| "run_bot (New_request req) = and_then (post_request req) (\<lambda>_. give ())"

end
