(* ===== verification/Reply_Properties.thy ===== *)
theory Reply_Properties
  imports Matrixbot
begin

text \<open>
  Printing a decision as the approver types it and reading it back with the parser of
  \<open>broker/matrixbot.py\<close>.
\<close>

section \<open>The first match\<close>

definition first :: "re \<Rightarrow> pystr \<Rightarrow> captures \<Rightarrow> pystr \<times> captures \<Rightarrow> bool" where
  "first r s c m \<longleftrightarrow> (\<exists>ms. re_all r s c = m # ms)"

lemma first_match: "first r s [] m \<Longrightarrow> re_match r s = Some m"
  by (auto simp: first_def re_match_def)

lemma first_Seq: "first a s c (t, d) \<Longrightarrow> first b t d m \<Longrightarrow> first (Seq a b) s c m"
  by (auto simp: first_def)

lemma first_Opt: "first a s c m \<Longrightarrow> first (Opt a) s c m"
  by (auto simp: first_def)

lemma first_Alt: "first a s c m \<Longrightarrow> first (Alt a b) s c m"
  by (auto simp: first_def)

lemma first_Grp: "first a s c (t, d) \<Longrightarrow> s = u @ t \<Longrightarrow> first (Grp i a) s c (t, (i, u) # d)"
  by (auto simp: first_def)

lemma first_skip:
  assumes "\<forall>(t, d) \<in> set (re_all a s c). re_all b t d = []" "first b s c m"
  shows "first (Seq (Opt a) b) s c m"
proof -
  have "concat (map (\<lambda>(t, d). re_all b t d) (re_all a s c)) = []"
    using assms(1) by auto
  then have "re_all (Seq (Opt a) b) s c = re_all b s c"
    by (simp del: concat_eq_Nil_conv)
  with assms(2) show ?thesis by (simp only: first_def)
qed

lemma first_greedy:
  assumes "\<forall>x \<in> set ds. p x" "t = [] \<or> \<not> p (hd t)" "lo \<le> length ds"
    and "case hi of None \<Rightarrow> True | Some h \<Rightarrow> length ds \<le> h"
  shows "first (Rep True lo hi p) (ds @ t) c (t, c)"
  using re_all_greedy [OF assms] by (auto simp: first_def)

section \<open>The parts of the pattern\<close>

definition spaces :: re where
  "spaces = Rep True 1 None py_isspace"

definition expiry_re :: re where
  "expiry_re = Grp 4 (Seq (Rep True 1 (Some 3) py_isdecimal)
     (Cls (\<lambda>c. ci_eq 104 c \<or> ci_eq 109 c \<or> ci_eq 100 c)))"

definition expiry_tail :: re where
  "expiry_tail = Seq (Opt (Seq spaces expiry_re)) Eos"

definition item_char :: "cp \<Rightarrow> bool" where
  "item_char c \<longleftrightarrow> py_isdecimal c \<or> c = 44"

definition items_tail :: re where
  "items_tail = Seq (Opt (Seq spaces (Grp 3 (Rep True 1 None item_char)))) expiry_tail"

definition target_re :: re where
  "target_re = Grp 2 (Alt (Rep True 1 None py_isdecimal) (Seq (Cls name_first) (Rep True 0 None name_rest)))"

definition action_re :: re where
  "action_re = Grp 1 (Alt (str_re_ci (lit ''approve'')) (Alt (str_re_ci (lit ''reject''))
     (Alt (str_re_ci (lit ''revoke'')) (Alt (str_re_ci (lit ''undo'')) (str_re_ci (lit ''status''))))))"

lemma REPLY_RE_parts:
  "REPLY_RE = Seq action_re (Seq (Rep True 0 None py_isspace) (Seq (Opt target_re) items_tail))"
  by (simp add: REPLY_RE_def action_re_def target_re_def items_tail_def expiry_tail_def expiry_re_def
      spaces_def item_char_def [abs_def])

lemma digit_chars:
  assumes "c \<in> set (nat_digits n)"
  shows "py_isdecimal c" "\<not> py_isspace c" "c \<noteq> 44"
  using nat_digits_ascii [OF assms] py_isdecimal_ascii by (auto simp: py_isspace_def)

lemma nat_digits_hd: "\<not> py_isspace (hd (nat_digits n @ t))"
  using digit_chars(2) [of "hd (nat_digits n)" n] by simp

lemma space_char: "py_isspace 32" "\<not> py_isdecimal 32" "\<not> item_char 32"
  by (simp_all add: py_isspace_def item_char_def py_isdecimal_def py_digit_def digit_zeros_def)

lemma spaces_one: "t \<noteq> [] \<Longrightarrow> \<not> py_isspace (hd t) \<Longrightarrow> re_all spaces (32 # t) c = [(t, c)]"
  using space_char(1) by (cases t) (auto simp: spaces_def rep_counts_def)

lemma spaces_none: "s = [] \<or> \<not> py_isspace (hd s) \<Longrightarrow> re_all spaces s c = []"
  by (cases s) (auto simp: spaces_def rep_counts_def)

lemma expiry_tail_fails:
  assumes "s \<noteq> []" "\<not> py_isspace (hd s)"
  shows "re_all expiry_tail s c = []"
proof -
  have "s \<noteq> [10]" using assms(2) by (auto simp: py_isspace_def)
  with assms spaces_none [of s c] show ?thesis by (simp add: expiry_tail_def)
qed

section \<open>What is printed\<close>

definition UNITS :: "cp set" where
  "UNITS = {104, 109, 100}"

lemma unit_chars:
  assumes "u \<in> UNITS"
  shows "\<not> py_isspace u" "\<not> py_isdecimal u" "\<not> item_char u"
proof -
  have "\<not> py_isdecimal 104" "\<not> py_isdecimal 109" "\<not> py_isdecimal 100"
    by (simp_all add: py_isdecimal_def py_digit_def digit_zeros_def)
  then show "\<not> py_isdecimal u" using assms by (auto simp: UNITS_def)
  then show "\<not> item_char u" using assms by (auto simp: UNITS_def item_char_def)
  show "\<not> py_isspace u" using assms by (auto simp: UNITS_def py_isspace_def)
qed

definition print_expiry :: "(nat \<times> cp) option \<Rightarrow> pystr" where
  "print_expiry ex = (case ex of None \<Rightarrow> [] | Some (v, u) \<Rightarrow> nat_digits v @ [u])"

definition spaced :: "pystr \<Rightarrow> pystr" where
  "spaced s = (if s = [] then [] else 32 # s)"

definition expiry_ok :: "(nat \<times> cp) option \<Rightarrow> bool" where
  "expiry_ok ex \<longleftrightarrow> (case ex of None \<Rightarrow> True | Some (v, u) \<Rightarrow> v < 1000 \<and> u \<in> UNITS)"

definition print_items :: "nat list \<Rightarrow> pystr" where
  "print_items ns = join_on [44] (map nat_digits ns)"

text \<open>\<open>approve 47 1,2 8h\<close>.\<close>

definition print_reply :: "pystr \<Rightarrow> nat \<Rightarrow> nat list \<Rightarrow> (nat \<times> cp) option \<Rightarrow> pystr" where
  "print_reply action n ns ex =
     action @ 32 # nat_digits n @ spaced (print_items ns) @ spaced (print_expiry ex)"

definition expiry_capture :: "(nat \<times> cp) option \<Rightarrow> captures" where
  "expiry_capture ex = (case ex of None \<Rightarrow> [] | Some e \<Rightarrow> [(4, print_expiry (Some e))])"

lemma first_expiry:
  assumes "expiry_ok ex"
  shows "first expiry_tail (spaced (print_expiry ex)) c ([], expiry_capture ex @ c)"
proof (cases ex)
  case None
  then show ?thesis
    using spaces_none [of "[]" c]
    by (simp add: first_def expiry_tail_def expiry_capture_def print_expiry_def spaced_def)
next
  case (Some e)
  then obtain v u where e: "ex = Some (v, u)" "v < 1000" "u \<in> UNITS"
    using assms by (cases e) (simp add: expiry_ok_def)
  have len: "1 \<le> length (nat_digits v)" "length (nat_digits v) \<le> 3"
    using length_nat_digits [of v 3] e(2) nat_digits_nonempty [of v] by (auto simp: Suc_le_eq simp del: nat_digits_nonempty)
  have "first (Rep True 1 (Some 3) py_isdecimal) (nat_digits v @ [u]) c ([u], c)"
    using digit_chars(1) unit_chars(2) [OF e(3)] len by (intro first_greedy) auto
  moreover have "first (Cls (\<lambda>c. ci_eq 104 c \<or> ci_eq 109 c \<or> ci_eq 100 c)) [u] c ([], c)"
    using e(3) by (auto simp: first_def UNITS_def ci_eq_def)
  ultimately have "first expiry_re (nat_digits v @ [u]) c ([], (4, nat_digits v @ [u]) # c)"
    unfolding expiry_re_def by (intro first_Grp first_Seq) auto
  moreover have "first spaces (32 # nat_digits v @ [u]) c (nat_digits v @ [u], c)"
    using spaces_one [of "nat_digits v @ [u]" c] nat_digits_hd by (simp add: first_def)
  ultimately have "first (Opt (Seq spaces expiry_re)) (32 # nat_digits v @ [u]) c ([], (4, nat_digits v @ [u]) # c)"
    by (intro first_Opt first_Seq)
  moreover have "first Eos [] d ([], d)" for d by (simp add: first_def)
  ultimately show ?thesis
    using e(1) first_Seq
    by (fastforce simp: expiry_tail_def expiry_capture_def print_expiry_def spaced_def)
qed

definition items_capture :: "nat list \<Rightarrow> captures" where
  "items_capture ns = (if ns = [] then [] else [(3, print_items ns)])"

lemma print_items_chars: "c \<in> set (print_items ns) \<Longrightarrow> item_char c \<and> \<not> py_isspace c"
  using set_join_on [of "[44]" "map nat_digits ns"] digit_chars
  by (fastforce simp: print_items_def item_char_def py_isspace_def)

lemma print_items_nonempty: "ns \<noteq> [] \<Longrightarrow> print_items ns \<noteq> []"
  by (cases ns) (auto simp: print_items_def join_on_Cons)

lemma first_items:
  assumes "expiry_ok ex"
  shows "first items_tail (spaced (print_items ns) @ spaced (print_expiry ex)) c
    ([], expiry_capture ex @ items_capture ns @ c)"
proof (cases "ns = []")
  case True
  let ?s = "spaced (print_expiry ex)"
  have "\<forall>(t, d) \<in> set (re_all (Seq spaces (Grp 3 (Rep True 1 None item_char))) ?s c). re_all expiry_tail t d = []"
  proof (cases ex)
    case None
    then show ?thesis using spaces_none [of "[]" c] by (simp add: print_expiry_def spaced_def)
  next
    case (Some e)
    then obtain v u where e: "ex = Some (v, u)" "u \<in> UNITS"
      using assms by (cases e) (simp add: expiry_ok_def)
    let ?t = "nat_digits v @ [u]"
    have sp: "re_all spaces (32 # ?t) c = [(?t, c)]"
      using nat_digits_hd by (intro spaces_one) simp_all
    have "re_all expiry_tail (drop k ?t) d = []" if "k \<le> length (takeWhile item_char ?t)" for k d
    proof (rule expiry_tail_fails)
      have tw: "takeWhile item_char ?t = nat_digits v"
        using digit_chars(1) unit_chars(3) [OF e(2)]
        by (intro takeWhile_append_stop) (auto simp: item_char_def)
      then have k: "k \<le> length (nat_digits v)" using that by simp
      then show "drop k ?t \<noteq> []" by simp
      have "hd (drop k ?t) \<in> set ?t" using k by (metis hd_in_set in_set_dropD \<open>drop k ?t \<noteq> []\<close>)
      then show "\<not> py_isspace (hd (drop k ?t))"
        using digit_chars(2) unit_chars(1) [OF e(2)] by auto
    qed
    then show ?thesis
      using sp e(1) rep_counts_mem by (auto simp: print_expiry_def spaced_def)
  qed
  then show ?thesis
    using first_skip first_expiry [OF assms] True
    by (simp add: items_tail_def items_capture_def print_items_def spaced_def)
next
  case False
  let ?b = "print_items ns" and ?t = "spaced (print_expiry ex)"
  have ne: "?b \<noteq> []" by (rule print_items_nonempty [OF False])
  have t: "?t = [] \<or> \<not> item_char (hd ?t)" using space_char(3) by (simp add: spaced_def)
  have "first (Rep True 1 None item_char) (?b @ ?t) c (?t, c)"
    using print_items_chars t ne by (intro first_greedy) (auto simp: Suc_le_eq)
  moreover have "first spaces (32 # ?b @ ?t) c (?b @ ?t, c)"
    using spaces_one [of "?b @ ?t" c] print_items_chars [of "hd ?b" ns] ne by (simp add: first_def)
  ultimately have "first (Opt (Seq spaces (Grp 3 (Rep True 1 None item_char)))) (32 # ?b @ ?t) c (?t, (3, ?b) # c)"
    by (intro first_Opt first_Seq first_Grp) auto
  from first_Seq [OF this first_expiry [OF assms]] show ?thesis
    using False ne by (simp add: items_tail_def items_capture_def spaced_def)
qed

lemma first_target:
  assumes "t = [] \<or> hd t = 32"
  shows "first (Opt target_re) (nat_digits n @ t) c (t, (2, nat_digits n) # c)"
proof -
  have "first (Rep True 1 None py_isdecimal) (nat_digits n @ t) c (t, c)"
    using digit_chars(1) assms space_char(2) nat_digits_nonempty [of n]
    by (intro first_greedy) (auto simp: Suc_le_eq simp del: nat_digits_nonempty)
  then show ?thesis unfolding target_re_def by (intro first_Opt first_Grp first_Alt) auto
qed

lemma first_action:
  assumes "w \<in> {lit ''approve'', lit ''reject'', lit ''revoke''}"
  shows "first action_re (w @ 32 # t) c (32 # t, (1, w) # c)"
  using assms by (auto simp: first_def action_re_def lit_def ci_eq_def)

lemma first_reply:
  assumes "w \<in> {lit ''approve'', lit ''reject'', lit ''revoke''}" "expiry_ok ex"
  shows "first REPLY_RE (print_reply w n ns ex) []
    ([], expiry_capture ex @ items_capture ns @ [(2, nat_digits n), (1, w)])"
proof -
  let ?t = "spaced (print_items ns) @ spaced (print_expiry ex)"
  have "first (Rep True 0 None py_isspace) ([32] @ nat_digits n @ ?t) d (nat_digits n @ ?t, d)" for d
    using space_char(1) nat_digits_hd by (intro first_greedy) auto
  moreover have "?t = [] \<or> hd ?t = 32" by (auto simp: spaced_def)
  ultimately show ?thesis
    unfolding REPLY_RE_parts print_reply_def
    by (intro first_Seq [OF first_action [OF assms(1)]] first_Seq [OF _ first_Seq [OF first_target first_items [OF assms(2)]]])
      auto
qed

section \<open>Reading back\<close>

lemma split_items: "ns \<noteq> [] \<Longrightarrow> split_on 44 (print_items ns) = map nat_digits ns"
  unfolding print_items_def by (rule split_join_on) (auto dest: digit_chars(3))

lemma py_int_digits: "n < 10 ^ MAX_STR_DIGITS \<Longrightarrow> py_int (nat_digits n) = Some (int n)"
  using length_nat_digits [of n MAX_STR_DIGITS] py_int_nat_digits [of n]
  by (simp add: py_int_def MAX_STR_DIGITS_def del: power_numeral)

lemma ints_digits: "\<forall>n \<in> set ns. n < 10 ^ MAX_STR_DIGITS \<Longrightarrow> ints (map nat_digits ns) = Some (map int ns)"
  by (induction ns) (simp_all add: py_int_digits del: power_numeral)

lemma strip_reply:
  assumes "w \<in> {lit ''approve'', lit ''reject'', lit ''revoke''}" "expiry_ok ex"
  shows "py_strip (print_reply w n ns ex) = print_reply w n ns ex"
proof (rule py_strip_id)
  show "\<not> py_isspace (hd (print_reply w n ns ex))"
    using assms(1) by (auto simp: print_reply_def lit_def py_isspace_def)
  have d: "\<not> py_isspace (last (nat_digits m))" for m
    using digit_chars(2) [of "last (nat_digits m)" m] by simp
  have i: "ns \<noteq> [] \<Longrightarrow> \<not> py_isspace (last (print_items ns))"
    using print_items_chars [of "last (print_items ns)" ns] print_items_nonempty [of ns] by simp
  have e: "print_expiry ex \<noteq> [] \<Longrightarrow> \<not> py_isspace (last (print_expiry ex))"
    using assms(2) unit_chars(1) by (auto simp: print_expiry_def expiry_ok_def split: option.splits)
  show "\<not> py_isspace (last (print_reply w n ns ex))"
    using d [of n] i e by (cases "ns = []") (auto simp: print_reply_def spaced_def print_items_def)
qed (auto simp: print_reply_def)

lemma py_lower_actions:
  "w \<in> {lit ''approve'', lit ''reject'', lit ''revoke''} \<Longrightarrow> py_lower w = w \<and> w \<noteq> lit ''status'' \<and> w \<noteq> lit ''undo''"
  by (auto simp: lit_def py_lower_def py_lower_cp_def)

lemma parse_printed:
  assumes "w \<in> {lit ''approve'', lit ''reject'', lit ''revoke''}" "0 < n" "n < 10 ^ MAX_STR_DIGITS"
    and "\<forall>k \<in> set ns. 0 < k \<and> k < 10 ^ MAX_STR_DIGITS" "expiry_ok ex"
  shows "parse_reply (PStr (print_reply w n ns ex)) = Inr (Some (Decide_reply w (int n)
    (if ns = [] then None else Some (map int ns)) (map_option (\<lambda>e. print_expiry (Some e)) ex)))"
proof -
  let ?c = "expiry_capture ex @ items_capture ns @ [(2, nat_digits n), (1, w)]"
  have m: "re_match REPLY_RE (py_strip (print_reply w n ns ex)) = Some ([], ?c)"
    using first_match [OF first_reply [OF assms(1,5)]] strip_reply [OF assms(1,5)] by simp
  have g: "re_group ?c 1 = Some w" "re_group ?c 2 = Some (nat_digits n)"
    "re_group ?c 3 = (if ns = [] then None else Some (print_items ns))"
    "re_group ?c 4 = map_option (\<lambda>e. print_expiry (Some e)) ex"
    by (auto simp: re_group_def expiry_capture_def items_capture_def split: option.split)
  have d: "py_isdigit (nat_digits n)" using digit_chars(1) by (auto simp: py_isdigit_def)
  have "parse_numbered w (nat_digits n) ?c = Inr (Some (Decide_reply w (int n)
      (if ns = [] then None else Some (map int ns)) (map_option (\<lambda>e. print_expiry (Some e)) ex)))"
  proof (cases "ns = []")
    case True
    then show ?thesis
      using g py_int_digits [OF assms(3)] assms(2) py_lower_actions [OF assms(1)]
      by (simp add: parse_numbered_def)
  next
    case False
    then have "ints (split_on 44 (print_items ns)) = Some (map int ns)"
      using split_items ints_digits assms(4) by simp
    then show ?thesis
      using g py_int_digits [OF assms(3)] assms(2,4) py_lower_actions [OF assms(1)] False print_items_nonempty [OF False]
      by (auto simp: parse_numbered_def simp del: power_numeral)
  qed
  then show ?thesis
    using m g d py_lower_actions [OF assms(1)] by (simp add: parse_reply_def Let_def)
qed



end
