(* ===== verification/Matrixbot_Properties.thy ===== *)
theory Matrixbot_Properties
  imports Matrixbot Grant_Lifecycle Reply_Properties
begin

text \<open>
  What the approval bot of \<open>broker/matrixbot.py\<close> promises, whatever the transport does and
  whatever other tasks do while it waits: its handlers change the store by calls of the store
  only, nobody but the approver can have anything granted, the approver is answered, a
  timed-out request is announced once, and an undo makes a new request.
\<close>

section \<open>The store under the bot\<close>

text \<open>From one store to another by calls that satisfy a condition, and by reading the clock.\<close>

inductive reaches :: "(gop \<Rightarrow> bool) \<Rightarrow> store \<Rightarrow> store \<Rightarrow> bool" for P where
  start: "reaches P s s"
| read: "reaches P s t \<Longrightarrow> same_data t u \<Longrightarrow> reaches P s u"
| call: "reaches P s t \<Longrightarrow> P op \<Longrightarrow> reaches P s (exec_gop op t)"

lemma reaches_trans: "reaches P t u \<Longrightarrow> reaches P s t \<Longrightarrow> reaches P s u"
  by (induction rule: reaches.induct) (auto intro: reaches.intros)

lemma reaches_mono: "reaches P s t \<Longrightarrow> (\<And>op. P op \<Longrightarrow> Q op) \<Longrightarrow> reaches Q s t"
  by (induction rule: reaches.induct) (auto intro: reaches.intros)

lemma reaches_read: "same_data s t \<Longrightarrow> reaches P s t"
  by (blast intro: reaches.intros)

lemma reaches_call: "P op \<Longrightarrow> reaches P s (exec_gop op s)"
  by (blast intro: reaches.intros)

lemma reaches_fold: "list_all P ops \<Longrightarrow> reaches P s (fold exec_gop ops s)"
proof (induction ops arbitrary: s)
  case (Cons op ops)
  then show ?case using reaches_trans [OF _ reaches_call [of P op s]] by simp
qed (simp add: reaches.start)

lemma store_evolves_read: "same_data s t \<Longrightarrow> store_evolves s t"
  by (auto simp: store_evolves_def same_data_fields intro: later_clockI)

lemma reaches_contract:
  "reaches P s t \<Longrightarrow> store_inv s \<Longrightarrow> store_inv t \<and> store_evolves s t"
proof (induction rule: reaches.induct)
  case (start s)
  then show ?case by (simp add: store_evolves_refl)
next
  case (read s t u)
  then show ?case
    using store_inv_same_data store_evolves_read store_evolves_trans by blast
next
  case (call s t op)
  then show ?case
    using store_inv_exec store_evolves_exec store_evolves_trans by blast
qed

text \<open>Without a call of \<open>approve\<close> no row becomes active.\<close>

fun is_approve :: "gop \<Rightarrow> bool" where
  "is_approve (Approve rid ex ns) = True"
| "is_approve _ = False"

lemma reaches_no_approve:
  assumes "reaches (\<lambda>op. \<not> is_approve op) s t" "store_inv s"
    and "find_row rid t = Some g" "r_state g = Active"
  shows "find_row rid s = Some g"
  using assms
proof (induction arbitrary: g rule: reaches.induct)
  case (read s t u)
  then show ?case by simp
next
  case (call s t op)
  have inv: "store_inv t" using reaches_contract [OF call.hyps(1)] call.prems by blast
  have "\<exists>r. find_row rid t = Some r \<and> r_state r = Active"
  proof (rule ccontr)
    assume "\<nexists>r. find_row rid t = Some r \<and> r_state r = Active"
    then obtain ex ns where "op = Approve rid ex ns"
      using exec_activates [OF inv call.prems(2,3)] by blast
    with call.hyps(2) show False by simp
  qed
  then obtain r where r: "find_row rid t = Some r" "r_state r = Active" by blast
  obtain r' where "find_row rid (exec_gop op t) = Some r'" "row_evolves r r'"
    using store_evolves_exec [OF inv, of op] r(1) by (auto simp: store_evolves_def)
  then have "g = r" using row_evolves_final [of r r'] r(2) call.prems(2,3) by auto
  with call.IH call.prems(1) r show ?case by blast
qed simp

section \<open>Steps\<close>

text \<open>A step that uses the store by calls that satisfy a condition, as other tasks do while it
  waits; what the bot is configured with stays.\<close>

definition same_wiring :: "bot \<Rightarrow> bot \<Rightarrow> bool" where
  "same_wiring b c \<longleftrightarrow> b_approver c = b_approver b \<and> b_others c = b_others b \<and> b_net c = b_net b
     \<and> b_repr c = b_repr b \<and> prefix (b_room b) (b_room c) \<and> b_swept b \<subseteq> b_swept c"

definition others_only :: "(gop \<Rightarrow> bool) \<Rightarrow> bot \<Rightarrow> bool" where
  "others_only P b \<longleftrightarrow> (\<forall>k. list_all P (b_others b k))"

definition step_by :: "(gop \<Rightarrow> bool) \<Rightarrow> 'a step \<Rightarrow> bool" where
  "step_by P f \<longleftrightarrow> (\<forall>b. others_only P b \<longrightarrow>
     reaches P (b_store b) (b_store (snd (f b))) \<and> same_wiring b (snd (f b)))"

lemma same_wiring_refl [simp]: "same_wiring b b"
  by (simp add: same_wiring_def)

lemma same_wiring_trans: "same_wiring a b \<Longrightarrow> same_wiring b c \<Longrightarrow> same_wiring a c"
  by (auto simp: same_wiring_def)

lemma others_same_wiring: "same_wiring b c \<Longrightarrow> others_only P c = others_only P b"
  by (simp add: same_wiring_def others_only_def)

named_theorems steps \<open>how a step uses the store, by its parts\<close>

lemma step_by_give [steps]: "step_by P (give x)"
  by (simp add: step_by_def give_def reaches.start)

lemma step_by_and_then [steps]:
  assumes "step_by P f" "\<And>x. step_by P (g x)"
  shows "step_by P (and_then f g)"
proof (unfold step_by_def, intro allI impI)
  fix b
  assume o: "others_only P b"
  obtain y b1 where f: "f b = (y, b1)" by fastforce
  with assms(1) o have 1: "reaches P (b_store b) (b_store b1)" "same_wiring b b1"
    by (auto simp: step_by_def dest: spec [of _ b])
  show "reaches P (b_store b) (b_store (snd (and_then f g b))) \<and> same_wiring b (snd (and_then f g b))"
  proof (cases y)
    case (Inl e)
    with 1 f show ?thesis by (simp add: and_then_def)
  next
    case (Inr x)
    have "reaches P (b_store b1) (b_store (snd (g x b1))) \<and> same_wiring b1 (snd (g x b1))"
      using assms(2) [of x] o others_same_wiring [OF 1(2)] by (simp add: step_by_def)
    with 1 f Inr show ?thesis
      using reaches_trans same_wiring_trans by (auto simp: and_then_def)
  qed
qed

lemma step_by_store_read:
  "(\<And>s x t. f s = (x, t) \<Longrightarrow> same_data s t) \<Longrightarrow> step_by P (on_store f)"
  by (auto simp: step_by_def on_store_def same_wiring_def split: prod.split sum.split intro!: reaches_read)

lemma step_by_store_call:
  assumes "P op" "\<And>s. snd (f s) = exec_gop op s"
  shows "step_by P (on_store f)"
  using assms reaches_call [of P op]
  by (auto simp: step_by_def on_store_def same_wiring_def split: prod.split sum.split) (metis snd_conv)+

lemma step_by_now [steps]: "step_by P now_step"
  by (simp add: step_by_def now_step_def read_clock_def same_wiring_def reaches_read)

lemma step_by_catching [steps]:
  assumes "step_by P f" "\<And>e. step_by P (h e)"
  shows "step_by P (catching p f h)"
proof -
  have "catching p f h b = (case f b of (Inl e, b1) \<Rightarrow>
      (case e of Store_raised se \<Rightarrow> if p se then h se b1 else (Inl e, b1) | _ \<Rightarrow> (Inl e, b1))
    | (Inr x, b1) \<Rightarrow> (Inr x, b1))" for b
    by (auto simp: catching_def split: prod.split sum.split bot_error.split)
  moreover have "reaches P (b_store b) (b_store (snd (h se b1))) \<and> same_wiring b (snd (h se b1))"
    if "others_only P b" "f b = (Inl (Store_raised se), b1)" for b b1 se
  proof -
    have 1: "reaches P (b_store b) (b_store b1)" "same_wiring b b1"
      using assms(1) that by (auto simp: step_by_def dest: spec [of _ b])
    then have "reaches P (b_store b1) (b_store (snd (h se b1))) \<and> same_wiring b1 (snd (h se b1))"
      using assms(2) [of se] that(1) others_same_wiring by (simp add: step_by_def)
    with 1 show ?thesis using reaches_trans same_wiring_trans by blast
  qed
  moreover have "reaches P (b_store b) (b_store b1) \<and> same_wiring b b1"
    if "others_only P b" "f b = (y, b1)" for b b1 y
    using assms(1) that by (auto simp: step_by_def dest: spec [of _ b])
  ultimately show ?thesis
    by (auto simp: step_by_def split: prod.split sum.split bot_error.split)
qed

lemma step_by_net [steps]: "step_by P (net_call ev)"
  by (auto simp: step_by_def net_call_def Let_def same_wiring_def others_only_def
      split: net_outcome.split intro!: reaches_fold)

lemma step_by_say [steps]: "step_by P (say text)"
  by (simp add: say_def step_by_net)

lemma step_by_reactions [steps]: "step_by P (add_reactions ev emojis)"
  by (induction emojis) (auto simp: add_reaction_def intro!: steps)

lemma step_by_if [steps]: "step_by P f \<Longrightarrow> step_by P g \<Longrightarrow> step_by P (\<lambda>b. if c b then f b else g b)"
  by (simp add: step_by_def)

lemma step_by_adjust:
  assumes "step_by P f" "\<And>b. b_store (h b) = b_store b" "\<And>b. same_wiring b (h b)"
  shows "step_by P (\<lambda>b. f (h b))"
proof (unfold step_by_def, intro allI impI)
  fix b
  assume "others_only P b"
  then have "others_only P (h b)" using others_same_wiring [OF assms(3)] by simp
  then have "reaches P (b_store b) (b_store (snd (f (h b))))" "same_wiring (h b) (snd (f (h b)))"
    using assms(1,2) by (simp_all add: step_by_def) (metis assms(2))+
  then show "reaches P (b_store b) (b_store (snd (f (h b)))) \<and> same_wiring b (snd (f (h b)))"
    using same_wiring_trans [OF assms(3)] by blast
qed

lemma step_by_close [steps]: "step_by P f \<Longrightarrow> step_by P (\<lambda>b. f (close_window rid b))"
  by (rule step_by_adjust) (auto simp: close_window_def same_wiring_def)

section \<open>The texts only read\<close>

lemma same_data_read_clock: "read_clock s = (now, t) \<Longrightarrow> same_data s t"
  by (auto simp: read_clock_def)

lemma same_data_grant_lines: "active_grant_lines rec wi s = (x, t) \<Longrightarrow> same_data s t"
  by (auto simp: active_grant_lines_def split: option.splits prod.splits dest: same_data_read_clock)

lemma same_data_grants_lines: "grants_lines recs wi s = (x, t) \<Longrightarrow> same_data s t"
proof (induction recs arbitrary: s x)
  case (Cons rec recs)
  then show ?case
    by (fastforce split: prod.splits sum.splits intro: same_data_trans dest: same_data_grant_lines)
qed simp

lemma same_data_grouped_lines: "grouped_lines is recs s = (x, t) \<Longrightarrow> same_data s t"
proof (induction "is" arbitrary: s x)
  case (Cons i "is")
  then show ?case
    by (fastforce split: prod.splits sum.splits intro: same_data_trans dest: same_data_grants_lines)
qed simp

lemma same_data_status_lines:
  assumes "status_lines s = (x, t)"
  shows "same_data s t"
proof -
  obtain y s1 where a: "active_grants None s = (y, s1)" by fastforce
  note 1 = same_data_active_grants [OF a]
  show ?thesis
  proof (cases y)
    case (Inl e)
    with assms a 1 show ?thesis by (simp add: status_lines_def)
  next
    case (Inr active)
    let ?is = "remdups (map gr_instance active)"
    obtain body s2 where b: "(if length ?is > 1 then grouped_lines (sort ?is) active s1
        else grants_lines active True s1) = (body, s2)" by fastforce
    then have 2: "same_data s1 s2"
      by (auto split: if_splits dest: same_data_grouped_lines same_data_grants_lines)
    show ?thesis
    proof (cases body)
      case (Inl e)
      with assms a b Inr 1 2 show ?thesis by (auto simp: status_lines_def Let_def intro: same_data_trans)
    next
      case body: (Inr bl)
      obtain z s3 where c: "pending_records s2 = (z, s3)" by fastforce
      note 3 = same_data_pending_records [OF c]
      have "same_data s3 t"
        using assms a b c Inr body
        by (auto simp: status_lines_def read_clock_def Let_def split: sum.splits if_splits)
      with 1 2 3 show ?thesis using same_data_trans by blast
    qed
  qed
qed

lemma same_data_status_text: "status_text s = (x, t) \<Longrightarrow> same_data s t"
  by (auto simp: status_text_def split: prod.splits sum.splits dest: same_data_status_lines)

lemma same_data_render: "render_decision rec verb ex u s = (x, t) \<Longrightarrow> same_data s t"
  by (auto simp: render_decision_def Let_def split: prod.splits sum.splits dest: same_data_status_text)

lemma step_by_reads [steps]:
  "step_by P (on_store status_text)" "step_by P (on_store (render_decision rec verb ex u))"
  "step_by P (on_store (get_row rid))" "step_by P (on_store (active_grants inst))"
  "step_by P (on_store all_records)" "step_by P (on_store pending_records)"
  by (rule step_by_store_read; blast intro: same_data_status_text same_data_render same_data_get_row
      same_data_active_grants same_data_all_records same_data_pending_records)+

section \<open>The handlers\<close>

lemma step_by_post:
  "(\<And>ev. P (Post ev (gr_id req))) \<Longrightarrow> step_by P (post_request req)"
  unfolding post_request_def
  by (intro steps step_by_store_call [of P "Post _ (gr_id req)"]) auto

lemma step_by_arm [steps]: "step_by P (arm_undo rid rec)"
  unfolding arm_undo_def
  by (intro steps) (fastforce simp: step_by_def same_wiring_def reaches.start)

lemma step_by_cannot [steps]: "step_by P (cannot verb rid e)"
  by (simp add: step_by_def cannot_def give_def reaches.start)

lemma step_by_decide:
  assumes "\<And>ex ns. P (Approve rid ex ns)" "P (Reject rid)"
  shows "step_by P (decide_request rid action ns ex)"
proof -
  have "step_by P (on_store (approve rid ex ns))" "step_by P (on_store (reject rid))"
    by (rule step_by_store_call [of P "Approve rid ex ns"]; simp add: assms)
      (rule step_by_store_call [of P "Reject rid"]; simp add: assms)
  then have "step_by P (decide_text rid action ns ex)"
    unfolding decide_text_def by (auto intro!: steps)
  then show ?thesis unfolding decide_request_def by (intro steps)
qed

lemma step_by_revoke:
  assumes "P (Revoke rid)"
  shows "step_by P (revoke_request rid)"
proof -
  have r: "step_by P (on_store (revoke rid))"
    by (rule step_by_store_call [of P "Revoke rid"]; simp add: assms)
  have "step_by P (case refusal of Some text \<Rightarrow> and_then (say text) (\<lambda>_. give ())
     | None \<Rightarrow> and_then (on_store (get_row rid)) (\<lambda>rec. and_then (arm_undo rid rec) (\<lambda>_.
         and_then (on_store (render_decision rec (lit ''Revoked'') None True)) (\<lambda>text.
         and_then (say text) (\<lambda>_. give ())))))" for refusal
    by (cases refusal) (auto intro!: steps)
  with r show ?thesis unfolding revoke_request_def by (intro steps)
qed

lemma step_by_revoke_each:
  "(\<And>rid. P (Revoke rid)) \<Longrightarrow> step_by P (revoke_each recs)"
proof (induction recs)
  case (Cons rec recs)
  have "step_by P (on_store (revoke (gr_id rec)))"
    by (rule step_by_store_call [of P "Revoke (gr_id rec)"]; simp add: Cons.prems)
  with Cons show ?case by (auto intro!: steps)
qed (simp add: steps)

lemma step_by_revoke_many: "(\<And>rid. P (Revoke rid)) \<Longrightarrow> step_by P (revoke_many inst)"
  unfolding revoke_many_def
  by (intro steps step_by_revoke_each) (auto intro!: steps)

lemma step_by_summary: "step_by P post_summary"
  unfolding post_summary_def by (auto intro!: steps)

lemma step_by_closed [steps]: "step_by P (window_closed rid)"
  unfolding window_closed_def by (intro steps)

lemma step_by_undo:
  assumes "\<And>i r its. P (Create i r its)" "\<And>ev rid. P (Post ev rid)"
  shows "step_by P (undo_request rid)"
proof -
  have "step_by P (on_store (create_request i (PStr r) its))" for i r its
    by (rule step_by_store_call [of P "Create i (PStr r) its"]; simp add: assms(1))
  then have "step_by P (and_then now_step (\<lambda>now b1.
            if now \<ge> uw_deadline window then window_closed rid b1
            else and_then (on_store (create_request (uw_instance window) (PStr (uw_reason window))
                             (map item_dict (uw_items window)))) (\<lambda>req.
                 and_then (post_request req) (\<lambda>_. give ())) (close_window rid b1)))" for window
    by (intro steps step_by_post assms; assumption?)
  then show ?thesis
    by (auto simp: step_by_def undo_request_def steps [unfolded step_by_def] split: option.split)
qed

lemma step_by_sweep: "step_by P sweep"
proof -
  have "step_by P (sweep_each recs)" for recs
  proof (induction recs)
    case (Cons rec recs)
    have "step_by P (\<lambda>b1. sweep_each recs (b1\<lparr>b_swept := insert (gr_id rec) (b_swept b1)\<rparr>))"
      using step_by_adjust [OF Cons, of "\<lambda>b. b\<lparr>b_swept := insert (gr_id rec) (b_swept b)\<rparr>"]
      by (auto simp: same_wiring_def)
    with Cons show ?case by (simp only: sweep_each.simps) (intro steps)
  qed (simp add: steps)
  then show ?thesis unfolding sweep_def by (auto intro!: steps)
qed

lemma step_byD:
  "step_by P f \<Longrightarrow> others_only P b \<Longrightarrow>
     reaches P (b_store b) (b_store (snd (f b))) \<and> same_wiring b (snd (f b))"
  by (simp add: step_by_def)

lemma step_byI:
  "(\<And>b. others_only P b \<Longrightarrow> reaches P (b_store b) (b_store (snd (f b))) \<and> same_wiring b (snd (f b)))
     \<Longrightarrow> step_by P f"
  by (simp add: step_by_def)

lemma step_by_teach [steps]: "step_by P (teach text)"
  unfolding teach_def by (auto intro!: steps split: option.split)

lemma step_by_reaction:
  assumes "\<And>rid ex ns. P (Approve rid ex ns)" "\<And>rid. P (Reject rid)" "\<And>rid. P (Revoke rid)"
  shows "step_by P (handle_reaction sender ev emoji)"
proof (rule step_byI)
  fix b
  assume o: "others_only P b"
  note parts = step_byD [OF step_by_decide o] step_byD [OF step_by_revoke o] step_byD [OF step_by_summary o]
    step_byD [OF step_by_give o]
  show "reaches P (b_store b) (b_store (snd (handle_reaction sender ev emoji b)))
      \<and> same_wiring b (snd (handle_reaction sender ev emoji b))"
    by (simp add: handle_reaction_def parts assms split: option.split)
qed

lemma step_by_decide_reply:
  assumes "\<And>rid ex ns. P (Approve rid ex ns)" "\<And>rid. P (Reject rid)" "\<And>rid. P (Revoke rid)"
  shows "step_by P (decide_reply action rid ns ex)"
  unfolding decide_reply_def
  by (auto intro!: steps step_by_decide step_by_revoke assms)

lemma step_by_reply:
  assumes "\<And>rid ex ns. P (Approve rid ex ns)" "\<And>rid. P (Reject rid)" "\<And>rid. P (Revoke rid)"
    and "\<And>i r its. P (Create i r its)" "\<And>ev rid. P (Post ev rid)"
  shows "step_by P (handle_reply sender text)"
proof (rule step_byI)
  fix b
  assume o: "others_only P b"
  note parts = step_byD [OF step_by_decide_reply o] step_byD [OF step_by_revoke_many o]
    step_byD [OF step_by_undo o] step_byD [OF step_by_summary o] step_byD [OF step_by_give o]
    step_byD [OF step_by_teach o]
  show "reaches P (b_store b) (b_store (snd (handle_reply sender text b)))
      \<and> same_wiring b (snd (handle_reply sender text b))"
    by (simp add: handle_reply_def parts assms reaches.start split: sum.split option.split parsed.split)
qed

lemma step_by_run_bot: "step_by (\<lambda>op. True) (run_bot input)"
  by (cases input) (auto intro!: steps step_by_reaction step_by_reply step_by_sweep step_by_post)

section \<open>The bot keeps the contract of the store\<close>

lemma others_any [simp]: "others_only (\<lambda>op. True) b"
  by (simp add: others_only_def list_all_iff)

lemma run_bot_reaches:
  "reaches (\<lambda>op. True) (b_store b) (b_store (snd (run_bot input b))) \<and> same_wiring b (snd (run_bot input b))"
  using step_by_run_bot by (simp add: step_by_def)

interpretation bot_system: evolving_system "\<lambda>input b. snd (run_bot input b)" "\<lambda>b. store_inv (b_store b)"
  "\<lambda>b c. store_evolves (b_store b) (b_store c)"
  by unfold_locales
    (use run_bot_reaches reaches_contract store_evolves_refl store_evolves_trans in blast)+

definition bot_history :: "bot_input list \<Rightarrow> bot \<Rightarrow> bot" where
  "bot_history inputs b = fold (\<lambda>input b. snd (run_bot input b)) inputs b"

lemma same_wiring_history: "same_wiring b (bot_history inputs b)"
proof (induction inputs arbitrary: b)
  case (Cons input inputs)
  then show ?case
    using run_bot_reaches [of b input] same_wiring_trans by (auto simp: bot_history_def)
qed (simp add: bot_history_def)

text \<open>Whatever reaches the bot, from whomever, and whatever other tasks do with the store
  while it waits for the room, a decided request stays decided: its row never changes again,
  except that a live grant may be revoked.\<close>

lemma decisions_stand_under_the_bot:
  assumes "store_inv (b_store b)" "find_row rid (b_store b) = Some r" "r_state r \<noteq> Pending"
  shows "find_row rid (b_store (bot_history inputs b)) \<in>
    {Some r} \<union> (if r_state r = Active
                then {Some (r\<lparr>r_state := Revoked, r_state_source := Some Revocation\<rparr>)} else {})"
proof -
  have "store_evolves (b_store b) (b_store (bot_history inputs b))"
    using bot_system.evolves_history [OF assms(1)] by (simp add: bot_history_def)
  then obtain r' where r': "find_row rid (b_store (bot_history inputs b)) = Some r'" "row_evolves r r'"
    using assms(2) by (auto simp: store_evolves_def)
  from row_evolves_final [OF r'(2) assms(3)] show ?thesis using r'(1) by auto
qed

section \<open>Only the approver grants\<close>

fun input_sender :: "bot_input \<Rightarrow> pystr option" where
  "input_sender (Reaction sender ev emoji) = Some sender"
| "input_sender (Reply sender text) = Some sender"
| "input_sender Sweep = None"
| "input_sender (New_request req) = None"

lemma stranger_does_nothing:
  "input_sender input = Some sender \<Longrightarrow> sender \<noteq> b_approver b \<Longrightarrow> run_bot input b = (Inr (), b)"
  by (cases input) (auto simp: handle_reaction_def handle_reply_def give_def)

lemma no_approver_no_approve:
  assumes "input_sender input \<noteq> Some (b_approver b)" "others_only (\<lambda>op. \<not> is_approve op) b"
  shows "reaches (\<lambda>op. \<not> is_approve op) (b_store b) (b_store (snd (run_bot input b)))"
proof (cases "input_sender input")
  case None
  then have "step_by (\<lambda>op. \<not> is_approve op) (run_bot input)"
    by (cases input) (auto intro!: steps step_by_sweep step_by_post)
  with assms(2) show ?thesis by (simp add: step_by_def)
next
  case (Some sender)
  with stranger_does_nothing [OF Some] assms(1) show ?thesis by (simp add: reaches.start)
qed

text \<open>C21: only the approver grants. In a history of reactions and replies of anybody else, sweeps
  and new requests, in which no other task calls \<open>approve\<close> either, nothing becomes granted:
  every active row was there before, the same in every column.\<close>

theorem only_the_approver_grants:
  assumes "store_inv (b_store b)" "\<forall>input \<in> set inputs. input_sender input \<noteq> Some (b_approver b)"
    and "others_only (\<lambda>op. \<not> is_approve op) b"
    and "find_row rid (b_store (bot_history inputs b)) = Some g" "r_state g = Active"
  shows "find_row rid (b_store b) = Some g"
  using assms
proof (induction inputs arbitrary: b)
  case Nil
  then show ?case by (simp add: bot_history_def)
next
  case (Cons input inputs)
  let ?c = "snd (run_bot input b)"
  have r: "reaches (\<lambda>op. \<not> is_approve op) (b_store b) (b_store ?c)"
    using no_approver_no_approve Cons.prems(2,3) by simp
  have w: "same_wiring b ?c" using run_bot_reaches by blast
  have "find_row rid (b_store ?c) = Some g"
  proof (rule Cons.IH)
    show "store_inv (b_store ?c)" using reaches_contract [OF r Cons.prems(1)] by blast
    show "\<forall>input \<in> set inputs. input_sender input \<noteq> Some (b_approver ?c)"
      using Cons.prems(2) w by (simp add: same_wiring_def)
    show "others_only (\<lambda>op. \<not> is_approve op) ?c"
      using Cons.prems(3) others_same_wiring [OF w] by simp
    show "find_row rid (b_store (bot_history inputs ?c)) = Some g"
      using Cons.prems(4) by (simp add: bot_history_def)
  qed (rule Cons.prems(5))
  then show ?case using reaches_no_approve [OF r Cons.prems(1)] Cons.prems(5) by blast
qed

section \<open>The approver is answered\<close>

definition speaks :: "'a step \<Rightarrow> bool" where
  "speaks f \<longleftrightarrow> (\<forall>b x c. f b = (Inr x, c) \<longrightarrow> (\<exists>t i evs. b_room c = b_room b @ evs \<and> Said t i \<in> set evs))"

lemma room_grows:
  assumes "step_by (\<lambda>op. True) f" "f b = (x, c)"
  obtains evs where "b_room c = b_room b @ evs"
  using assms by (auto simp: step_by_def same_wiring_def prefix_def dest: spec [of _ b])

lemma speaks_say: "speaks (say t)"
  by (auto simp: speaks_def say_def net_call_def Let_def split: net_outcome.splits)

lemma speaks_first:
  assumes "speaks f" "\<And>x. step_by (\<lambda>op. True) (g x)"
  shows "speaks (and_then f g)"
proof (unfold speaks_def, intro allI impI)
  fix b x c
  assume "and_then f g b = (Inr x, c)"
  then obtain y b1 where y: "f b = (Inr y, b1)" "g y b1 = (Inr x, c)"
    by (auto simp: and_then_def split: prod.splits sum.splits)
  obtain evs where "b_room c = b_room b1 @ evs" by (rule room_grows [OF assms(2) y(2)])
  then show "\<exists>t i evs. b_room c = b_room b @ evs \<and> Said t i \<in> set evs"
    using assms(1) y(1) unfolding speaks_def by fastforce
qed

lemma speaks_second:
  assumes "step_by (\<lambda>op. True) f" "\<And>x. speaks (g x)"
  shows "speaks (and_then f g)"
proof (unfold speaks_def, intro allI impI)
  fix b x c
  assume "and_then f g b = (Inr x, c)"
  then obtain y b1 where y: "f b = (Inr y, b1)" "g y b1 = (Inr x, c)"
    by (auto simp: and_then_def split: prod.splits sum.splits)
  obtain evs where "b_room b1 = b_room b @ evs" by (rule room_grows [OF assms(1) y(1)])
  then show "\<exists>t i evs. b_room c = b_room b @ evs \<and> Said t i \<in> set evs"
    using assms(2) [of y] y(2) unfolding speaks_def by fastforce
qed

lemma quiet_steps:
  "step_by (\<lambda>op. True) (on_store (approve rid ex ns))" "step_by (\<lambda>op. True) (on_store (reject rid))"
  "step_by (\<lambda>op. True) (on_store (revoke rid))" "step_by (\<lambda>op. True) (revoke_each recs)"
  "step_by (\<lambda>op. True) (on_store (create_request inst rsn items))"
proof -
  show "step_by (\<lambda>op. True) (on_store (approve rid ex ns))"
    by (rule step_by_store_call [of _ "Approve rid ex ns"]) simp_all
  show "step_by (\<lambda>op. True) (on_store (reject rid))"
    by (rule step_by_store_call [of _ "Reject rid"]) simp_all
  show "step_by (\<lambda>op. True) (on_store (revoke rid))"
    by (rule step_by_store_call [of _ "Revoke rid"]) simp_all
  show "step_by (\<lambda>op. True) (revoke_each recs)"
    by (simp add: step_by_revoke_each)
  show "step_by (\<lambda>op. True) (on_store (create_request inst rsn items))"
    by (rule step_by_store_call [of _ "Create inst rsn items"]) simp_all
qed

lemma quiet_decide_text: "step_by (\<lambda>op. True) (decide_text rid action ns ex)"
  unfolding decide_text_def by (auto intro!: steps quiet_steps)

lemma speaks_then_give: "speaks (and_then (say t) (\<lambda>_. give x))"
  by (intro speaks_first speaks_say steps)

lemma speaks_decide: "speaks (decide_request rid action ns ex)"
  unfolding decide_request_def
  by (intro speaks_second speaks_then_give steps quiet_decide_text)

lemma speaks_revoke: "speaks (revoke_request rid)"
proof -
  have "speaks (case refusal of Some text \<Rightarrow> and_then (say text) (\<lambda>_. give ())
     | None \<Rightarrow> and_then (on_store (get_row rid)) (\<lambda>rec. and_then (arm_undo rid rec) (\<lambda>_.
         and_then (on_store (render_decision rec (lit ''Revoked'') None True)) (\<lambda>text.
         and_then (say text) (\<lambda>_. give ())))))" for refusal
    by (cases refusal) (auto intro!: speaks_then_give speaks_second steps)
  then show ?thesis unfolding revoke_request_def by (intro speaks_second steps quiet_steps)
qed

lemma speaks_summary: "speaks post_summary"
  unfolding post_summary_def by (intro speaks_second speaks_then_give steps)

lemma speaks_teach: "speaks (teach text)"
  unfolding teach_def by (auto intro!: speaks_then_give split: option.split)

lemma speaks_if: "speaks f \<Longrightarrow> speaks g \<Longrightarrow> speaks (\<lambda>b. if c b then f b else g b)"
  by (auto simp: speaks_def)

lemma speaks_revoke_many: "speaks (revoke_many inst)"
proof -
  have "speaks (and_then (revoke_each active) (\<lambda>revoked.
      if revoked = [] then and_then (say t) (\<lambda>_. give ())
      else and_then (on_store status_text) (\<lambda>u. and_then (say (f revoked u)) (\<lambda>_. give ()))))" for active t f
    by (rule speaks_second [OF quiet_steps(4)])
      (auto intro!: speaks_then_give speaks_second [OF step_by_reads(1)])
  then show ?thesis unfolding revoke_many_def
    by (intro speaks_second [OF step_by_reads(4)] speaks_if speaks_then_give)
qed

lemma speaks_decide_reply: "speaks (decide_reply action rid ns ex)"
  unfolding decide_reply_def
  by (intro speaks_second steps) (auto intro: speaks_then_give speaks_decide speaks_revoke)

lemma speaks_closed: "speaks (window_closed rid)"
  using speaks_then_give unfolding window_closed_def speaks_def close_window_def by fastforce

lemma speaks_post: "speaks (post_request req)"
proof -
  have "step_by (\<lambda>op. True) (and_then (add_reactions event_id emojis) (\<lambda>_.
     and_then (on_store (record_posted event_id (gr_id req))) (\<lambda>_. give event_id)))" for event_id emojis
    by (intro steps step_by_store_call [of _ "Post event_id (gr_id req)"]) simp_all
  then show ?thesis unfolding post_request_def by (intro speaks_first speaks_say)
qed

lemma speaks_undo: "speaks (undo_request rid)"
proof -
  have create: "speaks (and_then (on_store (create_request i r its)) (\<lambda>req.
      and_then (post_request req) (\<lambda>_. give ())))" for i r its
    by (intro speaks_second quiet_steps speaks_first speaks_post steps)
  then have create': "speaks (\<lambda>b. and_then (on_store (create_request i r its)) (\<lambda>req.
      and_then (post_request req) (\<lambda>_. give ())) (close_window rid b))" for i r its
    unfolding speaks_def close_window_def by fastforce
  have "speaks (and_then now_step (\<lambda>now b1.
      if now \<ge> uw_deadline window then window_closed rid b1
      else and_then (on_store (create_request (uw_instance window) (PStr (uw_reason window))
                       (map item_dict (uw_items window)))) (\<lambda>req.
           and_then (post_request req) (\<lambda>_. give ())) (close_window rid b1)))" for window
    by (intro speaks_second steps speaks_if speaks_closed create')
  note opened = this
  show ?thesis
  proof (unfold speaks_def, intro allI impI)
    fix b x c
    assume u: "undo_request rid b = (Inr x, c)"
    show "\<exists>t i evs. b_room c = b_room b @ evs \<and> Said t i \<in> set evs"
    proof (cases "b_undo b rid")
      case None
      then show ?thesis
        using u speaks_closed [of rid] by (simp add: undo_request_def speaks_def)
    next
      case (Some window)
      have "and_then now_step (\<lambda>now b1.
          if now \<ge> uw_deadline window then window_closed rid b1
          else and_then (on_store (create_request (uw_instance window) (PStr (uw_reason window))
                           (map item_dict (uw_items window)))) (\<lambda>req.
               and_then (post_request req) (\<lambda>_. give ())) (close_window rid b1)) b = (Inr x, c)"
        using u Some by (simp only: undo_request_def option.case)
      with opened [of window] show ?thesis unfolding speaks_def by blast
    qed
  qed
qed

text \<open>C22: the approver is answered. Every reply of the approver that is handled without an
  exception leaves a message in the room, and so does every decision by a reaction on a
  posted request.\<close>

theorem approver_is_answered:
  assumes "handle_reply (b_approver b) text b = (Inr (), c)
    \<or> handle_reaction (b_approver b) ev emoji b = (Inr (), c) \<and> request_for_event ev (b_store b) \<noteq> None
      \<and> emoji \<in> {APPROVE_EMOJI, REJECT_EMOJI, REVOKE_EMOJI, STATUS_EMOJI}"
  shows "\<exists>t i evs. b_room c = b_room b @ evs \<and> Said t i \<in> set evs"
proof -
  note parts = speaks_decide speaks_revoke speaks_summary speaks_teach speaks_revoke_many
    speaks_decide_reply speaks_undo
  show ?thesis
    using assms
  proof
    assume "handle_reply (b_approver b) text b = (Inr (), c)"
    then show ?thesis
      using parts unfolding speaks_def
      by (auto simp: handle_reply_def split: sum.splits option.splits parsed.splits)
  next
    assume "handle_reaction (b_approver b) ev emoji b = (Inr (), c) \<and> request_for_event ev (b_store b) \<noteq> None
      \<and> emoji \<in> {APPROVE_EMOJI, REJECT_EMOJI, REVOKE_EMOJI, STATUS_EMOJI}"
    then show ?thesis
      using parts unfolding speaks_def
      by (auto simp: handle_reaction_def split: option.splits if_splits)
  qed
qed

section \<open>The sweep\<close>

definition expiry_notice :: "int \<Rightarrow> pystr" where
  "expiry_notice rid = lit ''Request #'' @ py_str_int rid @ lit '' expired unanswered. Silence grants nothing.''"

lemma sweep_each_notices:
  assumes "sweep_each recs b = (x, c)"
  shows "\<exists>ids evs. b_room c = b_room b @ map2 (\<lambda>i ev. Said (expiry_notice i) ev) ids evs
    \<and> length evs = length ids \<and> distinct ids \<and> set ids \<inter> b_swept b = {} \<and> b_swept c = b_swept b \<union> set ids
    \<and> set ids \<subseteq> gr_id ` {rec \<in> set recs. gr_state rec = Expired}
    \<and> (\<forall>u. x = Inr u \<longrightarrow> gr_id ` {rec \<in> set recs. gr_state rec = Expired} \<subseteq> b_swept c)"
  using assms
proof (induction recs arbitrary: b)
  case Nil
  then show ?case by (auto simp: give_def intro!: exI [of _ "[]"])
next
  case (Cons rec recs)
  show ?case
  proof (cases "gr_state rec = Expired \<and> gr_id rec \<notin> b_swept b")
    case False
    with Cons.prems have "sweep_each recs b = (x, c)" by auto
    from Cons.IH [OF this] show ?thesis
      using False by (elim exE) (intro exI, auto)
  next
    case True
    obtain y b1 where y: "say (expiry_notice (gr_id rec)) b = (y, b1)" by fastforce
    show ?thesis
    proof (cases y)
      case (Inl e)
      with True y Cons.prems have "x = Inl e" "c = b1"
        by (auto simp: and_then_def expiry_notice_def)
      moreover have "b_room b1 = b_room b" "b_swept b1 = b_swept b"
        using y Inl by (auto simp: say_def net_call_def Let_def split: net_outcome.splits)
      ultimately show ?thesis
        by (intro exI [of _ "[] :: int list"] exI [of _ "[] :: pystr list"]) simp
    next
      case (Inr ev)
      let ?b2 = "b1\<lparr>b_swept := insert (gr_id rec) (b_swept b1)\<rparr>"
      have b1: "b_room b1 = b_room b @ [Said (expiry_notice (gr_id rec)) ev]" "b_swept b1 = b_swept b"
        using y Inr by (auto simp: say_def net_call_def Let_def split: net_outcome.splits)
      have "sweep_each recs ?b2 = (x, c)"
        using True y Inr Cons.prems by (simp add: and_then_def expiry_notice_def)
      from Cons.IH [OF this] obtain ids evs where
        ids: "b_room c = b_room ?b2 @ map2 (\<lambda>i ev. Said (expiry_notice i) ev) ids evs"
        "length evs = length ids" "distinct ids" "set ids \<inter> b_swept ?b2 = {}" "b_swept c = b_swept ?b2 \<union> set ids"
        "set ids \<subseteq> gr_id ` {rec \<in> set recs. gr_state rec = Expired}"
        "\<forall>u. x = Inr u \<longrightarrow> gr_id ` {rec \<in> set recs. gr_state rec = Expired} \<subseteq> b_swept c"
        by blast
      have "b_room c = b_room b @ map2 (\<lambda>i ev. Said (expiry_notice i) ev) (gr_id rec # ids) (ev # evs)"
        using ids(1) b1(1) by simp
      moreover have "distinct (gr_id rec # ids)" "set (gr_id rec # ids) \<inter> b_swept b = {}"
        "b_swept c = b_swept b \<union> set (gr_id rec # ids)"
        using ids(3-5) b1(2) True by auto
      moreover have "set (gr_id rec # ids) \<subseteq> gr_id ` {r \<in> set (rec # recs). gr_state r = Expired}"
        using ids(6) True by auto
      moreover have "\<forall>u. x = Inr u \<longrightarrow> gr_id ` {r \<in> set (rec # recs). gr_state r = Expired} \<subseteq> b_swept c"
        using ids(5,7) by auto
      moreover have "length (ev # evs) = length (gr_id rec # ids)" using ids(2) by simp
      ultimately show ?thesis by blast
    qed
  qed
qed

text \<open>A timed-out request is announced once. A sweep posts its notice only for requests not
  announced before, each at most once, and remembers them; a sweep that ends without an
  exception has announced every pending request it found timed out; and what is remembered is
  never forgotten, so no later sweep of the process announces it again.\<close>

lemma sweep_announces_once:
  assumes "store_inv (b_store b)" "sweep b = (x, c)"
  shows "\<exists>recs s ids evs. pending_records (b_store b) = (Inr recs, s)
    \<and> b_room c = b_room b @ map2 (\<lambda>i ev. Said (expiry_notice i) ev) ids evs \<and> length evs = length ids
    \<and> distinct ids \<and> set ids \<inter> b_swept b = {} \<and> b_swept c = b_swept b \<union> set ids
    \<and> set ids \<subseteq> gr_id ` {rec \<in> set recs. gr_state rec = Expired}
    \<and> (x = Inr () \<longrightarrow> gr_id ` {rec \<in> set recs. gr_state rec = Expired} \<subseteq> b_swept c)
    \<and> b_swept c \<subseteq> b_swept (bot_history inputs c)"
proof -
  obtain recs s where p: "pending_records (b_store b) = (Inr recs, s)"
    using pending_records_succeeds [OF assms(1)] by blast
  with assms(2) have "sweep_each recs (b\<lparr>b_store := s\<rparr>) = (x, c)"
    by (simp add: sweep_def and_then_def on_store_def)
  from sweep_each_notices [OF this] obtain ids evs where
    "b_room c = b_room b @ map2 (\<lambda>i ev. Said (expiry_notice i) ev) ids evs" "length evs = length ids"
    "distinct ids" "set ids \<inter> b_swept b = {}" "b_swept c = b_swept b \<union> set ids"
    "set ids \<subseteq> gr_id ` {rec \<in> set recs. gr_state rec = Expired}"
    "x = Inr () \<longrightarrow> gr_id ` {rec \<in> set recs. gr_state rec = Expired} \<subseteq> b_swept c"
    by auto
  moreover have "b_swept c \<subseteq> b_swept (bot_history inputs c)"
    using same_wiring_history by (simp add: same_wiring_def)
  ultimately show ?thesis using p by (intro exI conjI)
qed

section \<open>One reply, one call of the store\<close>

lemma reaches_nothing: "reaches (\<lambda>op. False) s t \<Longrightarrow> same_data s t"
  by (induction rule: reaches.induct) (auto intro: same_data_trans)

lemma others_idle: "b_others b = (\<lambda>n. []) \<Longrightarrow> others_only P b"
  by (simp add: others_only_def)

text \<open>A call of the store, and around it nothing but reading, while the other tasks idle.\<close>

lemma call_then:
  assumes idle: "b_others b = (\<lambda>n. [])"
    and quiet: "\<And>x. step_by (\<lambda>op. False) (g x)" "\<And>e. step_by (\<lambda>op. False) (h e)" "\<And>t. step_by (\<lambda>op. False) (k t)"
  shows "same_data (snd (f (b_store b))) (b_store (snd (and_then (catching p (and_then (on_store f) g) h) k b)))"
proof -
  obtain y s where f: "f (b_store b) = (y, s)" by fastforce
  let ?b1 = "b\<lparr>b_store := s\<rparr>"
  have o: "others_only (\<lambda>op. False) ?b1" using idle by (simp add: others_idle)
  have rest: "step_by (\<lambda>op. False) (and_then r k)" if "step_by (\<lambda>op. False) r" for r
    using that quiet(3) by (intro steps)
  have sd: "same_data s (b_store (snd (r ?b1)))" if "step_by (\<lambda>op. False) r" for r :: "'e step"
    using step_byD [OF that o] reaches_nothing by fastforce
  have raise: "step_by (\<lambda>op. False) (\<lambda>b. (Inl e, b))" for e
    by (simp add: step_by_def reaches.start)
  show ?thesis
  proof (cases y)
    case (Inl e)
    have "and_then (catching p (and_then (on_store f) g) h) k b
        = (if p e then and_then (h e) k ?b1 else (Inl (Store_raised e), ?b1))"
      using f Inl by (simp add: and_then_def catching_def on_store_def)
    then show ?thesis using sd [OF rest [OF quiet(2)]] f by simp
  next
    case (Inr x)
    have "and_then (catching p (and_then (on_store f) g) h) k b = and_then (catching p (g x) h) k ?b1"
      using f Inr by (simp add: and_then_def catching_def on_store_def)
    then show ?thesis using sd [OF rest [OF step_by_catching [OF quiet(1,2)]]] f by simp
  qed
qed

definition reply_call :: "pystr \<Rightarrow> int \<Rightarrow> int list option \<Rightarrow> pystr option \<Rightarrow> gop" where
  "reply_call action rid ns ex =
     (if action = lit ''approve'' then Approve rid ex ns
      else if action = lit ''reject'' then Reject rid else Revoke rid)"

lemma decide_request_call:
  assumes "b_others b = (\<lambda>n. [])"
  shows "same_data (exec_gop (if action = lit ''approve'' then Approve rid ex ns else Reject rid) (b_store b))
    (b_store (snd (decide_request rid action ns ex b)))"
proof (cases "action = lit ''approve''")
  case True
  then show ?thesis
    unfolding decide_request_def decide_text_def
    using call_then [OF assms, of "\<lambda>rec. on_store (render_decision rec (lit ''Approved'') (Some (or_24h ex)) False)"
        "cannot (lit ''approve'') rid" "\<lambda>text. and_then (say text) (\<lambda>_. give ())" "approve rid ex ns"]
    by (simp add: steps)
next
  case False
  then show ?thesis
    unfolding decide_request_def decide_text_def
    using call_then [OF assms, of "\<lambda>_. and_then (on_store (get_row rid)) (\<lambda>rec. and_then (arm_undo rid rec) (\<lambda>_.
           on_store (render_decision rec (lit ''Rejected'') None True)))"
        "cannot (lit ''approve'') rid" "\<lambda>text. and_then (say text) (\<lambda>_. give ())" "reject rid"]
    by (simp add: steps)
qed

lemma revoke_request_call:
  assumes "b_others b = (\<lambda>n. [])"
  shows "same_data (exec_gop (Revoke rid) (b_store b)) (b_store (snd (revoke_request rid b)))"
proof -
  have "step_by (\<lambda>op. False) (case refusal of Some text \<Rightarrow> and_then (say text) (\<lambda>_. give ())
     | None \<Rightarrow> and_then (on_store (get_row rid)) (\<lambda>rec. and_then (arm_undo rid rec) (\<lambda>_.
         and_then (on_store (render_decision rec (lit ''Revoked'') None True)) (\<lambda>text.
         and_then (say text) (\<lambda>_. give ())))))" for refusal
    by (cases refusal) (auto intro!: steps)
  then show ?thesis
    unfolding revoke_request_def exec_gop.simps
    by (intro call_then [OF assms] steps)
qed

text \<open>C23: a reply that decides is one call of the store. When the approver's reply parses as an
  approval, a rejection or a revocation of a request that exists, the rows afterwards are those
  the one call of \<open>approve\<close>, \<open>reject\<close> or \<open>revoke\<close> with the parsed number, items and expiry
  makes; for a number that does not exist nothing changes.\<close>

theorem reply_is_one_store_call:
  assumes "store_inv (b_store b)" "b_others b = (\<lambda>n. [])"
    and "parse_reply (PStr text) = Inr (Some (Decide_reply action rid ns ex))"
  shows "\<exists>n. same_data (if rid \<in> r_id ` set (rows (b_store b))
       then exec_gop (reply_call action rid ns ex) (after_ticks n (b_store b)) else b_store b)
     (b_store (snd (handle_reply (b_approver b) text b)))"
proof -
  obtain recs n where a: "all_records (b_store b) = (Inr recs, after_ticks n (b_store b))"
    "gr_id ` set recs = r_id ` set (rows (b_store b))"
    by (rule all_records_ok [OF assms(1)])
  let ?b1 = "b\<lparr>b_store := after_ticks n (b_store b)\<rparr>"
  have idle: "b_others ?b1 = (\<lambda>n. [])" using assms(2) by simp
  have h: "handle_reply (b_approver b) text b =
     (if rid \<notin> r_id ` set (rows (b_store b))
       then and_then (say (lit ''No request #'' @ py_str_int rid @ lit '' exists.'')) (\<lambda>_. give ())
       else if action = lit ''approve'' then decide_request rid (lit ''approve'') ns ex
       else if action = lit ''reject'' then decide_request rid (lit ''reject'') None None
       else revoke_request rid) ?b1"
    using assms(3) a by (simp add: handle_reply_def decide_reply_def and_then_def on_store_def)
  show ?thesis
  proof (cases "rid \<in> r_id ` set (rows (b_store b))")
    case True
    have ne: "lit ''approve'' \<noteq> lit ''reject''" by (simp add: lit_def)
    have "same_data (exec_gop (reply_call action rid ns ex) (b_store ?b1)) (b_store (snd (handle_reply (b_approver b) text b)))"
      using True decide_request_call [OF idle, of "lit ''approve''" rid ex ns] ne
        decide_request_call [OF idle, of "lit ''reject''" rid None None] revoke_request_call [OF idle, of rid]
      unfolding h reply_call_def by (auto simp del: exec_gop.simps)
    then show ?thesis using True by (intro exI [of _ n]) simp
  next
    case False
    have "step_by (\<lambda>op. False) (and_then (say (lit ''No request #'' @ py_str_int rid @ lit '' exists.'')) (\<lambda>_. give ()))"
      by (intro steps)
    from step_byD [OF this others_idle [OF idle]] reaches_nothing
    have "same_data (b_store ?b1) (b_store (snd (handle_reply (b_approver b) text b)))"
      unfolding h using False by simp
    then have "same_data (b_store b) (b_store (snd (handle_reply (b_approver b) text b)))"
      using same_data_trans [of "b_store b" "b_store ?b1"] by simp
    then show ?thesis using False by simp
  qed
qed

section \<open>Undo\<close>

fun decides :: "gop \<Rightarrow> bool" where
  "decides (Approve rid ex ns) = True"
| "decides (Reject rid) = True"
| "decides (Revoke rid) = True"
| "decides Restart = True"
| "decides _ = False"

lemma reaches_keeps_rows:
  assumes "reaches (\<lambda>op. \<not> decides op) s t" "store_inv s" "find_row rid s = Some r"
  shows "find_row rid t = Some r"
  using assms
proof (induction rule: reaches.induct)
  case (call s t op)
  have inv: "store_inv t" using reaches_contract [OF call.hyps(1)] call.prems by blast
  have r: "find_row rid t = Some r" using call by blast
  from inv show ?case
  proof (cases rule: exec_gop_cases [of t op])
    case (adds new inst rsn items)
    then show ?thesis using find_row_added [OF adds(2)] r by simp
  next
    case (changes rid' r1 r2)
    with call.hyps(2) show ?thesis by auto
  next
    case restarts
    with call.hyps(2) show ?thesis by simp
  next
    case reads
    with r show ?thesis by simp
  next
    case (posts ev rid')
    with r show ?thesis by (simp add: find_row_def)
  qed
qed simp_all

lemma reaches_posts:
  "reaches (\<lambda>op. \<exists>ev rid. op = Post ev rid) s t \<Longrightarrow> rows t = rows s \<and> seq t = seq s"
  by (induction rule: reaches.induct)
    (auto simp: same_data_fields record_posted_def)

lemma create_request_adds:
  assumes "create_request inst (PStr str) items s = (x, t)"
  shows "(\<exists>e. x = Inl e) \<and> rows t = rows s \<and> seq t = seq s
    \<or> (\<exists>new. rows t = rows s @ [new] \<and> seq t = seq s + 1 \<and> r_id new = seq s + 1 \<and> r_state new = Pending
        \<and> r_instance new = inst \<and> r_reason new = py_strip str \<and> clean_items items = Inr (r_items new))"
proof (cases "clean_items items")
  case (Inl e)
  with assms show ?thesis by (auto simp: create_request_def split: if_splits option.splits)
next
  case (Inr cs)
  show ?thesis
  proof (cases "py_strip str = [] \<or> items = []
      \<or> (case allowed_instances s of None \<Rightarrow> False | Some al \<Rightarrow> inst \<notin> set al)")
    case True
    with assms show ?thesis by (auto simp: create_request_def split: if_splits option.splits)
  next
    case False
    let ?new = "\<lparr>r_id = seq s + 1, r_instance = inst, r_reason = py_strip str, r_items = cs,
       r_created_at = clock s (ticks s), r_decided_at = None, r_expires_at = None, r_state = Pending,
       r_state_source = None\<rparr>"
    have "get_row (seq s + 1) (s\<lparr>ticks := Suc (ticks s), rows := rows s @ [?new], seq := seq s + 1\<rparr>) = (x, t)"
      using assms Inr False by (auto simp: create_request_def read_clock_eq Let_def split: if_splits)
    from same_data_fields [OF same_data_get_row [OF this]] show ?thesis using Inr by auto
  qed
qed

text \<open>Posting leaves the undo windows alone.\<close>

definition keeps_undo :: "'a step \<Rightarrow> bool" where
  "keeps_undo f \<longleftrightarrow> (\<forall>b. b_undo (snd (f b)) = b_undo b)"

lemma keeps_and_then: "keeps_undo f \<Longrightarrow> (\<And>x. keeps_undo (g x)) \<Longrightarrow> keeps_undo (and_then f g)"
  by (auto simp: keeps_undo_def and_then_def split: prod.split sum.split) (metis snd_conv)+

lemma keeps_parts: "keeps_undo (net_call ev)" "keeps_undo (give x)" "keeps_undo (on_store f)"
  by (auto simp: keeps_undo_def net_call_def Let_def give_def on_store_def split: net_outcome.split prod.split sum.split)

lemma keeps_reactions: "keeps_undo (add_reactions ev emojis)"
  by (induction emojis) (auto simp: add_reaction_def intro!: keeps_and_then keeps_parts)

lemma post_keeps_undo: "b_undo (snd (and_then (post_request req) (\<lambda>_. give ()) b)) = b_undo b"
proof -
  have "keeps_undo (and_then (post_request req) (\<lambda>_. give ()))"
    unfolding post_request_def say_def by (intro keeps_and_then keeps_parts keeps_reactions)
  then show ?thesis by (simp add: keeps_undo_def)
qed

lemma undo_rows:
  assumes "b_others b = (\<lambda>n. [])" "b_undo b rid = Some window" "clock (b_store b) (ticks (b_store b)) < uw_deadline window"
    and "undo_request rid b = (x, c)"
  shows "b_undo c rid = None
    \<and> ((\<exists>e. x = Inl (Store_raised e)) \<and> rows (b_store c) = rows (b_store b)
     \<or> (\<exists>new. rows (b_store c) = rows (b_store b) @ [new] \<and> r_id new = seq (b_store b) + 1 \<and> r_state new = Pending
        \<and> r_instance new = uw_instance window \<and> r_reason new = py_strip (uw_reason window)
        \<and> clean_items (map item_dict (uw_items window)) = Inr (r_items new)))"
proof -
  let ?s1 = "(b_store b)\<lparr>ticks := Suc (ticks (b_store b))\<rparr>"
  let ?b1 = "close_window rid (b\<lparr>b_store := ?s1\<rparr>)"
  obtain y s2 where cr: "create_request (uw_instance window) (PStr (uw_reason window))
      (map item_dict (uw_items window)) ?s1 = (y, s2)" by fastforce
  note adds = create_request_adds [OF cr]
  have u: "and_then (on_store (create_request (uw_instance window) (PStr (uw_reason window))
      (map item_dict (uw_items window)))) (\<lambda>req. and_then (post_request req) (\<lambda>_. give ())) ?b1 = (x, c)"
    using assms(2-4) by (simp add: undo_request_def and_then_def now_step_def read_clock_def)
  show ?thesis
  proof (cases y)
    case (Inl e)
    with u cr have "x = Inl (Store_raised e)" "c = ?b1\<lparr>b_store := s2\<rparr>"
      by (auto simp: and_then_def on_store_def close_window_def)
    then show ?thesis using adds by (auto simp: close_window_def)
  next
    case (Inr req)
    let ?b2 = "?b1\<lparr>b_store := s2\<rparr>"
    have r: "and_then (post_request req) (\<lambda>_. give ()) ?b2 = (x, c)"
      using u cr Inr by (simp add: and_then_def on_store_def close_window_def)
    have "step_by (\<lambda>op. \<exists>ev rid. op = Post ev rid) (and_then (post_request req) (\<lambda>_. give ()))"
      by (intro steps step_by_post) blast
    moreover have "others_only (\<lambda>op. \<exists>ev rid. op = Post ev rid) ?b2"
      using assms(1) by (simp add: others_only_def close_window_def)
    ultimately have "rows (b_store c) = rows s2"
      using step_byD [of _ "and_then (post_request req) (\<lambda>_. give ())" ?b2] reaches_posts r by fastforce
    moreover have "b_undo c = b_undo ?b2" using r post_keeps_undo by (metis snd_conv)
    ultimately show ?thesis using adds Inr by (auto simp: close_window_def)
  qed
qed

lemma closed_rows:
  assumes "b_others b = (\<lambda>n. [])" "window_closed rid b = (x, c)"
  shows "rows (b_store c) = rows (b_store b) \<and> b_undo c = (b_undo b)(rid := None)"
proof -
  let ?f = "and_then (say (lit ''Undo window for #'' @ py_str_int rid
       @ lit '' closed. File a new request if access is still needed.'')) (\<lambda>_. give ())"
  have "keeps_undo ?f" by (simp add: say_def keeps_and_then keeps_parts)
  moreover have f: "?f (close_window rid b) = (x, c)" using assms(2) by (simp add: window_closed_def)
  ultimately have "b_undo c = b_undo (close_window rid b)"
    unfolding keeps_undo_def by (metis snd_conv)
  moreover have o: "others_only (\<lambda>op. False) (close_window rid b)"
    using assms(1) by (simp add: others_only_def close_window_def)
  have st: "step_by (\<lambda>op. False) ?f" by (rule step_by_and_then [OF step_by_say step_by_give])
  have "same_data (b_store (close_window rid b)) (b_store c)"
    using step_byD [OF st o] f by (metis reaches_nothing snd_conv)
  ultimately show ?thesis by (simp add: same_data_fields close_window_def)
qed

text \<open>C24: an undo is one fresh request or nothing. It closes the window of its number, whatever
  happens, so a number is undone at most once. With no window, or at or after its deadline, the
  rows are untouched; within it at most one row is added, pending, under the next number, with
  the instance and reason the window kept and its items normalised again. No row there was
  before is changed: the decided number is not resurrected.\<close>

theorem undo_makes_one_fresh_request:
  assumes "b_others b = (\<lambda>n. [])" "undo_request rid b = (x, c)"
  shows "b_undo c rid = None
    \<and> (case b_undo b rid of
         None \<Rightarrow> rows (b_store c) = rows (b_store b)
       | Some w \<Rightarrow>
           if uw_deadline w \<le> clock (b_store b) (ticks (b_store b)) then rows (b_store c) = rows (b_store b)
           else (\<exists>e. x = Inl (Store_raised e)) \<and> rows (b_store c) = rows (b_store b)
             \<or> (\<exists>new. rows (b_store c) = rows (b_store b) @ [new] \<and> r_id new = seq (b_store b) + 1
                  \<and> r_state new = Pending \<and> r_instance new = uw_instance w
                  \<and> r_reason new = py_strip (uw_reason w)
                  \<and> clean_items (map item_dict (uw_items w)) = Inr (r_items new)))"
proof (cases "b_undo b rid")
  case None
  with assms closed_rows [OF assms(1)] show ?thesis by (simp add: undo_request_def)
next
  case (Some w)
  show ?thesis
  proof (cases "uw_deadline w \<le> clock (b_store b) (ticks (b_store b))")
    case True
    let ?b1 = "b\<lparr>b_store := (b_store b)\<lparr>ticks := Suc (ticks (b_store b))\<rparr>\<rparr>"
    have "window_closed rid ?b1 = (x, c)"
      using assms(2) Some True by (simp add: undo_request_def and_then_def now_step_def read_clock_def)
    with closed_rows [of ?b1] assms(1) Some True show ?thesis by simp
  next
    case False
    with undo_rows [OF assms(1) Some _ assms(2)] Some show ?thesis by simp
  qed
qed

section \<open>Examples\<close>

text \<open>A room that takes every message, an approver, and the example store; request 2 was just
  rejected.\<close>

definition example_bot :: bot where
  "example_bot = \<lparr>b_store = example_store, b_approver = lit ''@ann'', b_swept = {},
     b_undo = (\<lambda>_. None)(2 \<mapsto> \<lparr>uw_deadline = 15 * MICROSECONDS, uw_instance = lit ''home'',
       uw_reason = lit ''tidy up'', uw_items = [example_item]\<rparr>),
     b_repr = (\<lambda>v. []), b_net = (\<lambda>n. Net_ok (lit ''ev'')), b_others = (\<lambda>n. []), b_calls = 0, b_room = []\<rparr>"

lemma example_bot_simps:
  "b_store example_bot = example_store" "b_others example_bot = (\<lambda>n. [])" "b_approver example_bot = lit ''@ann''"
  by (simp_all add: example_bot_def)

lemma example_bot_inv: "store_inv (b_store example_bot)"
  by (simp add: example_bot_simps example_store_inv)

theorem only_the_approver_grants_witness:
  "find_row 2 (b_store (bot_history [Reply (lit ''@eve'') (lit ''approve 2''), Sweep] example_bot)) \<noteq>
     Some (example_request\<lparr>r_state := Active\<rparr>)"
proof
  assume a: "find_row 2 (b_store (bot_history [Reply (lit ''@eve'') (lit ''approve 2''), Sweep] example_bot)) =
     Some (example_request\<lparr>r_state := Active\<rparr>)"
  have "lit ''@eve'' \<noteq> lit ''@ann''" by (simp add: lit_def)
  then have "find_row 2 (b_store example_bot) = Some (example_request\<lparr>r_state := Active\<rparr>)"
    by (intro only_the_approver_grants [OF example_bot_inv _ _ a])
      (simp_all add: example_bot_simps others_only_def)
  then show False using example_rows by (simp add: example_bot_simps example_request_def)
qed

theorem approver_is_answered_witness:
  "\<exists>c t i. handle_reply (lit ''@ann'') (lit ''zzzz'') example_bot = (Inr (), c) \<and> Said t i \<in> set (b_room c)"
proof -
  have p: "parse_reply (PStr (lit ''zzzz'')) = Inr None"
    by (simp add: parse_reply_def re_match_def REPLY_RE_def lit_def ci_eq_def py_strip_def py_isspace_def)
  have t: "\<exists>c. teach tx example_bot = (Inr (), c)" for tx
    by (auto simp: teach_def and_then_def say_def net_call_def give_def example_bot_def split: option.split)
  then obtain c where c: "handle_reply (b_approver example_bot) (lit ''zzzz'') example_bot = (Inr (), c)"
    using p by (auto simp: handle_reply_def)
  from approver_is_answered [OF disjI1 [OF c]] c show ?thesis
    by (auto simp: example_bot_def)
qed

theorem reply_is_one_store_call_witness:
  "\<exists>n. same_data (exec_gop (Approve 2 None (Some [1])) (after_ticks n example_store))
     (b_store (snd (handle_reply (lit ''@ann'') (lit ''approve 2 1'') example_bot)))"
proof -
  have p: "parse_reply (PStr (lit ''approve 2 1'')) = Inr (Some (Decide_reply (lit ''approve'') 2 (Some [1]) None))"
  proof -
    have "print_reply (lit ''approve'') 2 [1] None = lit ''approve 2 1''"
      by (simp add: print_reply_def spaced_def print_items_def print_expiry_def nat_digits.simps lit_def)
    moreover have "(10 :: nat) ^ 1 \<le> 10 ^ MAX_STR_DIGITS"
      by (rule power_increasing) (simp_all add: MAX_STR_DIGITS_def)
    then have "(2 :: nat) < 10 ^ MAX_STR_DIGITS" "(1 :: nat) < 10 ^ MAX_STR_DIGITS" by simp_all
    ultimately show ?thesis
      using parse_printed [of "lit ''approve''" 2 "[1]" None] by (simp add: expiry_ok_def del: power_numeral)
  qed
  have "2 \<in> r_id ` set (rows (b_store example_bot))"
    by (simp add: example_bot_simps example_store_def example_request_def)
  with reply_is_one_store_call [OF example_bot_inv _ p] show ?thesis
    by (simp add: example_bot_simps reply_call_def del: exec_gop.simps)
qed

lemma example_create:
  obtains req s2 where "create_request (lit ''home'') (PStr (lit ''tidy up'')) [item_dict example_item]
      (example_store\<lparr>ticks := n\<rparr>) = (Inr req, s2)"
    "posted s2 = [(lit ''e1'', 1), (lit ''e2'', 2)]"
proof -
  have n: "normalize_path (PStr (lit ''docs'')) = Some (lit ''docs'')"
    by (rule normalize_plain)
      (simp add: plain_path_def canonical_path_def canonical_component_def has_escape_Cons escape_at_def
        lit_def is_control_def MAX_PATH_LENGTH_def py_strip_def py_isspace_def)
  have "lit ''mode'' \<noteq> lit ''path''" "py_strip (lit ''tidy up'') = lit ''tidy up''" "lit ''tidy up'' \<noteq> []"
    by (simp_all add: lit_def py_strip_def py_isspace_def)
  then have "\<exists>req s2. create_request (lit ''home'') (PStr (lit ''tidy up'')) [item_dict example_item]
      (example_store\<lparr>ticks := n\<rparr>) = (Inr req, s2) \<and> posted s2 = [(lit ''e1'', 1), (lit ''e2'', 2)]"
    by (simp add: create_request_def item_dict_def example_item_def dict_get_def n get_row_def find_row_def
        effective_state_def example_store_def example_clock_def read_clock_def example_grant_def
        example_request_def MICROSECONDS_def DEFAULT_PENDING_TIMEOUT_def Let_def)
  then show thesis using that by blast
qed

lemma example_post:
  assumes "posted (b_store b) = [(lit ''e1'', 1), (lit ''e2'', 2)]" "b_net b = (\<lambda>n. Net_ok (lit ''ev''))"
    "b_others b = (\<lambda>n. [])"
  shows "fst (post_request req b) = Inr (lit ''ev'')"
proof -
  have "lit ''ev'' \<notin> {lit ''e1'', lit ''e2''}" by (simp add: lit_def)
  then show ?thesis
    using assms by (simp add: and_then_def on_store_def post_request_def say_def net_call_def add_reaction_def
        give_def record_posted_def)
qed

theorem undo_makes_one_fresh_request_witness:
  "\<exists>c new. undo_request 2 example_bot = (Inr (), c) \<and> b_undo c 2 = None
     \<and> rows (b_store c) = [example_grant, example_request, new] \<and> r_id new = 3 \<and> r_state new = Pending"
proof -
  obtain x c where u: "undo_request 2 example_bot = (x, c)" by fastforce
  let ?s1 = "example_store\<lparr>ticks := 2\<rparr>"
  obtain req s2 where cr: "create_request (lit ''home'') (PStr (lit ''tidy up'')) [item_dict example_item] ?s1 = (Inr req, s2)"
    "posted s2 = [(lit ''e1'', 1), (lit ''e2'', 2)]" by (rule example_create)
  let ?b1 = "close_window 2 (example_bot\<lparr>b_store := ?s1\<rparr>)"
  let ?b2 = "?b1\<lparr>b_store := s2\<rparr>"
  have "now_step example_bot = (Inr MICROSECONDS, example_bot\<lparr>b_store := ?s1\<rparr>)"
    by (simp add: now_step_def read_clock_def example_bot_def example_store_def example_clock_def MICROSECONDS_def)
  moreover have "on_store (create_request (lit ''home'') (PStr (lit ''tidy up'')) [item_dict example_item]) ?b1
      = (Inr req, ?b2)"
    using cr by (simp add: on_store_def close_window_def)
  moreover have "b_undo example_bot 2 = Some \<lparr>uw_deadline = 15 * MICROSECONDS, uw_instance = lit ''home'',
       uw_reason = lit ''tidy up'', uw_items = [example_item]\<rparr>"
    by (simp add: example_bot_def)
  ultimately have "undo_request 2 example_bot = and_then (post_request req) (\<lambda>_. give ()) ?b2"
    by (simp add: undo_request_def and_then_def MICROSECONDS_def)
  moreover have "fst (post_request req ?b2) = Inr (lit ''ev'')"
    using cr(2) by (intro example_post) (simp_all add: close_window_def example_bot_def)
  ultimately have "x = Inr ()"
    using u by (auto simp: and_then_def give_def split: prod.splits)
  with undo_makes_one_fresh_request [OF _ u] u show ?thesis
    by (auto simp: example_bot_def example_store_def example_clock_def MICROSECONDS_def)
qed

end
