(* ===== verification/Py_Base64.thy ===== *)
theory Py_Base64
  imports Py_Prelude
begin

text \<open>
  \<open>base64.b64encode(data).decode()\<close> and \<open>base64.b64decode(text, validate=True)\<close> of the
  standard library (CPython 3.12, the version of the image). The decoder is the state machine
  of \<open>binascii.a2b_base64\<close> in strict mode: the position in the group of four, the bits left
  over, the pads seen, and whether a pad was seen. A byte is a natural number below 256; None
  is the exception \<open>binascii.Error\<close> (or the \<open>ValueError\<close> for a non-ASCII character).
\<close>

definition b64_char :: "nat \<Rightarrow> cp" where
  "b64_char v = (if v < 26 then 65 + v else if v < 52 then 71 + v else if v < 62 then v - 4
     else if v = 62 then 43 else 47)"

definition b64_val :: "cp \<Rightarrow> nat option" where
  "b64_val c = (if 65 \<le> c \<and> c \<le> 90 then Some (c - 65) else if 97 \<le> c \<and> c \<le> 122 then Some (c - 71)
     else if 48 \<le> c \<and> c \<le> 57 then Some (c + 4) else if c = 43 then Some 62
     else if c = 47 then Some 63 else None)"

fun b64_encode :: "nat list \<Rightarrow> pystr" where
  "b64_encode [] = []"
| "b64_encode [a] = [b64_char (a div 4), b64_char (a mod 4 * 16), 61, 61]"
| "b64_encode [a, b] =
     [b64_char (a div 4), b64_char (a mod 4 * 16 + b div 16), b64_char (b mod 16 * 4), 61]"
| "b64_encode (a # b # c # bs) =
     b64_char (a div 4) # b64_char (a mod 4 * 16 + b div 16) # b64_char (b mod 16 * 4 + c div 64)
       # b64_char (c mod 64) # b64_encode bs"

fun a2b_strict :: "nat \<Rightarrow> nat \<Rightarrow> nat \<Rightarrow> bool \<Rightarrow> pystr \<Rightarrow> nat list option" where
  "a2b_strict quad left pads started [] = (if quad = 0 then Some [] else None)"
| "a2b_strict quad left pads started (c # cs) =
     (if c = 61
      then (if 2 \<le> quad \<and> 4 \<le> quad + Suc pads then if cs = [] then Some [] else None
            else a2b_strict quad left (if 2 \<le> quad then Suc pads else pads) True cs)
      else (case b64_val c of
              None \<Rightarrow> None
            | Some v \<Rightarrow>
                if started then None
                else if quad = 0 then a2b_strict 1 v 0 False cs
                else if quad = 1 then map_option ((#) (left * 4 + v div 16)) (a2b_strict 2 (v mod 16) 0 False cs)
                else if quad = 2 then map_option ((#) (left * 16 + v div 4)) (a2b_strict 3 (v mod 4) 0 False cs)
                else map_option ((#) (left * 64 + v)) (a2b_strict 0 0 0 False cs)))"

definition b64_decode :: "pystr \<Rightarrow> nat list option" where
  "b64_decode s = (if s \<noteq> [] \<and> hd s = 61 then None else a2b_strict 0 0 0 False s)"

lemma b64_val_char [simp]: "v < 64 \<Longrightarrow> b64_val (b64_char v) = Some v"
  by (auto simp: b64_val_def b64_char_def)

lemma b64_char_not_pad [simp]: "v < 64 \<Longrightarrow> b64_char v \<noteq> 61"
  by (auto simp: b64_char_def)

lemma six_bits:
  assumes "a < 256" "b < 256" "c < (256 :: nat)"
  shows "a div 4 < 64" "a mod 4 * 16 < 64" "a mod 4 * 16 + b div 16 < 64" "b mod 16 * 4 < 64"
    "b mod 16 * 4 + c div 64 < 64" "c mod 64 < 64"
proof -
  have "b div 16 < 16" "c div 64 < 4" using assms by (simp_all add: less_mult_imp_div_less)
  moreover have "a mod 4 < 4" "b mod 16 < 16" by simp_all
  ultimately show "a div 4 < 64" "a mod 4 * 16 < 64" "a mod 4 * 16 + b div 16 < 64" "b mod 16 * 4 < 64"
    "b mod 16 * 4 + c div 64 < 64" "c mod 64 < 64"
    using assms by (simp_all add: less_mult_imp_div_less)
qed

lemma regroup:
  assumes "a < 256" "b < 256" "c < (256 :: nat)"
  shows "a div 4 * 4 + (a mod 4 * 16 + b div 16) div 16 = a" "a div 4 * 4 + a mod 4 * 16 div 16 = a"
    "(a mod 4 * 16 + b div 16) mod 16 * 16 + (b mod 16 * 4 + c div 64) div 4 = b"
    "(a mod 4 * 16 + b div 16) mod 16 * 16 + b mod 16 * 4 div 4 = b"
    "(b mod 16 * 4 + c div 64) mod 4 * 64 + c mod 64 = c"
proof -
  have b: "b div 16 < 16" and c: "c div 64 < 4" using assms by (simp_all add: less_mult_imp_div_less)
  have h1: "(a mod 4 * 16 + b div 16) div 16 = a mod 4" "(a mod 4 * 16 + b div 16) mod 16 = b div 16"
    using b by simp_all
  have h2: "(b mod 16 * 4 + c div 64) div 4 = b mod 16" "(b mod 16 * 4 + c div 64) mod 4 = c div 64"
    using c by simp_all
  show "a div 4 * 4 + (a mod 4 * 16 + b div 16) div 16 = a" "a div 4 * 4 + a mod 4 * 16 div 16 = a"
    "(a mod 4 * 16 + b div 16) mod 16 * 16 + (b mod 16 * 4 + c div 64) div 4 = b"
    "(a mod 4 * 16 + b div 16) mod 16 * 16 + b mod 16 * 4 div 4 = b"
    "(b mod 16 * 4 + c div 64) mod 4 * 64 + c mod 64 = c"
    using b c by (simp_all add: h1 h2)
qed

lemma a2b_encode: "\<forall>b \<in> set bs. b < 256 \<Longrightarrow> a2b_strict 0 0 0 False (b64_encode bs) = Some bs"
proof (induction bs rule: b64_encode.induct)
  case (2 a)
  then show ?case using six_bits [of a 0 0] regroup [of a 0 0] by simp
next
  case (3 a b)
  then show ?case using six_bits [of a b 0] regroup [of a b 0] by simp
next
  case (4 a b c bs)
  then show ?case using six_bits [of a b c] regroup [of a b c] by simp
qed simp

lemma b64_encode_head: "\<forall>b \<in> set bs. b < 256 \<Longrightarrow> b64_encode bs \<noteq> [] \<Longrightarrow> hd (b64_encode bs) \<noteq> 61"
  by (cases bs rule: b64_encode.cases) (use six_bits [of "hd bs" 0 0] in auto)

lemma b64_round_trip: "\<forall>b \<in> set bs. b < 256 \<Longrightarrow> b64_decode (b64_encode bs) = Some bs"
  using a2b_encode [of bs] b64_encode_head [of bs] by (auto simp: b64_decode_def)

text \<open>What the decoder returns are bytes, and never more than three for four characters.\<close>

lemma b64_val_bound: "b64_val c = Some v \<Longrightarrow> v < 64"
  by (auto simp: b64_val_def split: if_splits)

lemma a2b_bytes:
  "a2b_strict quad left pads started cs = Some bs \<Longrightarrow>
     (quad = 0 \<or> quad = 1 \<and> left < 64 \<or> quad = 2 \<and> left < 16 \<or> quad = 3 \<and> left < 4) \<Longrightarrow>
     (\<forall>b \<in> set bs. b < 256) \<and> 4 * length bs \<le> 3 * length cs + (4 - quad) mod 4"
proof (induction cs arbitrary: quad left pads started bs)
  case (Cons c cs)
  show ?case
  proof (cases "c = 61")
    case True
    then have "bs = [] \<or> (\<exists>p. a2b_strict quad left p True cs = Some bs)"
      using Cons.prems(1) by (auto split: if_splits)
    then show ?thesis using Cons.IH [of quad left _ True bs] Cons.prems(2) by fastforce
  next
    case False
    with Cons.prems(1) obtain v where v: "b64_val c = Some v" "\<not> started" by (auto split: option.splits if_splits)
    then have bound: "v < 64" using b64_val_bound by simp
    then have parts: "v mod 16 < 16" "v mod 4 < 4" "v div 16 < 4" "v div 4 < 16" by auto
    consider "quad = 0" | "quad = 1" "left < 64" | "quad = 2" "left < 16" | "quad = 3" "left < 4"
      using Cons.prems(2) by blast
    then show ?thesis
    proof cases
      case 1
      then show ?thesis using False v bound Cons.prems(1) Cons.IH [of 1 v 0 False bs] by simp
    next
      case 2
      then obtain rest where "bs = (left * 4 + v div 16) # rest" "a2b_strict 2 (v mod 16) 0 False cs = Some rest"
        using False v Cons.prems(1) by auto
      then show ?thesis using 2 parts Cons.IH [of 2 "v mod 16" 0 False rest] by simp
    next
      case 3
      then obtain rest where "bs = (left * 16 + v div 4) # rest" "a2b_strict 3 (v mod 4) 0 False cs = Some rest"
        using False v Cons.prems(1) by auto
      then show ?thesis using 3 parts Cons.IH [of 3 "v mod 4" 0 False rest] by simp
    next
      case 4
      then obtain rest where "bs = (left * 64 + v) # rest" "a2b_strict 0 0 0 False cs = Some rest"
        using False v Cons.prems(1) by auto
      then show ?thesis using 4 bound Cons.IH [of 0 0 0 False rest] by simp
    qed
  qed
qed (auto split: if_splits)

lemma b64_decode_bytes:
  "b64_decode s = Some bs \<Longrightarrow> (\<forall>b \<in> set bs. b < 256) \<and> 4 * length bs \<le> 3 * length s"
  using a2b_bytes [of 0 0 0 False s bs] by (auto simp: b64_decode_def split: if_splits)

end
