(* ===== verification/Py_Time.thy ===== *)
theory Py_Time
  imports Grants
begin

text \<open>
  \<open>datetime.isoformat\<close> of an instant in UTC. An instant is the number of microseconds since
  the first of January 1970; the date is computed from the ordinal of the day as CPython's
  \<open>ord_to_ymd\<close> does. Years beyond 9999, which CPython refuses, are not excluded.
\<close>

definition DAYS_BEFORE_MONTH :: "int list" where
  "DAYS_BEFORE_MONTH = [0, 0, 31, 59, 90, 120, 151, 181, 212, 243, 273, 304, 334]"

definition DAYS_IN_MONTH :: "int list" where
  "DAYS_IN_MONTH = [0, 31, 28, 31, 30, 31, 30, 31, 31, 30, 31, 30, 31]"

definition ord_to_ymd :: "int \<Rightarrow> int \<times> int \<times> int" where
  "ord_to_ymd ordinal =
     (let n0 = ordinal - 1; n400 = n0 div 146097; n1 = n0 mod 146097;
          n100 = n1 div 36524; n2 = n1 mod 36524; n4 = n2 div 1461; n3 = n2 mod 1461;
          n_1 = n3 div 365; n = n3 mod 365;
          year = n400 * 400 + 1 + n100 * 100 + n4 * 4 + n_1
      in if n_1 = 4 \<or> n100 = 4 then (year - 1, 12, 31)
         else (let leap = (n_1 = 3 \<and> (n4 \<noteq> 24 \<or> n100 = 3));
                   month = (n + 50) div 32;
                   preceding = DAYS_BEFORE_MONTH ! nat month + (if month > 2 \<and> leap then 1 else 0)
               in if preceding > n
                  then (let m = month - 1;
                            p = preceding - (DAYS_IN_MONTH ! nat m + (if m = 2 \<and> leap then 1 else 0))
                        in (year, m, n - p + 1))
                  else (year, month, n - preceding + 1)))"

definition zfill :: "nat \<Rightarrow> int \<Rightarrow> pystr" where
  "zfill k n = (let s = py_str_int n in replicate (k - length s) 48 @ s)"

definition isoformat :: "int \<Rightarrow> pystr" where
  "isoformat t =
     (let day = 86400 * MICROSECONDS; us = t mod day; s = us div MICROSECONDS;
          (y, m, d) = ord_to_ymd (t div day + 719163); f = us mod MICROSECONDS
      in zfill 4 y @ lit ''-'' @ zfill 2 m @ lit ''-'' @ zfill 2 d @ lit ''T''
         @ zfill 2 (s div 3600) @ lit '':'' @ zfill 2 (s div 60 mod 60) @ lit '':'' @ zfill 2 (s mod 60)
         @ (if f = 0 then [] else lit ''.'' @ zfill 6 f) @ lit ''+00:00'')"

end
