(* ===== verification/Server.thy ===== *)
theory Server
  imports Nextcloud Matrixbot Py_Base64 Py_Time Py_Url
begin

text \<open>
  The tool server, \<open>broker/server.py\<close>: the check of the bearer token, the guard of the bind
  address, the envelope that every tool returns, the tools, and the two surfaces that
  \<open>build_app\<close> registers. The MCP library, which validates the arguments against the
  signatures and carries the envelope, is not modelled: a tool is called with the types its
  signature declares.

  The server holds the layer with its world and the bot; both use the same store, which is
  kept in the world and lent to the bot for each of its steps. The text of the exceptions of
  the audit log is the parameter \<open>sv_audit_text\<close>, since it quotes the operating system.
\<close>

section \<open>The token\<close>

text \<open>\<open>s.encode()\<close>: UTF-8, refused for a lone surrogate.\<close>

definition utf8_cp :: "cp \<Rightarrow> nat list" where
  "utf8_cp c =
     (if c < 128 then [c]
      else if c < 2048 then [192 + c div 64, 128 + c mod 64]
      else if c < 65536 then [224 + c div 4096, 128 + c div 64 mod 64, 128 + c mod 64]
      else [240 + c div 262144, 128 + c div 4096 mod 64, 128 + c div 64 mod 64, 128 + c mod 64])"

definition surrogate :: "cp \<Rightarrow> bool" where
  "surrogate c \<longleftrightarrow> 55296 \<le> c \<and> c \<le> 57343"

definition utf8_encode :: "pystr \<Rightarrow> nat list option" where
  "utf8_encode s = (if \<exists>c \<in> set s. surrogate c then None else Some (concat (map utf8_cp s)))"

text \<open>\<open>check_auth\<close>; None is the \<open>UnicodeEncodeError\<close>. \<open>hmac.compare_digest\<close> is equality.\<close>

definition check_auth :: "pystr option \<Rightarrow> pystr \<Rightarrow> bool option" where
  "check_auth provided expected =
     (case provided of
        None \<Rightarrow> Some False
      | Some p \<Rightarrow>
          if p = [] then Some False
          else (case utf8_encode p of
                  None \<Rightarrow> None
                | Some a \<Rightarrow> (case utf8_encode expected of None \<Rightarrow> None | Some b \<Rightarrow> Some (a = b))))"

section \<open>The server\<close>

definition validate_bind_host :: "pystr option \<Rightarrow> pystr option" where
  "validate_bind_host bind_host =
     (if bind_host = Some (lit ''0.0.0.0'') \<or> bind_host = Some (lit ''::'')
      then Some (lit ''refusing wildcard bind_host: exposure is decided by the host ''
                 @ lit ''(docker-compose), never by the application'')
      else if bind_host = Some [] then Some (lit ''bind_host must be None or a specific address'')
      else None)"

text \<open>\<open>build_server\<close>: the version, from the installed package (if any) and the content of the
  file \<open>COMMIT\<close> (if it exists).\<close>

definition server_version :: "pystr option \<Rightarrow> pystr option \<Rightarrow> pystr" where
  "server_version package commit_file =
     (let ver = (case package of None \<Rightarrow> lit ''0.1.0'' | Some v \<Rightarrow> v)
      in case commit_file of
           None \<Rightarrow> ver
         | Some text \<Rightarrow>
             (let commit = py_strip text
              in if commit \<noteq> [] \<and> commit \<noteq> lit ''unknown'' then ver @ lit ''+'' @ take 7 commit else ver))"

definition build_server :: "pystr option \<Rightarrow> pystr option \<Rightarrow> pystr option \<Rightarrow> pystr + pystr \<times> pystr" where
  "build_server bind_host package commit_file =
     (case validate_bind_host bind_host of
        Some e \<Rightarrow> Inl e
      | None \<Rightarrow> Inr (lit ''nextcloud-access-broker'', server_version package commit_file))"

record 'd server =
  sv_layer :: layer
  sv_world :: "'d world"
  sv_bot :: bot
  sv_token :: pystr
  sv_bind_host :: "pystr option"
  sv_port :: int
  sv_audit_text :: "audit_error \<Rightarrow> pystr"

text \<open>\<open>BrokerServer.__init__\<close>: the guard, then the allowlist is pushed into the store.\<close>

definition new_server ::
  "layer \<Rightarrow> 'd world \<Rightarrow> bot \<Rightarrow> pystr \<Rightarrow> pystr option \<Rightarrow> int \<Rightarrow> pystr list option
     \<Rightarrow> (audit_error \<Rightarrow> pystr) \<Rightarrow> pystr + 'd server" where
  "new_server l w b token bind_host port allowed audit_text =
     (case validate_bind_host bind_host of
        Some e \<Rightarrow> Inl e
      | None \<Rightarrow>
          Inr \<lparr>sv_layer = l, sv_world = w\<lparr>w_store := (w_store w)\<lparr>allowed_instances := allowed\<rparr>\<rparr>,
            sv_bot = b, sv_token = token, sv_bind_host = bind_host, sv_port = port,
            sv_audit_text = audit_text\<rparr>)"

abbreviation sv_store :: "'d server \<Rightarrow> store" where
  "sv_store sv \<equiv> w_store (sv_world sv)"

definition with_store :: "store \<Rightarrow> 'd server \<Rightarrow> 'd server" where
  "with_store s sv = sv\<lparr>sv_world := (sv_world sv)\<lparr>w_store := s\<rparr>\<rparr>"

text \<open>A step of the bot on the store of the server.\<close>

definition on_bot :: "'a step \<Rightarrow> 'd server \<Rightarrow> (bot_error + 'a) \<times> 'd server" where
  "on_bot f sv =
     (case f ((sv_bot sv)\<lparr>b_store := sv_store sv\<rparr>) of
        (r, b) \<Rightarrow> (r, with_store (b_store b) (sv\<lparr>sv_bot := b\<rparr>)))"

section \<open>The envelope\<close>

datatype payload =
    Result op_result
  | Content_b64 pystr
  | Checked_out_b64 field pystr
  | Instances "(pystr \<times> bool) list"

datatype envelope =
    Tool_ok payload
  | Tool_refused pystr
  | Tool_error pystr
  | Tool_pending int
  | Tool_grants "(int \<times> pystr \<times> item list \<times> pystr option) list"

definition refusal :: "pystr \<Rightarrow> envelope" where
  "refusal reason = Tool_refused reason"

definition error_envelope :: "pystr \<Rightarrow> envelope" where
  "error_envelope message = Tool_error (take 300 message)"

text \<open>The loop over the clients of the final branch.\<close>

fun scrub_all :: "client list \<Rightarrow> pystr \<Rightarrow> pystr" where
  "scrub_all [] message = message"
| "scrub_all (c # cs) message =
     scrub_all cs (if c_password c \<noteq> [] then py_replace (c_password c) (lit ''[redacted]'') message else message)"

text \<open>\<open>str(exc)\<close> of the exceptions that the final branch of \<open>_op\<close> takes.\<close>

definition exception_text :: "'d server \<Rightarrow> layer_error \<Rightarrow> pystr" where
  "exception_text sv e =
     (case e of
        Transport_error t \<Rightarrow> t
      | Audit_refused a \<Rightarrow> sv_audit_text sv a
      | Store_failed s \<Rightarrow> error_text (b_repr (sv_bot sv)) s
      | No_attribute v \<Rightarrow> [39] @ type_name v @ [39] @ lit '' object has no attribute '' @ [39] @ lit ''get'' @ [39]
      | _ \<Rightarrow> [])"

definition op_envelope :: "'d server \<Rightarrow> layer_error + op_result \<Rightarrow> envelope" where
  "op_envelope sv x =
     (case x of
        Inr r \<Rightarrow> Tool_ok (Result r)
      | Inl (Access_refused reason) \<Rightarrow> refusal reason
      | Inl (Webdav_error status message) \<Rightarrow>
          error_envelope (lit ''nextcloud error '' @ py_str_int status @ lit '': '' @ message)
      | Inl (Audit_refused Log_write_error) \<Rightarrow>
          error_envelope (lit ''audit failure, operation refused: '' @ sv_audit_text sv Log_write_error)
      | Inl (Backend_error t) \<Rightarrow> error_envelope (lit ''backend unreachable: '' @ t)
      | Inl e \<Rightarrow>
          error_envelope (lit ''unexpected transport failure: ''
            @ take 200 (scrub_all (map snd (l_clients (sv_layer sv))) (exception_text sv e))))"

text \<open>\<open>_op\<close>: one operation of the layer.\<close>

definition layer_op :: "'d transport \<Rightarrow> request \<Rightarrow> 'd server \<Rightarrow> envelope \<times> 'd server" where
  "layer_op dav r sv =
     (case run_op (sv_layer sv) dav r (sv_world sv) of
        (x, w) \<Rightarrow> (op_envelope sv x, sv\<lparr>sv_world := w\<rparr>))"

section \<open>The tools\<close>

text \<open>\<open>Unreachable\<close> is a \<open>ConnectionError\<close>, \<open>RuntimeError\<close> or \<open>OSError\<close> of the transport of
  the bot; any other exception of the posting is not caught.\<close>

definition request_access ::
  "pystr \<Rightarrow> pystr \<Rightarrow> (pystr \<times> pyval) list list \<Rightarrow> 'd server \<Rightarrow> (bot_error + envelope) \<times> 'd server" where
  "request_access inst reason items sv =
     (case create_request inst (PStr reason) items (sv_store sv) of
        (Inl e, s) \<Rightarrow>
          (if is_value_error e then Inr (error_envelope (error_text (b_repr (sv_bot sv)) e))
           else Inl (Store_raised e), with_store s sv)
      | (Inr req, s) \<Rightarrow>
          (case on_bot (post_request req) (with_store s sv) of
             (Inr _, sv1) \<Rightarrow> (Inr (Tool_pending (gr_id req)), sv1)
           | (Inl (Unreachable t), sv1) \<Rightarrow>
               (case reject (gr_id req) (sv_store sv1) of
                  (Inl e, s2) \<Rightarrow> (Inl (Store_raised e), with_store s2 sv1)
                | (Inr _, s2) \<Rightarrow>
                    (Inr (error_envelope (lit ''approval plane unreachable: '' @ t)), with_store s2 sv1))
           | (Inl e, sv1) \<Rightarrow> (Inl e, sv1)))"

definition check_tool :: "pystr \<Rightarrow> 'd server \<Rightarrow> (bot_error + envelope) \<times> 'd server" where
  "check_tool inst sv =
     (case active_grants (Some inst) (sv_store sv) of
        (Inl e, s) \<Rightarrow> (Inl (Store_raised e), with_store s sv)
      | (Inr recs, s) \<Rightarrow>
          (Inr (Tool_grants (map (\<lambda>rec. (gr_id rec, gr_instance rec, gr_items rec,
                 map_option isoformat (gr_expires_at rec))) recs)), with_store s sv))"

definition list_instances :: "'d server \<Rightarrow> envelope" where
  "list_instances sv =
     (let names = sort (remdups (case allowed_instances (sv_store sv) of None \<Rightarrow> [] | Some ns \<Rightarrow> ns))
      in Tool_ok (Instances (map (\<lambda>n. (n, n \<in> set (l_discovery (sv_layer sv)))) names)))"

text \<open>The content of a reply, encoded for the envelope; any other result is left as it is.\<close>

definition encode_content :: "envelope \<Rightarrow> envelope" where
  "encode_content out =
     (case out of
        Tool_ok (Result (op_result.Reply (Reply_dict d))) \<Rightarrow>
          (case field_of d (lit ''content'') of Bytes bs \<Rightarrow> Tool_ok (Content_b64 (b64_encode bs)) | _ \<Rightarrow> out)
      | Tool_ok (Result (Checked_out token (Bytes bs))) \<Rightarrow> Tool_ok (Checked_out_b64 token (b64_encode bs))
      | _ \<Rightarrow> out)"

definition read_tool :: "'d transport \<Rightarrow> pystr \<Rightarrow> pystr \<Rightarrow> pystr \<Rightarrow> 'd server \<Rightarrow> envelope \<times> 'd server" where
  "read_tool dav inst path prin sv =
     (case layer_op dav (Read_req inst (PStr path) (Some prin)) sv of
        (out, sv1) \<Rightarrow> (encode_content out, sv1))"

definition write_tool ::
  "'d transport \<Rightarrow> pystr \<Rightarrow> pystr \<Rightarrow> pystr \<Rightarrow> pystr \<Rightarrow> 'd server \<Rightarrow> envelope \<times> 'd server" where
  "write_tool dav inst path content prin sv =
     (case b64_decode content of
        None \<Rightarrow> (error_envelope (lit ''content must be base64''), sv)
      | Some data \<Rightarrow> layer_op dav (Write_req inst (PStr path) data (Some prin)) sv)"

definition checkout_tool ::
  "'d transport \<Rightarrow> pystr \<Rightarrow> pystr \<Rightarrow> int \<Rightarrow> pystr \<Rightarrow> 'd server \<Rightarrow> envelope \<times> 'd server" where
  "checkout_tool dav inst path timeout prin sv =
     (case layer_op dav (Checkout_req inst (PStr path) timeout (Some prin)) sv of
        (out, sv1) \<Rightarrow> (encode_content out, sv1))"

definition checkin_tool ::
  "'d transport \<Rightarrow> pystr \<Rightarrow> pystr \<Rightarrow> pystr \<Rightarrow> pystr \<Rightarrow> pystr \<Rightarrow> 'd server \<Rightarrow> envelope \<times> 'd server" where
  "checkin_tool dav inst path content lock_token prin sv =
     (if lock_token = [] then (error_envelope (lit ''lock_token is required for checkin''), sv)
      else (case b64_decode content of
              None \<Rightarrow> (error_envelope (lit ''content must be base64''), sv)
            | Some data \<Rightarrow> layer_op dav (Checkin_req inst (PStr path) data lock_token (Some prin)) sv))"

section \<open>The surfaces\<close>

definition AGENT_TOOLS :: "pystr list" where
  "AGENT_TOOLS = [lit ''request_access'', lit ''check_access'', lit ''list_instances'', lit ''list'',
     lit ''move'', lit ''trash'', lit ''mkdir'']"

definition TRANSFER_TOOLS :: "pystr list" where
  "TRANSFER_TOOLS = [lit ''check_access'', lit ''read'', lit ''write'', lit ''checkout'', lit ''checkin'']"

text \<open>The calls of the tools, as \<open>build_app\<close> defines them in this order.\<close>

datatype tool_call =
    Request_access_call pystr pystr "(pystr \<times> pyval) list list"
  | Check_access_call pystr
  | List_instances_call
  | List_call pystr pystr
  | Read_call pystr pystr
  | Write_call pystr pystr pystr
  | Move_call pystr pystr pystr
  | Trash_call pystr pystr
  | Mkdir_call pystr pystr
  | Checkout_call pystr pystr int
  | Checkin_call pystr pystr pystr pystr

fun tool_name :: "tool_call \<Rightarrow> pystr" where
  "tool_name (Request_access_call _ _ _) = lit ''request_access''"
| "tool_name (Check_access_call _) = lit ''check_access''"
| "tool_name List_instances_call = lit ''list_instances''"
| "tool_name (List_call _ _) = lit ''list''"
| "tool_name (Read_call _ _) = lit ''read''"
| "tool_name (Write_call _ _ _) = lit ''write''"
| "tool_name (Move_call _ _ _) = lit ''move''"
| "tool_name (Trash_call _ _) = lit ''trash''"
| "tool_name (Mkdir_call _ _) = lit ''mkdir''"
| "tool_name (Checkout_call _ _ _) = lit ''checkout''"
| "tool_name (Checkin_call _ _ _ _) = lit ''checkin''"

text \<open>The tool that a call reaches, with the principal of the surface.\<close>

fun run_tool :: "'d transport \<Rightarrow> pystr \<Rightarrow> tool_call \<Rightarrow> 'd server \<Rightarrow> (bot_error + envelope) \<times> 'd server" where
  "run_tool dav prin (Request_access_call i r its) sv = request_access i r its sv"
| "run_tool dav prin (Check_access_call i) sv = check_tool i sv"
| "run_tool dav prin List_instances_call sv = (Inr (list_instances sv), sv)"
| "run_tool dav prin (List_call i p) sv = map_prod Inr id (layer_op dav (List_req i (PStr p)) sv)"
| "run_tool dav prin (Read_call i p) sv = map_prod Inr id (read_tool dav i p prin sv)"
| "run_tool dav prin (Write_call i p c) sv = map_prod Inr id (write_tool dav i p c prin sv)"
| "run_tool dav prin (Move_call i p q) sv = map_prod Inr id (layer_op dav (Move_req i (PStr p) (PStr q)) sv)"
| "run_tool dav prin (Trash_call i p) sv = map_prod Inr id (layer_op dav (Trash_req i (PStr p)) sv)"
| "run_tool dav prin (Mkdir_call i p) sv = map_prod Inr id (layer_op dav (Mkdir_req i (PStr p)) sv)"
| "run_tool dav prin (Checkout_call i p t) sv = map_prod Inr id (checkout_tool dav i p t prin sv)"
| "run_tool dav prin (Checkin_call i p c t) sv = map_prod Inr id (checkin_tool dav i p c t prin sv)"

definition ALL_TOOLS :: "pystr list" where
  "ALL_TOOLS = [lit ''request_access'', lit ''check_access'', lit ''list_instances'', lit ''list'', lit ''read'',
     lit ''write'', lit ''move'', lit ''trash'', lit ''mkdir'', lit ''checkout'', lit ''checkin'']"

record surface =
  sf_principal :: pystr
  sf_tools :: "pystr list"

definition build_app :: "pystr option \<Rightarrow> pystr list \<Rightarrow> pystr + surface" where
  "build_app bind_host tools =
     (case validate_bind_host bind_host of
        Some e \<Rightarrow> Inl e
      | None \<Rightarrow>
          Inr \<lparr>sf_principal = (if set tools = set TRANSFER_TOOLS then lit ''transfer'' else lit ''agent''),
            sf_tools = filter (\<lambda>n. n \<in> set tools) ALL_TOOLS\<rparr>)"

text \<open>A call on a surface; None when no tool of that name is registered, which the library
  answers.\<close>

definition call_tool ::
  "'d transport \<Rightarrow> surface \<Rightarrow> tool_call \<Rightarrow> 'd server \<Rightarrow> ((bot_error + envelope) \<times> 'd server) option" where
  "call_tool dav sf call sv =
     (if tool_name call \<in> set (sf_tools sf) then Some (run_tool dav (sf_principal sf) call sv) else None)"

end
