(* ===== verification/Config.thy ===== *)
theory Config
  imports Py_Json Py_Regex Nextcloud
begin

text \<open>
  The configuration, \<open>broker/config.py\<close>: the sections of \<open>Config\<close> in the order its constructor
  validates them, with every error. The YAML reader is not modelled: the constructor starts from
  the value it returned, a dictionary whose keys are strings. The environment is two maps, the
  one given and \<open>os.environ\<close>. \<open>repr\<close> of a value and \<open>str\<close> of a value that is no string are the
  parameter \<open>rp\<close>; whether a character beyond ASCII is alphanumeric is the parameter \<open>wd\<close>.
\<close>

section \<open>Patterns\<close>

text \<open>\<open>[\w.-]\<close>.\<close>

definition id_char :: "(cp \<Rightarrow> bool) \<Rightarrow> cp \<Rightarrow> bool" where
  "id_char wd c \<longleftrightarrow> 48 \<le> c \<and> c \<le> 57 \<or> 65 \<le> c \<and> c \<le> 90 \<or> 97 \<le> c \<and> c \<le> 122
     \<or> c = 95 \<or> c = 46 \<or> c = 45 \<or> 128 \<le> c \<and> wd c"

definition matrix_id_re :: "(cp \<Rightarrow> bool) \<Rightarrow> cp \<Rightarrow> re" where
  "matrix_id_re wd sigil = Seq (chr_re sigil) (Seq (Rep True 1 None (id_char wd))
     (Seq (chr_re 58) (Seq (Rep True 1 None (id_char wd)) Eos)))"

definition ROOM_ID_RE :: "(cp \<Rightarrow> bool) \<Rightarrow> re" where
  "ROOM_ID_RE wd = matrix_id_re wd 33"

definition USER_ID_RE :: "(cp \<Rightarrow> bool) \<Rightarrow> re" where
  "USER_ID_RE wd = matrix_id_re wd 64"

section \<open>Values and errors\<close>

text \<open>\<open>ConfigError\<close>, or the \<open>AttributeError\<close> or \<open>TypeError\<close> of a value of another type.\<close>

datatype config_error = Config_error pystr | Type_problem

definition therefore :: "config_error + 'a \<Rightarrow> ('a \<Rightarrow> config_error + 'b) \<Rightarrow> config_error + 'b" where
  "therefore x f = (case x of Inl e \<Rightarrow> Inl e | Inr a \<Rightarrow> f a)"

record context_params =
  env :: "pystr \<Rightarrow> pystr option"
  os_environ :: "pystr \<Rightarrow> pystr option"
  rp :: "pyval \<Rightarrow> pystr"
  wd :: "cp \<Rightarrow> bool"

text \<open>\<open>raw.get(section, {})\<close> and \<open>value.get(key, dflt)\<close>.\<close>

definition section_of :: "(pystr \<times> pyval) list \<Rightarrow> pystr \<Rightarrow> pyval" where
  "section_of raw s = (case map_of raw s of None \<Rightarrow> PDict [] | Some v \<Rightarrow> v)"

definition get_or :: "pyval \<Rightarrow> pystr \<Rightarrow> pyval \<Rightarrow> config_error + pyval" where
  "get_or v key dflt =
     (case v of PDict d \<Rightarrow> Inr (case map_of d key of None \<Rightarrow> dflt | Some x \<Rightarrow> x) | _ \<Rightarrow> Inl Type_problem)"

definition str_of :: "context_params \<Rightarrow> pyval \<Rightarrow> pystr" where
  "str_of cx v = (case v of PStr s \<Rightarrow> s | _ \<Rightarrow> rp cx v)"

text \<open>\<open>env.get(name) or os.environ.get(name)\<close>, when it is true; a name that is no string is a
  \<open>TypeError\<close>.\<close>

definition env_value :: "context_params \<Rightarrow> pyval \<Rightarrow> config_error + pystr option" where
  "env_value cx name =
     (case name of
        PStr n \<Rightarrow>
          Inr (case env cx n of
                 Some v \<Rightarrow> if v \<noteq> [] then Some v
                   else (case os_environ cx n of Some u \<Rightarrow> if u \<noteq> [] then Some u else None | None \<Rightarrow> None)
               | None \<Rightarrow> (case os_environ cx n of Some u \<Rightarrow> if u \<noteq> [] then Some u else None | None \<Rightarrow> None))
      | _ \<Rightarrow> Inl Type_problem)"

definition not_set :: "context_params \<Rightarrow> pyval \<Rightarrow> pystr \<Rightarrow> config_error" where
  "not_set cx name what = Config_error (lit ''environment variable '' @ str_of cx name @ lit '' (''
     @ what @ lit '') is not set'')"

text \<open>\<open>_secret\<close>.\<close>

definition secret :: "context_params \<Rightarrow> pyval \<Rightarrow> pystr \<Rightarrow> pystr \<Rightarrow> pystr \<Rightarrow> pystr \<Rightarrow> config_error + pystr" where
  "secret cx block direct_key env_key what default_env =
     therefore (get_or block direct_key PNone) (\<lambda>direct.
       if truthy direct then Inr (str_of cx direct)
       else therefore (get_or block env_key PNone) (\<lambda>given.
         let env_name = (if truthy given then given else PStr default_env)
         in if \<not> truthy env_name
            then Inl (Config_error (lit ''missing '' @ what @ lit '': provide '' @ direct_key @ lit '' or '' @ env_key))
            else therefore (env_value cx env_name) (\<lambda>value.
                   case value of None \<Rightarrow> Inl (not_set cx env_name what) | Some v \<Rightarrow> Inr v)))"

definition resolve_env :: "context_params \<Rightarrow> pyval \<Rightarrow> pystr \<Rightarrow> config_error + pystr" where
  "resolve_env cx name what =
     (if \<not> truthy name then Inl (Config_error (lit ''missing env var name for '' @ what))
      else therefore (env_value cx name) (\<lambda>value.
             case value of None \<Rightarrow> Inl (not_set cx name what) | Some v \<Rightarrow> Inr v))"

text \<open>\<open>_require\<close>.\<close>

definition require :: "(pystr \<times> pyval) list \<Rightarrow> pystr \<Rightarrow> pystr \<Rightarrow> config_error + pyval" where
  "require raw sec key =
     therefore (get_or (section_of raw sec) key PNone) (\<lambda>value.
       if value = PNone \<or> value = PStr []
       then Inl (Config_error (lit ''missing required config: '' @ sec @ lit ''.'' @ key))
       else Inr value)"

section \<open>The sections\<close>

record matrix_config =
  mx_homeserver :: pyval
  mx_bot_user :: pystr
  mx_bot_token :: pystr
  mx_room_id :: pystr
  mx_approver :: pystr

text \<open>\<open>pattern.match(value)\<close>: a \<open>TypeError\<close> for a value that is no string.\<close>

definition match_id :: "re \<Rightarrow> pyval \<Rightarrow> config_error \<Rightarrow> config_error + pystr" where
  "match_id pattern v e =
     (case v of PStr s \<Rightarrow> if re_match pattern s = None then Inl e else Inr s | _ \<Rightarrow> Inl Type_problem)"

definition matrix_section :: "context_params \<Rightarrow> (pystr \<times> pyval) list \<Rightarrow> config_error + matrix_config" where
  "matrix_section cx raw =
     therefore (require raw (lit ''matrix'') (lit ''homeserver'')) (\<lambda>homeserver.
     therefore (require raw (lit ''matrix'') (lit ''bot_user'')) (\<lambda>bot_user.
     therefore (require raw (lit ''matrix'') (lit ''room_id'')) (\<lambda>room_id.
     therefore (require raw (lit ''matrix'') (lit ''approver'')) (\<lambda>approver.
     therefore (secret cx (section_of raw (lit ''matrix'')) (lit ''bot_token'') (lit ''bot_token_env'')
       (lit ''matrix bot token'') (lit ''BROKER_MATRIX_TOKEN'')) (\<lambda>bot_token.
     therefore (match_id (USER_ID_RE (wd cx)) bot_user
       (Config_error (lit ''bot_user is not a valid Matrix user id: '' @ rp cx bot_user))) (\<lambda>bot.
     therefore (match_id (USER_ID_RE (wd cx)) approver
       (Config_error (lit ''approver is not a valid Matrix user id: '' @ rp cx approver))) (\<lambda>appr.
     therefore (match_id (ROOM_ID_RE (wd cx)) room_id
       (Config_error (lit ''room_id is not a valid Matrix room id: '' @ rp cx room_id))) (\<lambda>room.
     if bot = appr then Inl (Config_error (lit ''approver and bot_user must differ''))
     else Inr \<lparr>mx_homeserver = homeserver, mx_bot_user = bot, mx_bot_token = bot_token,
            mx_room_id = room, mx_approver = appr\<rparr>))))))))"

record agent_config =
  ag_token :: pystr
  ag_transfer_token :: pystr

definition agent_section :: "context_params \<Rightarrow> (pystr \<times> pyval) list \<Rightarrow> config_error + agent_config" where
  "agent_section cx raw =
     (let block = section_of raw (lit ''agent'')
      in therefore (secret cx block (lit ''token'') (lit ''token_env'') (lit ''agent token'')
           (lit ''BROKER_AGENT_TOKEN'')) (\<lambda>token.
         if length token < 32 then Inl (Config_error (lit ''agent token must be at least 32 characters''))
         else therefore (secret cx block (lit ''transfer_token'') (lit ''transfer_token_env'')
           (lit ''transfer token'') (lit ''BROKER_TRANSFER_TOKEN'')) (\<lambda>transfer_token.
         if length transfer_token < 32
         then Inl (Config_error (lit ''transfer token must be at least 32 characters''))
         else if token = transfer_token
         then Inl (Config_error (lit ''agent token and transfer token must differ '' @ [8212]
                @ lit '' identical tokens would collapse the D5 content-tool separation''))
         else Inr \<lparr>ag_token = token, ag_transfer_token = transfer_token\<rparr>)))"

record server_config =
  sc_port :: int
  sc_bind_host :: "pyval option"

text \<open>\<open>isinstance(v, int)\<close>: a \<open>bool\<close> is an \<open>int\<close>.\<close>

definition int_of :: "pyval \<Rightarrow> int option" where
  "int_of v = (case v of PInt i \<Rightarrow> Some i | PBool b \<Rightarrow> Some (if b then 1 else 0) | _ \<Rightarrow> None)"

definition server_section :: "context_params \<Rightarrow> (pystr \<times> pyval) list \<Rightarrow> config_error + server_config" where
  "server_section cx raw =
     therefore (require raw (lit ''server'') (lit ''port'')) (\<lambda>port.
       case int_of port of
         None \<Rightarrow> Inl (Config_error (lit ''server.port must be an int in 1-65535, got '' @ rp cx port))
       | Some p \<Rightarrow>
           if \<not> (1 \<le> p \<and> p \<le> 65535)
           then Inl (Config_error (lit ''server.port must be an int in 1-65535, got '' @ rp cx port))
           else therefore (get_or (section_of raw (lit ''server'')) (lit ''bind_host'') PNone) (\<lambda>host.
             let bind_host = (if truthy host then Some host else None)
             in if bind_host = Some (PStr (lit ''0.0.0.0'')) \<or> bind_host = Some (PStr (lit ''::''))
                then Inl (Config_error (lit ''refusing wildcard bind_host: exposure is decided by the host ''
                       @ lit ''(docker-compose), never by the application (design doc 3.7)''))
                else Inr \<lparr>sc_port = p, sc_bind_host = bind_host\<rparr>))"

text \<open>\<open>isinstance(v, (int, float)) and not v <= 0\<close>. A float is kept as its \<open>repr\<close>; not a number
  is not at most zero.\<close>

definition positive_number :: "pyval \<Rightarrow> bool" where
  "positive_number v =
     (case v of
        PInt i \<Rightarrow> 0 < i
      | PBool b \<Rightarrow> b
      | PFloat t \<Rightarrow> t \<noteq> lit ''0.0'' \<and> \<not> py_startswith t [45]
      | _ \<Rightarrow> False)"

record lifecycle_config =
  lc_pending_timeout_hours :: pyval
  lc_default_grant_hours :: pyval

definition lifecycle_section :: "(pystr \<times> pyval) list \<Rightarrow> config_error + lifecycle_config" where
  "lifecycle_section raw =
     (let lc = section_of raw (lit ''lifecycle'')
      in therefore (get_or lc (lit ''pending_timeout_hours'') (PInt 12)) (\<lambda>pending.
         therefore (get_or lc (lit ''default_grant_hours'') (PInt 24)) (\<lambda>dflt.
         if \<not> positive_number pending
         then Inl (Config_error (lit ''lifecycle.pending_timeout_hours must be positive''))
         else if \<not> positive_number dflt
         then Inl (Config_error (lit ''lifecycle.default_grant_hours must be positive''))
         else Inr \<lparr>lc_pending_timeout_hours = pending, lc_default_grant_hours = dflt\<rparr>)))"

definition logging_level :: "context_params \<Rightarrow> (pystr \<times> pyval) list \<Rightarrow> config_error + pystr" where
  "logging_level cx raw =
     therefore (get_or (section_of raw (lit ''logging'')) (lit ''level'') (PStr (lit ''info''))) (\<lambda>level.
       let l = py_lower (str_of cx level)
       in if l \<noteq> lit ''info'' \<and> l \<noteq> lit ''debug''
          then Inl (Config_error (lit ''logging.level must be info or debug, got '' @ rp cx level))
          else Inr l)"

definition audit_section :: "(pystr \<times> pyval) list \<Rightarrow> config_error + pyval" where
  "audit_section raw =
     therefore (get_or (section_of raw (lit ''audit'')) (lit ''path'') PNone) (\<lambda>path.
       if \<not> truthy path then Inl (Config_error (lit ''missing required config: audit.path'')) else Inr path)"

record instance_config =
  in_url :: pyval
  in_username :: pyval
  in_password :: pystr
  in_discovery :: bool

definition instance_block ::
  "context_params \<Rightarrow> pystr \<Rightarrow> pyval \<Rightarrow> config_error + instance_config" where
  "instance_block cx name block =
     therefore (get_or block (lit ''url'') PNone) (\<lambda>url.
     therefore (get_or block (lit ''username'') PNone) (\<lambda>username.
     if \<not> truthy url \<or> \<not> truthy username
     then Inl (Config_error (lit ''instance '' @ rp cx (PStr name) @ lit '' needs url and username''))
     else therefore (secret cx block (lit ''password'') (lit ''password_env'')
            (lit ''instance '' @ name @ lit '' app password'') []) (\<lambda>password.
          therefore (get_or block (lit ''discovery'') (PBool False)) (\<lambda>discovery.
          Inr \<lparr>in_url = url, in_username = username, in_password = password,
               in_discovery = truthy discovery\<rparr>))))"

fun instance_blocks ::
  "context_params \<Rightarrow> (pystr \<times> pyval) list \<Rightarrow> config_error + (pystr \<times> instance_config) list" where
  "instance_blocks cx [] = Inr []"
| "instance_blocks cx ((name, block) # rest) =
     therefore (instance_block cx name block) (\<lambda>i.
     therefore (instance_blocks cx rest) (\<lambda>is. Inr ((name, i) # is)))"

definition instances_section ::
  "context_params \<Rightarrow> (pystr \<times> pyval) list \<Rightarrow> config_error + (pystr \<times> instance_config) list" where
  "instances_section cx raw =
     (let instances = section_of raw (lit ''instances'')
      in if \<not> truthy instances then Inl (Config_error (lit ''no instances configured''))
         else (case instances of PDict d \<Rightarrow> instance_blocks cx d | _ \<Rightarrow> Inl Type_problem))"

record config =
  cf_matrix :: matrix_config
  cf_agent :: agent_config
  cf_server :: server_config
  cf_lifecycle :: lifecycle_config
  cf_audit_path :: pyval
  cf_instances :: "(pystr \<times> instance_config) list"
  cf_raw :: "(pystr \<times> pyval) list"

text \<open>\<open>Config.__init__\<close>.\<close>

definition make_config :: "context_params \<Rightarrow> (pystr \<times> pyval) list \<Rightarrow> config_error + config" where
  "make_config cx raw =
     therefore (matrix_section cx raw) (\<lambda>m.
     therefore (agent_section cx raw) (\<lambda>a.
     therefore (server_section cx raw) (\<lambda>s.
     therefore (lifecycle_section raw) (\<lambda>l.
     therefore (audit_section raw) (\<lambda>p.
     therefore (instances_section cx raw) (\<lambda>is.
     Inr \<lparr>cf_matrix = m, cf_agent = a, cf_server = s, cf_lifecycle = l, cf_audit_path = p,
          cf_instances = is, cf_raw = raw\<rparr>))))))"

text \<open>\<open>load_config\<close>, from what the YAML reader returned.\<close>

definition load_config :: "context_params \<Rightarrow> pystr \<Rightarrow> pyval \<Rightarrow> config_error + config" where
  "load_config cx path raw =
     (case raw of
        PDict d \<Rightarrow> make_config cx d
      | _ \<Rightarrow> Inl (Config_error (path @ lit '' is not a config mapping'')))"

section \<open>What an accepted configuration satisfies\<close>

lemma therefore_Inr: "therefore x f = Inr b \<longleftrightarrow> (\<exists>a. x = Inr a \<and> f a = Inr b)"
  by (cases x) (simp_all add: therefore_def)

lemmas section_defs = matrix_section_def agent_section_def server_section_def lifecycle_section_def
  audit_section_def instances_section_def

text \<open>A Matrix identifier: the sigil and two names around a colon, and perhaps a line break.\<close>

definition matrix_id :: "(cp \<Rightarrow> bool) \<Rightarrow> cp \<Rightarrow> pystr \<Rightarrow> bool" where
  "matrix_id w sigil s \<longleftrightarrow> (\<exists>a b. s \<in> {sigil # a @ 58 # b, sigil # a @ 58 # b @ [10]} \<and> a \<noteq> [] \<and> b \<noteq> []
     \<and> (\<forall>c \<in> set a \<union> set b. id_char w c))"

lemma rep_all:
  "(s', c') \<in> set (re_all (Rep True 1 None p) s c) \<Longrightarrow> \<exists>u. u \<noteq> [] \<and> s = u @ s' \<and> (\<forall>x \<in> set u. p x)"
proof -
  assume "(s', c') \<in> set (re_all (Rep True 1 None p) s c)"
  then obtain n where n: "n \<le> length (takeWhile p s)" "1 \<le> n" "s' = drop n s"
    using rep_counts_mem by fastforce
  have "take n s = take n (takeWhile p s)"
    using n(1) by (metis takeWhile_eq_take take_take min.absorb1)
  then have "\<forall>x \<in> set (take n s). p x" by (metis in_set_takeD set_takeWhileD)
  moreover have "take n s \<noteq> []" using n by (cases s) auto
  moreover have "s = take n s @ s'" using n by simp
  ultimately show ?thesis by blast
qed

lemma match_matrix_id: "re_match (matrix_id_re w sigil) s \<noteq> None \<Longrightarrow> matrix_id w sigil s"
proof -
  assume "re_match (matrix_id_re w sigil) s \<noteq> None"
  then obtain m where "m \<in> set (re_all (matrix_id_re w sigil) s [])"
    by (cases "re_all (matrix_id_re w sigil) s []") (auto simp: re_match_def)
  then have "\<exists>s1 s3 s4 c2 c4. s = sigil # s1 \<and> (58 # s3, c2) \<in> set (re_all (Rep True 1 None (id_char w)) s1 [])
      \<and> (s4, c4) \<in> set (re_all (Rep True 1 None (id_char w)) s3 c2) \<and> (s4 = [] \<or> s4 = [10])"
    by (fastforce simp: matrix_id_re_def chr_re_def simp del: re_all.simps(3) split: list.splits if_splits)
  then obtain s1 s3 s4 c2 c4 where parts: "s = sigil # s1"
      "(58 # s3, c2) \<in> set (re_all (Rep True 1 None (id_char w)) s1 [])"
      "(s4, c4) \<in> set (re_all (Rep True 1 None (id_char w)) s3 c2)" "s4 = [] \<or> s4 = [10]"
    by blast
  obtain a where a: "a \<noteq> []" "s1 = a @ 58 # s3" "\<forall>x \<in> set a. id_char w x" using rep_all [OF parts(2)] by blast
  obtain b where b: "b \<noteq> []" "s3 = b @ s4" "\<forall>x \<in> set b. id_char w x" using rep_all [OF parts(3)] by blast
  show ?thesis
    unfolding matrix_id_def using parts(1,4) a b by (intro exI [of _ a] exI [of _ b]) auto
qed

lemma matrix_section_ok:
  assumes "matrix_section cx raw = Inr m"
  shows "mx_approver m \<noteq> mx_bot_user m \<and> matrix_id (wd cx) 64 (mx_approver m)
    \<and> matrix_id (wd cx) 64 (mx_bot_user m) \<and> matrix_id (wd cx) 33 (mx_room_id m)"
proof -
  have id: "matrix_id (wd cx) sigil s" if "match_id (matrix_id_re (wd cx) sigil) v e = Inr s" for sigil v e s
    using that match_matrix_id [of "wd cx" sigil s]
    by (auto simp: match_id_def split: pyval.splits if_splits)
  show ?thesis
    using assms
    by (auto simp: matrix_section_def therefore_Inr USER_ID_RE_def ROOM_ID_RE_def split: if_splits dest!: id)
qed

lemma server_section_ok:
  assumes "server_section cx raw = Inr s"
  shows "1 \<le> sc_port s \<and> sc_port s \<le> 65535
    \<and> sc_bind_host s \<notin> {Some (PStr (lit ''0.0.0.0'')), Some (PStr (lit ''::'')), Some (PStr [])}"
proof -
  obtain port where 1: "(case int_of port of
         None \<Rightarrow> Inl (Config_error (lit ''server.port must be an int in 1-65535, got '' @ rp cx port))
       | Some p \<Rightarrow>
           if \<not> (1 \<le> p \<and> p \<le> 65535)
           then Inl (Config_error (lit ''server.port must be an int in 1-65535, got '' @ rp cx port))
           else therefore (get_or (section_of raw (lit ''server'')) (lit ''bind_host'') PNone) (\<lambda>host.
             let bind_host = (if truthy host then Some host else None)
             in if bind_host = Some (PStr (lit ''0.0.0.0'')) \<or> bind_host = Some (PStr (lit ''::''))
                then Inl (Config_error (lit ''refusing wildcard bind_host: exposure is decided by the host ''
                       @ lit ''(docker-compose), never by the application (design doc 3.7)''))
                else Inr \<lparr>sc_port = p, sc_bind_host = bind_host\<rparr>)) = Inr s"
    using assms unfolding server_section_def therefore_Inr by blast
  then obtain p where p: "int_of port = Some p" by (cases "int_of port") auto
  have bounds: "1 \<le> p" "p \<le> 65535" using 1 by (auto simp: p split: if_split_asm)
  obtain host where host: "(if (if truthy host then Some host else None) = Some (PStr (lit ''0.0.0.0''))
         \<or> (if truthy host then Some host else None) = Some (PStr (lit ''::''))
       then Inl (Config_error (lit ''refusing wildcard bind_host: exposure is decided by the host ''
                       @ lit ''(docker-compose), never by the application (design doc 3.7)''))
       else Inr \<lparr>sc_port = p, sc_bind_host = (if truthy host then Some host else None)\<rparr>) = Inr s"
    using 1 bounds by (auto simp: p therefore_Inr Let_def)
  then show ?thesis using bounds by (cases "truthy host") (auto split: if_split_asm)
qed

lemma instance_block_ok:
  "instance_block cx name block = Inr i \<Longrightarrow> truthy (in_url i) \<and> truthy (in_username i)"
  by (auto simp: instance_block_def therefore_Inr split: if_splits)

lemma instance_blocks_ok:
  "instance_blocks cx d = Inr is \<Longrightarrow> map fst is = map fst d
     \<and> (\<forall>i \<in> snd ` set is. truthy (in_url i) \<and> truthy (in_username i))"
proof (induction cx d arbitrary: "is" rule: instance_blocks.induct)
  case (2 cx name block rest)
  then obtain i js where "instance_block cx name block = Inr i" "instance_blocks cx rest = Inr js"
      "is = (name, i) # js"
    by (auto simp: therefore_Inr)
  with 2 instance_block_ok [of cx name block i] show ?case by simp
qed simp

lemma instances_section_ok:
  assumes "instances_section cx raw = Inr is"
  shows "is \<noteq> [] \<and> (\<forall>i \<in> snd ` set is. truthy (in_url i) \<and> truthy (in_username i))"
proof -
  obtain d where "d \<noteq> []" "instance_blocks cx d = Inr is"
    using assms by (auto simp: instances_section_def Let_def split: if_splits pyval.splits)
  with instance_blocks_ok [OF this(2)] show ?thesis by (metis list.map_disc_iff)
qed


section \<open>An example\<close>

definition example_raw :: "(pystr \<times> pyval) list" where
  "example_raw =
     [(lit ''matrix'', PDict [(lit ''homeserver'', PStr (lit ''h'')), (lit ''bot_user'', PStr (lit ''@b:x'')),
        (lit ''room_id'', PStr (lit ''!r:x'')), (lit ''approver'', PStr (lit ''@a:x'')),
        (lit ''bot_token'', PStr (lit ''t''))]),
      (lit ''agent'', PDict [(lit ''token'', PStr (replicate 32 97)), (lit ''transfer_token_env'', PStr (lit ''T''))]),
      (lit ''server'', PDict [(lit ''port'', PInt 8765)]),
      (lit ''audit'', PDict [(lit ''path'', PStr (lit ''/data/audit.jsonl''))]),
      (lit ''instances'', PDict [(lit ''home'', PDict [(lit ''url'', PStr (lit ''https://cloud'')),
         (lit ''username'', PStr (lit ''ann'')), (lit ''password'', PStr (lit ''hunter2''))])])]"

definition example_context :: context_params where
  "example_context = \<lparr>env = (\<lambda>n. if n = lit ''T'' then Some (replicate 32 98) else None),
     os_environ = (\<lambda>_. None), rp = (\<lambda>_. []), wd = (\<lambda>_. False)\<rparr>"

lemma example_config_accepted: "\<exists>cfg. load_config example_context (lit ''config.yaml'') (PDict example_raw) = Inr cfg"
  by (simp add: load_config_def make_config_def therefore_def section_defs example_raw_def example_context_def
      require_def secret_def get_or_def section_of_def env_value_def match_id_def re_match_def USER_ID_RE_def
      ROOM_ID_RE_def matrix_id_re_def chr_re_def rep_counts_def id_char_def int_of_def positive_number_def
      instance_block_def str_of_def Let_def lit_def)


end
