(* ===== verification/Logging_Setup.thy ===== *)
theory Logging_Setup
  imports Server_Properties
begin

text \<open>
  The process log, \<open>broker/logging_setup.py\<close>: the filter that scrubs secrets from a record, the
  configuration of the logger \<open>broker\<close>, and, of the \<open>logging\<close> package of the standard library,
  what decides whether the filter sees a record: a logger applies its filters to the records
  logged on it, and passes them to the handlers of its ancestors without applying theirs.

  A record is the text that \<open>getMessage\<close> renders (None when it raises) and the traceback, as text
  (or None when formatting it raises).
\<close>

record log_record =
  lr_message :: "pystr option"
  lr_exc :: "pystr option option"

section \<open>The filter\<close>

fun scrub_values :: "pystr list \<Rightarrow> pystr \<Rightarrow> pystr" where
  "scrub_values [] message = message"
| "scrub_values (s # ss) message =
     scrub_values ss (if py_in s message then py_replace s (lit ''[redacted]'') message else message)"

definition new_filter :: "pystr list \<Rightarrow> pystr list" where
  "new_filter secrets = filter (\<lambda>s. s \<noteq> []) secrets"

text \<open>\<open>clean[-2000:]\<close>.\<close>

definition last_2000 :: "pystr \<Rightarrow> pystr" where
  "last_2000 s = drop (length s - 2000) s"

definition scrub_record :: "pystr list \<Rightarrow> log_record \<Rightarrow> log_record" where
  "scrub_record secrets rec =
     (case lr_message rec of
        None \<Rightarrow> rec
      | Some message \<Rightarrow>
          (let scrubbed = scrub_values secrets message
           in case lr_exc rec of
                None \<Rightarrow> rec\<lparr>lr_message := Some scrubbed\<rparr>
              | Some None \<Rightarrow> rec\<lparr>lr_message := Some (scrubbed @ lit '' | (exc-scrub-failed)'')\<rparr>
              | Some (Some trace) \<Rightarrow>
                  (let clean = scrub_values secrets trace
                   in if clean \<noteq> trace
                      then \<lparr>lr_message = Some (scrubbed @ lit '' | scrubbed-exc: '' @ last_2000 clean), lr_exc = None\<rparr>
                      else rec\<lparr>lr_message := Some scrubbed\<rparr>)))"

section \<open>Loggers\<close>

datatype log_filter = Scrub_filter "pystr list" | Other_filter

datatype log_level = Debug_level | Info_level

record logger =
  lg_level :: log_level
  lg_handlers :: nat
  lg_filters :: "log_filter list"
  lg_propagate :: bool

definition is_scrub :: "log_filter \<Rightarrow> bool" where
  "is_scrub f \<longleftrightarrow> (\<exists>ss. f = Scrub_filter ss)"

definition setup_logging :: "pystr \<Rightarrow> pystr list \<Rightarrow> logger \<Rightarrow> logger" where
  "setup_logging level secrets lg =
     \<lparr>lg_level = (if py_lower level = lit ''debug'' then Debug_level else Info_level),
      lg_handlers = (if lg_handlers lg = 0 then 1 else lg_handlers lg),
      lg_filters = filter (\<lambda>f. \<not> is_scrub f) (lg_filters lg) @ [Scrub_filter (new_filter secrets)],
      lg_propagate = False\<rparr>"

text \<open>\<open>Logger.filter\<close>: the filters in order; the filters of this program never drop a record.\<close>

definition apply_filter :: "log_filter \<Rightarrow> log_record \<Rightarrow> log_record" where
  "apply_filter f rec = (case f of Scrub_filter ss \<Rightarrow> scrub_record ss rec | Other_filter \<Rightarrow> rec)"

definition apply_filters :: "log_filter list \<Rightarrow> log_record \<Rightarrow> log_record" where
  "apply_filters fs rec = fold apply_filter fs rec"

text \<open>The logger of a dotted name and its ancestors, the root last.\<close>

definition logger_chain :: "pystr \<Rightarrow> pystr list" where
  "logger_chain name = (let parts = split_on 46 name in map (\<lambda>k. join_on [46] (take k parts)) (rev [0 ..< Suc (length parts)]))"

text \<open>\<open>callHandlers\<close>: how many handlers take the record.\<close>

fun handlers_reached :: "(pystr \<Rightarrow> logger option) \<Rightarrow> pystr list \<Rightarrow> nat" where
  "handlers_reached tree [] = 0"
| "handlers_reached tree (n # ns) =
     (case tree n of
        None \<Rightarrow> handlers_reached tree ns
      | Some lg \<Rightarrow> lg_handlers lg + (if lg_propagate lg then handlers_reached tree ns else 0))"

text \<open>What a handler writes: the message and the traceback. When one cannot be formatted the
  record is lost.\<close>

definition written_lines :: "log_record \<Rightarrow> pystr list" where
  "written_lines rec =
     (case lr_message rec of
        None \<Rightarrow> []
      | Some message \<Rightarrow>
          (case lr_exc rec of
             None \<Rightarrow> [message]
           | Some None \<Rightarrow> []
           | Some (Some trace) \<Rightarrow> [message @ [10] @ trace]))"

text \<open>\<open>Logger.handle\<close>.\<close>

definition log_on :: "(pystr \<Rightarrow> logger option) \<Rightarrow> pystr \<Rightarrow> log_record \<Rightarrow> pystr list" where
  "log_on tree name rec =
     (let rec1 = (case tree name of None \<Rightarrow> rec | Some lg \<Rightarrow> apply_filters (lg_filters lg) rec)
      in concat (replicate (handlers_reached tree (logger_chain name)) (written_lines rec1)))"

section \<open>What the filter promises\<close>

text \<open>A secret that neither the marker nor the texts the filter puts around a traceback can form.\<close>

definition log_redactable :: "pystr \<Rightarrow> bool" where
  "log_redactable s \<longleftrightarrow> redactable s \<and> 10 \<notin> set s \<and> 32 \<notin> set s \<and> 124 \<notin> set s
     \<and> \<not> py_in s (lit ''scrubbed-exc:'') \<and> \<not> py_in s (lit ''(exc-scrub-failed)'')"

lemma scrub_values_keeps_out: "redactable p \<Longrightarrow> \<not> py_in p m \<Longrightarrow> \<not> py_in p (scrub_values ss m)"
  by (induction ss arbitrary: m) (auto simp: replace_keeps_out)

lemma scrub_values_removes: "s \<in> set ss \<Longrightarrow> redactable s \<Longrightarrow> \<not> py_in s (scrub_values ss m)"
proof (induction ss arbitrary: m)
  case (Cons x ss)
  show ?case
  proof (cases "s = x")
    case True
    then have x: "x = s" by simp
    have "\<not> py_in s (if py_in s m then py_replace s (lit ''[redacted]'') m else m)"
      using replace_removes [OF Cons.prems(2)] by simp
    from scrub_values_keeps_out [OF Cons.prems(2) this] show ?thesis unfolding x scrub_values.simps .
  next
    case False
    with Cons show ?thesis by simp
  qed
qed simp

lemma not_sublist_drop: "\<not> sublist p m \<Longrightarrow> \<not> sublist p (drop n m)"
  by (metis append_take_drop_id sublist_append_leftI sublist_order.order.trans)

lemma log_redactable_sep:
  assumes "log_redactable s"
  shows "py_in s (u @ [10] @ v) \<longleftrightarrow> py_in s u \<or> py_in s v"
    "py_in s (u @ lit '' | '' @ v) \<longleftrightarrow> py_in s u \<or> py_in s v"
    "py_in s (lit ''scrubbed-exc: '' @ v) \<longleftrightarrow> py_in s v"
proof -
  have no: "10 \<notin> set s" "32 \<notin> set s" "124 \<notin> set s" "s \<noteq> []" "\<not> py_in s (lit ''scrubbed-exc:'')"
    using assms by (auto simp: log_redactable_def redactable_def)
  show "py_in s (u @ [10] @ v) \<longleftrightarrow> py_in s u \<or> py_in s v"
    using sublist_sep [of 10 s u v] no by simp
  have "u @ lit '' | '' @ v = u @ 32 # [] @ 124 # [] @ 32 # v" by (simp add: lit_def)
  then show "py_in s (u @ lit '' | '' @ v) \<longleftrightarrow> py_in s u \<or> py_in s v"
    using sublist_sep [of 32 s u "[] @ 124 # [] @ 32 # v"] sublist_sep [of 124 s "[]" "[] @ 32 # v"]
      sublist_sep [of 32 s "[]" v] no by simp
  have "lit ''scrubbed-exc: '' @ v = lit ''scrubbed-exc:'' @ 32 # v" by (simp add: lit_def)
  then show "py_in s (lit ''scrubbed-exc: '' @ v) \<longleftrightarrow> py_in s v"
    using sublist_sep [of 32 s "lit ''scrubbed-exc:''" v] no by simp
qed

lemma scrubbed_line:
  assumes "s \<in> set secrets" "log_redactable s" "line \<in> set (written_lines (scrub_record secrets rec))"
  shows "\<not> py_in s line"
proof -
  have red: "redactable s" using assms(2) by (simp add: log_redactable_def)
  note out = scrub_values_removes [OF assms(1) red]
  show ?thesis
  proof (cases "lr_message rec")
    case (Some message)
    show ?thesis
    proof (cases "lr_exc rec")
      case None
      with Some assms(3) out show ?thesis by (simp add: scrub_record_def written_lines_def)
    next
      case exc: (Some t)
      show ?thesis
      proof (cases t)
        case None
        with Some exc assms(3) show ?thesis by (simp add: scrub_record_def written_lines_def)
      next
        case trace: (Some trace)
        show ?thesis
        proof (cases "scrub_values secrets trace = trace")
          case True
          then have "line = scrub_values secrets message @ [10] @ trace"
            using Some exc trace assms(3) by (simp add: scrub_record_def written_lines_def)
          moreover have "\<not> py_in s trace" using out [of trace] True by simp
          ultimately show ?thesis using log_redactable_sep(1) [OF assms(2)] out by simp
        next
          case False
          then have "line = scrub_values secrets message @ lit '' | '' @ lit ''scrubbed-exc: ''
              @ last_2000 (scrub_values secrets trace)"
            using Some exc trace assms(3) by (simp add: scrub_record_def written_lines_def Let_def lit_def)
          moreover have "\<not> py_in s (last_2000 (scrub_values secrets trace))"
            unfolding last_2000_def by (rule not_sublist_drop [OF out])
          ultimately show ?thesis
            using log_redactable_sep(2,3) [OF assms(2)] out by simp
        qed
      qed
    qed
  qed (use assms(3) in \<open>simp add: scrub_record_def written_lines_def\<close>)
qed


definition fresh_logger :: logger where
  "fresh_logger = \<lparr>lg_level = Info_level, lg_handlers = 0, lg_filters = [], lg_propagate = True\<rparr>"

definition example_tree :: "pystr \<Rightarrow> logger option" where
  "example_tree = (\<lambda>_. None)(lit ''broker'' \<mapsto> setup_logging (lit ''info'') [lit ''hunter2''] fresh_logger,
     lit ''broker.matrixbot'' \<mapsto> fresh_logger)"

lemma example_tree_simps:
  "example_tree (lit ''broker'') = Some (setup_logging (lit ''info'') [lit ''hunter2''] fresh_logger)"
  "example_tree (lit ''broker.matrixbot'') = Some fresh_logger"
  by (simp_all add: example_tree_def lit_def)

lemma example_log_lines:
  "log_on example_tree (lit ''broker'') \<lparr>lr_message = Some (lit ''login hunter2''), lr_exc = None\<rparr>
      = [lit ''login [redacted]'']"
  "log_on example_tree (lit ''broker.matrixbot'') \<lparr>lr_message = Some (lit ''login hunter2''), lr_exc = None\<rparr>
      = [lit ''login hunter2'']"
proof -
  have chain: "logger_chain (lit ''broker'') = [lit ''broker'', []]"
    "logger_chain (lit ''broker.matrixbot'') = [lit ''broker.matrixbot'', lit ''broker'', []]"
    by (simp_all add: logger_chain_def lit_def)
  have "scrub_values [lit ''hunter2''] (lit ''login hunter2'') = lit ''login [redacted]''" by code_simp
  moreover have "lit ''hunter2'' \<noteq> []" by (simp add: lit_def)
  ultimately show "log_on example_tree (lit ''broker'') \<lparr>lr_message = Some (lit ''login hunter2''), lr_exc = None\<rparr>
      = [lit ''login [redacted]'']"
    by (simp add: log_on_def chain example_tree_simps setup_logging_def fresh_logger_def apply_filters_def
        apply_filter_def scrub_record_def written_lines_def new_filter_def)
  show "log_on example_tree (lit ''broker.matrixbot'') \<lparr>lr_message = Some (lit ''login hunter2''), lr_exc = None\<rparr>
      = [lit ''login hunter2'']"
    by (simp add: log_on_def chain example_tree_simps setup_logging_def fresh_logger_def apply_filters_def
        written_lines_def)
qed

text \<open>The filter does not reach the loggers of the modules. A line that \<open>matrixbot.py\<close> logs on
  its logger \<open>broker.matrixbot\<close> is written by the handler of \<open>broker\<close>, whose filter it never
  passed, with the secret in it; the same line on \<open>broker\<close> is scrubbed.\<close>

lemma module_loggers_are_not_scrubbed:
  "log_on example_tree (lit ''broker.matrixbot'') \<lparr>lr_message = Some (lit ''login hunter2''), lr_exc = None\<rparr>
      = [lit ''login hunter2'']
    \<and> log_on example_tree (lit ''broker'') \<lparr>lr_message = Some (lit ''login hunter2''), lr_exc = None\<rparr>
      = [lit ''login [redacted]'']"
  by (simp add: example_log_lines)


end
