(* ===== verification/Webdav_Adapter.thy ===== *)
theory Webdav_Adapter
  imports Nextcloud
begin

text \<open>
  The WebDAV adapter, \<open>broker/webdav_adapter.py\<close>: the verbs of the layer in terms of the
  methods of \<open>webdav3.Client\<close>, and the mapping of its exceptions. The client is a third-party
  package and a parameter: a record with one field per method the adapter calls, each giving a
  value or an exception on a remote state of which nothing is assumed. What the adapter relies on
  is only the shape of the exceptions: \<open>NotFound\<close>, \<open>ResponseErrorCode\<close> with its attribute
  \<open>code\<close> and \<open>MethodNotSupported\<close>, none a subclass of another; any other exception is an
  \<open>OSError\<close> or not.
\<close>

section \<open>The client\<close>

datatype dav3_error =
    Not_found pystr
  | Response_error_code pyval pystr
  | Method_not_supported pystr
  | Os_raised pystr
  | Other_raised pystr

type_synonym ('d, 'a) dav3 = "'d \<Rightarrow> (dav3_error + 'a) \<times> 'd"

text \<open>\<open>execute_request\<close> takes the action, the quoted path, the extra headers (or none) and the
  body (or none), and returns the header \<open>Lock-Token\<close> of the response, if it has one;
  \<open>Urn(path).quote()\<close> and \<open>str\<close> of a value that is no string are parameters as well.\<close>

record 'd dav3_client =
  wd_list :: "pystr option \<Rightarrow> ('d, pyval list) dav3"
  wd_download_iter :: "pystr \<Rightarrow> ('d, nat list list) dav3"
  wd_upload_to :: "nat list \<Rightarrow> pystr \<Rightarrow> ('d, unit) dav3"
  wd_execute_request :: "pystr \<Rightarrow> pystr \<Rightarrow> pystr list option \<Rightarrow> nat list option \<Rightarrow> ('d, pystr option) dav3"
  wd_move :: "pystr \<Rightarrow> pystr \<Rightarrow> bool \<Rightarrow> ('d, unit) dav3"
  wd_check :: "pystr \<Rightarrow> ('d, bool) dav3"
  wd_mkdir :: "pystr \<Rightarrow> ('d, unit) dav3"
  wd_clean :: "pystr \<Rightarrow> ('d, unit) dav3"
  wd_quote :: "pystr \<Rightarrow> pystr"
  wd_str :: "pyval \<Rightarrow> pystr"

text \<open>\<open>_status_from\<close>: a \<open>bool\<close> is an \<open>int\<close>.\<close>

definition status_from :: "pyval \<Rightarrow> int" where
  "status_from code = (case code of PInt i \<Rightarrow> i | PBool b \<Rightarrow> (if b then 1 else 0) | _ \<Rightarrow> 500)"

text \<open>The \<open>except\<close> clauses of a verb: the message for \<open>NotFound\<close>, the one for
  \<open>ResponseErrorCode\<close>, and the one for \<open>MethodNotSupported\<close> where the verb catches it.\<close>

definition mapped_error :: "pystr \<Rightarrow> pystr \<Rightarrow> pystr option \<Rightarrow> dav3_error \<Rightarrow> dav_error" where
  "mapped_error missing failed unsupported e =
     (case e of
        Not_found _ \<Rightarrow> Http 404 missing
      | Response_error_code code _ \<Rightarrow> Http (status_from code) failed
      | Method_not_supported t \<Rightarrow> (case unsupported of None \<Rightarrow> Other_exception t | Some m \<Rightarrow> Http 405 m)
      | Os_raised t \<Rightarrow> Os_exception t
      | Other_raised t \<Rightarrow> Other_exception t)"

definition answer ::
  "(dav3_error \<Rightarrow> dav_error) \<Rightarrow> ('a \<Rightarrow> dav_error + reply) \<Rightarrow> (dav3_error + 'a) \<times> 'd \<Rightarrow> (dav_error + reply) \<times> 'd" where
  "answer on_error on_value x =
     (case x of (Inl e, d) \<Rightarrow> (Inl (on_error e), d) | (Inr a, d) \<Rightarrow> (on_value a, d))"

definition ok_reply :: reply where
  "ok_reply = Reply_dict [(lit ''ok'', Val (PBool True))]"

section \<open>Listings\<close>

text \<open>\<open>s.strip('/')\<close> and \<open>s.rstrip('/')\<close>.\<close>

definition rstrip_slash :: "pystr \<Rightarrow> pystr" where
  "rstrip_slash s = rev (dropWhile (\<lambda>c. c = 47) (rev s))"

definition strip_slash :: "pystr \<Rightarrow> pystr" where
  "strip_slash s = rstrip_slash (dropWhile (\<lambda>c. c = 47) s)"

definition self_reference_paths :: "pystr \<Rightarrow> pystr \<Rightarrow> pystr list" where
  "self_reference_paths username requested =
     (let norm = strip_slash requested;
          base = lit ''/files/'' @ username
      in if norm = [] then [base, lit ''/remote.php/dav'' @ base]
         else [base @ lit ''/'' @ norm, lit ''/remote.php/dav'' @ base @ lit ''/'' @ norm])"

text \<open>\<open>str(v or "")\<close>.\<close>

definition str_or_empty :: "(pyval \<Rightarrow> pystr) \<Rightarrow> pyval \<Rightarrow> pystr" where
  "str_or_empty str v = (if \<not> truthy v then [] else case v of PStr s \<Rightarrow> s | _ \<Rightarrow> str v)"

text \<open>\<open>_entry_name\<close>. A path that is no string has no \<open>rstrip\<close>: an \<open>AttributeError\<close>, given
  with its text. The name skipped is that of \<open>_self_root_name\<close>, the username.\<close>

definition entry_name :: "(pyval \<Rightarrow> pystr) \<Rightarrow> (pystr \<times> pyval) list \<Rightarrow> pystr \<Rightarrow> pystr + pystr option" where
  "entry_name str info username =
     (let named = (\<lambda>n. let name = strip_slash n in Inr (if name = [] \<or> name = username then None else Some name))
      in if truthy (dict_get info (lit ''name'')) then named (str_or_empty str (dict_get info (lit ''name'')))
         else if truthy (dict_get info (lit ''path''))
         then (case dict_get info (lit ''path'') of
                 PStr path \<Rightarrow> named (last (split_on 47 (rstrip_slash path)))
               | v \<Rightarrow> Inl ([39] @ type_name v @ [39] @ lit '' object has no attribute '' @ [39] @ lit ''rstrip'' @ [39]))
         else named [])"

definition entry_is_dir :: "(pyval \<Rightarrow> pystr) \<Rightarrow> (pystr \<times> pyval) list \<Rightarrow> bool" where
  "entry_is_dir str info =
     (case dict_get info (lit ''isdir'') of
        PBool b \<Rightarrow> b
      | _ \<Rightarrow> (case map_of info (lit ''is_dir'') of
               None \<Rightarrow> False
             | Some v \<Rightarrow> py_lower (case v of PStr s \<Rightarrow> s | _ \<Rightarrow> str v) = lit ''true''))"

definition entry :: "(pyval \<Rightarrow> pystr) \<Rightarrow> (pystr \<times> pyval) list \<Rightarrow> pystr \<Rightarrow> pyval" where
  "entry str info name =
     PDict [(lit ''name'', PStr name),
       (lit ''type'', PStr (if entry_is_dir str info then lit ''dir'' else lit ''file'')),
       (lit ''size'', dict_get info (lit ''size'')), (lit ''modified'', dict_get info (lit ''modified''))]"

text \<open>The loop over the rows of the listing.\<close>

fun entries :: "(pyval \<Rightarrow> pystr) \<Rightarrow> pystr \<Rightarrow> pystr list \<Rightarrow> pyval list \<Rightarrow> pystr + pyval list" where
  "entries str username self_paths [] = Inr []"
| "entries str username self_paths (x # infos) =
     (case x of
        PDict info \<Rightarrow>
          if rstrip_slash (str_or_empty str (dict_get info (lit ''path''))) \<in> set self_paths
          then entries str username self_paths infos
          else (case entry_name str info username of
                  Inl t \<Rightarrow> Inl t
                | Inr None \<Rightarrow> entries str username self_paths infos
                | Inr (Some name) \<Rightarrow>
                    map_sum id (\<lambda>es. entry str info name # es) (entries str username self_paths infos))
      | _ \<Rightarrow> entries str username self_paths infos)"

definition propfind_verb :: "'d dav3_client \<Rightarrow> pystr \<Rightarrow> pystr \<Rightarrow> 'd \<Rightarrow> (dav_error + reply) \<times> 'd" where
  "propfind_verb cl username path d =
     answer (mapped_error (lit ''Not Found'') (lit ''listing failed'') None)
       (\<lambda>infos. case entries (wd_str cl) username (self_reference_paths username path) infos of
          Inl t \<Rightarrow> Inl (Other_exception t)
        | Inr es \<Rightarrow> Inr (Reply_dict [(lit ''ok'', Val (PBool True)), (lit ''entries'', Val (PList es))]))
       (wd_list cl (if path = [] \<or> path = lit ''/'' then None else Some path) d)"

section \<open>Content\<close>

definition get_verb :: "'d dav3_client \<Rightarrow> pystr \<Rightarrow> 'd \<Rightarrow> (dav_error + reply) \<times> 'd" where
  "get_verb cl path d =
     answer (mapped_error (lit ''Not Found'') (lit ''download failed'') None)
       (\<lambda>chunks. Inr (Reply_dict [(lit ''ok'', Val (PBool True)), (lit ''content'', Bytes (concat chunks))]))
       (wd_download_iter cl path d)"

definition put_verb ::
  "'d dav3_client \<Rightarrow> pystr \<Rightarrow> nat list \<Rightarrow> pystr option \<Rightarrow> 'd \<Rightarrow> (dav_error + reply) \<times> 'd" where
  "put_verb cl path data lock_token d =
     (let on_error = mapped_error (lit ''Not Found (parent missing?)'') (lit ''upload failed'') None
      in case lock_token of
           Some token \<Rightarrow>
             if token \<noteq> []
             then answer on_error (\<lambda>_. Inr ok_reply)
                    (wd_execute_request cl (lit ''upload'') (wd_quote cl path)
                       (Some [lit ''If: (<'' @ token @ lit ''>)'']) (Some data) d)
             else answer on_error (\<lambda>_. Inr ok_reply) (wd_upload_to cl data path d)
         | None \<Rightarrow> answer on_error (\<lambda>_. Inr ok_reply) (wd_upload_to cl data path d))"

section \<open>The other verbs\<close>

definition move_verb :: "'d dav3_client \<Rightarrow> pystr \<Rightarrow> pystr \<Rightarrow> 'd \<Rightarrow> (dav_error + reply) \<times> 'd" where
  "move_verb cl src dst d =
     answer (mapped_error (lit ''Not Found'') (lit ''move failed'') None) (\<lambda>_. Inr ok_reply)
       (wd_move cl src dst False d)"

definition mkcol_error :: "dav3_error \<Rightarrow> dav_error" where
  "mkcol_error e =
     (case e of
        Response_error_code code _ \<Rightarrow>
          if status_from code = 405 then Http 405 (lit ''path already exists'')
          else Http (status_from code) (lit ''mkdir failed'')
      | _ \<Rightarrow> mapped_error (lit ''Not Found (parent missing?)'') [] (Some (lit ''path already exists'')) e)"

text \<open>An exception of \<open>check\<close> is not caught.\<close>

definition uncaught :: "dav3_error \<Rightarrow> dav_error" where
  "uncaught e =
     (case e of
        Not_found t \<Rightarrow> Other_exception t
      | Response_error_code _ t \<Rightarrow> Other_exception t
      | Method_not_supported t \<Rightarrow> Other_exception t
      | Os_raised t \<Rightarrow> Os_exception t
      | Other_raised t \<Rightarrow> Other_exception t)"

definition mkcol_verb :: "'d dav3_client \<Rightarrow> pystr \<Rightarrow> 'd \<Rightarrow> (dav_error + reply) \<times> 'd" where
  "mkcol_verb cl path d =
     (case wd_check cl path d of
        (Inl e, d1) \<Rightarrow> (Inl (uncaught e), d1)
      | (Inr True, d1) \<Rightarrow> (Inl (Http 405 (lit ''path already exists'')), d1)
      | (Inr False, d1) \<Rightarrow> answer mkcol_error (\<lambda>_. Inr ok_reply) (wd_mkdir cl path d1))"

definition delete_verb :: "'d dav3_client \<Rightarrow> pystr \<Rightarrow> 'd \<Rightarrow> (dav_error + reply) \<times> 'd" where
  "delete_verb cl path d =
     answer (mapped_error (lit ''Not Found'') (lit ''delete failed'') None) (\<lambda>_. Inr ok_reply)
       (wd_clean cl path d)"

section \<open>Locks\<close>

definition LOCK_BODY :: pystr where
  "LOCK_BODY = lit ''<D:lockinfo xmlns:D='' @ [39] @ lit ''DAV:'' @ [39]
     @ lit ''><D:lockscope><D:exclusive/></D:lockscope><D:locktype><D:write/></D:locktype></D:lockinfo>''"

text \<open>\<open>token.strip('<>')\<close>.\<close>

definition strip_angles :: "pystr \<Rightarrow> pystr" where
  "strip_angles s = (let angle = (\<lambda>c. c = 60 \<or> c = 62) in rev (dropWhile angle (rev (dropWhile angle s))))"

definition lock_verb :: "'d dav3_client \<Rightarrow> pystr \<Rightarrow> int \<Rightarrow> 'd \<Rightarrow> (dav_error + reply) \<times> 'd" where
  "lock_verb cl path timeout d =
     answer (mapped_error (lit ''Not Found'') (lit ''lock failed'')
               (Some (lit ''files_lock not enabled on this instance'')))
       (\<lambda>header.
          let token = strip_angles (case header of None \<Rightarrow> [] | Some h \<Rightarrow> h)
          in if token = [] then Inl (Http 500 (lit ''lock response carried no token''))
             else Inr (Reply_dict [(lit ''ok'', Val (PBool True)), (lit ''lock_token'', Val (PStr token))]))
       (wd_execute_request cl (lit ''lock'') (wd_quote cl path)
          (if 0 < timeout then Some [lit ''Timeout: Second-'' @ py_str_int timeout] else None)
          (Some LOCK_BODY) d)"

text \<open>The \<open>ValueError\<close> of a missing token is neither a \<open>WebDavError\<close> nor an \<open>OSError\<close>.\<close>

definition unlock_verb :: "'d dav3_client \<Rightarrow> pystr \<Rightarrow> pystr \<Rightarrow> 'd \<Rightarrow> (dav_error + reply) \<times> 'd" where
  "unlock_verb cl path lock_token d =
     (if lock_token = [] then (Inl (Other_exception (lit ''lock_token is required for unlock'')), d)
      else answer (mapped_error (lit ''Not Found'') (lit ''unlock failed'')
                     (Some (lit ''files_lock not enabled on this instance'')))
             (\<lambda>_. Inr ok_reply)
             (wd_execute_request cl (lit ''unlock'') (wd_quote cl path)
                (Some [lit ''Lock-Token: <'' @ lock_token @ lit ''>'', lit ''If: (<'' @ lock_token @ lit ''>)''])
                None d))"

section \<open>The adapter as the transport of the layer\<close>

text \<open>\<open>WebDavAdapter.__init__\<close>: what the client is configured with.\<close>

definition dav_options :: "pystr \<Rightarrow> pystr \<Rightarrow> pystr \<Rightarrow> (pystr \<times> pystr) list" where
  "dav_options url username password =
     [(lit ''webdav_hostname'', rstrip_slash url @ lit ''/remote.php/dav''),
      (lit ''webdav_login'', username), (lit ''webdav_password'', password),
      (lit ''root'', lit ''/files/'' @ username)]"

fun adapter :: "'d dav3_client \<Rightarrow> pystr \<Rightarrow> dav_call \<Rightarrow> 'd \<Rightarrow> (dav_error + reply) \<times> 'd" where
  "adapter cl username (Propfind p) d = propfind_verb cl username p d"
| "adapter cl username (Get p) d = get_verb cl p d"
| "adapter cl username (Put p data token) d = put_verb cl p data token d"
| "adapter cl username (Move p q) d = move_verb cl p q d"
| "adapter cl username (Delete p) d = delete_verb cl p d"
| "adapter cl username (Mkcol p) d = mkcol_verb cl p d"
| "adapter cl username (Lock p timeout) d = lock_verb cl p timeout d"
| "adapter cl username (Unlock p token) d = unlock_verb cl p token d"

text \<open>One adapter per client of the layer, each with its own \<open>webdav3\<close> client, made from its
  options.\<close>

definition adapters ::
  "((pystr \<times> pystr) list \<Rightarrow> 'd dav3_client) \<Rightarrow> (pystr \<times> client) list \<Rightarrow> 'd transport" where
  "adapters connect clients inst c d =
     (case map_of clients inst of
        None \<Rightarrow> (Inl (Other_exception (lit ''no such client'')), d)
      | Some cl \<Rightarrow> adapter (connect (dav_options (c_url cl) (c_username cl) (c_password cl))) (c_username cl) c d)"

end
