(* ===== verification/Adapter_Properties.thy ===== *)
theory Adapter_Properties
  imports Webdav_Adapter Server_Properties
begin

text \<open>
  What the adapter guarantees: the errors it raises are fixed texts, a listing shows the children
  of the folder and nothing else, and a checkout that succeeds hands out a token.
\<close>

section \<open>Errors\<close>

text \<open>The messages of the adapter, as the constructor of \<open>WebDavError\<close> keeps them.\<close>

definition ADAPTER_MESSAGES :: "pystr list" where
  "ADAPTER_MESSAGES =
     [lit ''Not Found'', lit ''Not Found (parent missing?)'', lit ''listing failed'', lit ''download failed'',
      lit ''upload failed'', lit ''move failed'', lit ''path already exists'', lit ''mkdir failed'',
      lit ''delete failed'', lit ''lock failed'', lit ''unlock failed'',
      lit ''files_lock not enabled on this instance'', lit ''lock response carried no [redacted]'']"

lemma sanitized_messages:
  "sanitize (lit ''Not Found'') = lit ''Not Found''"
  "sanitize (lit ''Not Found (parent missing?)'') = lit ''Not Found (parent missing?)''"
  "sanitize (lit ''listing failed'') = lit ''listing failed''"
  "sanitize (lit ''download failed'') = lit ''download failed''"
  "sanitize (lit ''upload failed'') = lit ''upload failed''"
  "sanitize (lit ''move failed'') = lit ''move failed''"
  "sanitize (lit ''path already exists'') = lit ''path already exists''"
  "sanitize (lit ''mkdir failed'') = lit ''mkdir failed''"
  "sanitize (lit ''delete failed'') = lit ''delete failed''"
  "sanitize (lit ''lock failed'') = lit ''lock failed''"
  "sanitize (lit ''unlock failed'') = lit ''unlock failed''"
  "sanitize (lit ''files_lock not enabled on this instance'') = lit ''files_lock not enabled on this instance''"
  "sanitize (lit ''lock response carried no token'') = lit ''lock response carried no [redacted]''"
  by code_simp+

lemma answer_Http:
  assumes "answer on_error on_value x = (Inl (Http st m), d')"
  shows "(\<exists>e. on_error e = Http st m) \<or> (\<exists>a. on_value a = Inl (Http st m))"
  using assms by (cases x; cases "fst x") (auto simp: answer_def)

lemma mapped_error_Http:
  "mapped_error missing failed unsupported e = Http st m \<Longrightarrow> m \<in> {missing, failed} \<or> unsupported = Some m"
  by (auto simp: mapped_error_def split: dav3_error.splits option.splits)

lemma mkcol_error_Http:
  "mkcol_error e = Http st m
     \<Longrightarrow> m \<in> {lit ''path already exists'', lit ''mkdir failed'', lit ''Not Found (parent missing?)''}"
  by (auto simp: mkcol_error_def mapped_error_def split: dav3_error.splits if_splits)

lemma uncaught_no_Http: "uncaught e \<noteq> Http st m"
  by (simp add: uncaught_def split: dav3_error.splits)

lemma adapter_Http:
  assumes "adapter cl username c d = (Inl (Http st m), d')"
  shows "sanitize m \<in> set ADAPTER_MESSAGES"
proof (cases c)
  case (Propfind p)
  with assms show ?thesis
    by (auto simp: propfind_verb_def ADAPTER_MESSAGES_def sanitized_messages
        dest!: answer_Http mapped_error_Http split: sum.splits)
next
  case (Get p)
  with assms show ?thesis
    by (auto simp: get_verb_def ADAPTER_MESSAGES_def sanitized_messages dest!: answer_Http mapped_error_Http)
next
  case (Put p b t)
  with assms show ?thesis
    by (auto simp: put_verb_def Let_def ADAPTER_MESSAGES_def sanitized_messages
        dest!: answer_Http mapped_error_Http split: option.splits if_splits)
next
  case (Move p q)
  with assms show ?thesis
    by (auto simp: move_verb_def ADAPTER_MESSAGES_def sanitized_messages dest!: answer_Http mapped_error_Http)
next
  case (Delete p)
  with assms show ?thesis
    by (auto simp: delete_verb_def ADAPTER_MESSAGES_def sanitized_messages dest!: answer_Http mapped_error_Http)
next
  case (Mkcol p)
  with assms show ?thesis
    by (auto simp: mkcol_verb_def ADAPTER_MESSAGES_def sanitized_messages uncaught_no_Http
        dest!: answer_Http mkcol_error_Http split: prod.splits sum.splits bool.splits)
next
  case (Lock p t)
  with assms show ?thesis
    by (auto simp: lock_verb_def Let_def ADAPTER_MESSAGES_def sanitized_messages
        dest!: answer_Http mapped_error_Http split: if_splits)
next
  case (Unlock p t)
  with assms show ?thesis
    by (auto simp: unlock_verb_def ADAPTER_MESSAGES_def sanitized_messages
        dest!: answer_Http mapped_error_Http split: if_splits)
qed

lemma adapters_Http:
  "adapters connect clients inst c d = (Inl (Http st m), d') \<Longrightarrow> sanitize m \<in> set ADAPTER_MESSAGES"
  by (auto simp: adapters_def dest: adapter_Http split: option.splits)


text \<open>C32: with the adapter as the transport, the only texts a WebDAV error can carry out of the
  layer are the thirteen fixed messages of the adapter. Whatever the client library puts in its
  exceptions, headers or bodies does not reach the caller. (The scrubber then still replaces the
  password in the fixed text.)\<close>

theorem webdav_errors_are_fixed:
  assumes "run_op l (adapters connect (l_clients l)) r w = (Inl (Webdav_error status message), w')"
  shows "\<exists>t \<in> set ADAPTER_MESSAGES.
    message = scrub_value (map_option c_password (map_of (l_clients l) (op_instance r))) t"
  using run_op_scrubbed [of l "adapters connect (l_clients l)" r w] assms adapters_Http
  by (fastforce simp: scrubbed_def)

text \<open>A client that fails every call with an error that shows the password.\<close>

definition talkative :: "unit dav3_client" where
  "talkative =
     (let e = Response_error_code (PInt 403) (lit ''hunter2 is not welcome'')
      in \<lparr>wd_list = (\<lambda>p d. (Inl e, d)), wd_download_iter = (\<lambda>p d. (Inl e, d)),
          wd_upload_to = (\<lambda>b p d. (Inl e, d)), wd_execute_request = (\<lambda>a p h b d. (Inl e, d)),
          wd_move = (\<lambda>p q ov d. (Inl e, d)), wd_check = (\<lambda>p d. (Inl e, d)), wd_mkdir = (\<lambda>p d. (Inl e, d)),
          wd_clean = (\<lambda>p d. (Inl e, d)), wd_quote = (\<lambda>p. p), wd_str = (\<lambda>v. [])\<rparr>)"

lemma talkative_get:
  "adapters (\<lambda>_. talkative) (l_clients example_layer) (lit ''home'') (Get p) d
     = (Inl (Http 403 (lit ''download failed'')), d)"
  by (simp add: adapters_def example_client get_verb_def answer_def mapped_error_def talkative_def
      status_from_def Let_def)

lemma talkative_read:
  obtains w' where "run_op example_layer (adapters (\<lambda>_. talkative) (l_clients example_layer))
      (Read_req (lit ''home'') (PStr (lit ''docs/x'')) prin) example_world
    = (Inl (Webdav_error 403 (lit ''download failed'')), w')"
proof (rule example_authorized [of READ])
  fix w1 :: "unit world"
  assume a: "authorized example_layer (lit ''home'') (PStr (lit ''docs/x'')) READ example_world = (Inr (lit ''docs/x''), w1)"
    "w_audit w1 = Some (new_log [], new_disk)" "w_trace w1 = []" "w_io w1 = (\<lambda>n. (Write_ok, Write_ok))"
  have "scrub_value (Some (lit ''hunter2'')) (lit ''download failed'') = lit ''download failed''"
    by code_simp
  then have "\<exists>w'. run_op example_layer (adapters (\<lambda>_. talkative) (l_clients example_layer))
      (Read_req (lit ''home'') (PStr (lit ''docs/x'')) prin) example_world
    = (Inl (Webdav_error 403 (lit ''download failed'')), w')"
    using a by (simp add: read_op_def guarded_op_def audit_and_def audit_record_def write_record_def check_secrets_def
      new_log_def Let_def scrub_errors_def dav_verb_def talkative_get raise_dav_def example_client sanitized_messages
      split: pyval.split)
  with that show thesis by blast
qed simp

theorem webdav_errors_are_fixed_witness:
  "\<exists>t \<in> set ADAPTER_MESSAGES. lit ''download failed'' = scrub_value (Some (lit ''hunter2'')) t"
proof (rule talkative_read [of None])
  fix w'
  assume "run_op example_layer (adapters (\<lambda>_. talkative) (l_clients example_layer))
      (Read_req (lit ''home'') (PStr (lit ''docs/x'')) None) example_world
    = (Inl (Webdav_error 403 (lit ''download failed'')), w')"
  from webdav_errors_are_fixed [OF this] show ?thesis by (simp add: example_client)
qed

section \<open>Listings\<close>

text \<open>A child as the server returns it, in the shape the module's documentation records.\<close>

record child =
  ch_name :: pystr
  ch_is_dir :: bool
  ch_size :: pyval
  ch_modified :: pyval

definition child_row :: "pystr \<Rightarrow> child \<Rightarrow> pyval" where
  "child_row folder c =
     PDict [(lit ''name'', if ch_is_dir c then PNone else PStr (ch_name c)), (lit ''size'', ch_size c),
       (lit ''modified'', ch_modified c), (lit ''isdir'', PBool (ch_is_dir c)),
       (lit ''path'', PStr (folder @ lit ''/'' @ ch_name c @ (if ch_is_dir c then lit ''/'' else [])))]"

definition folder_row :: "pystr \<Rightarrow> pyval" where
  "folder_row folder = PDict [(lit ''name'', PNone), (lit ''isdir'', PBool True), (lit ''path'', PStr (folder @ lit ''/''))]"

definition child_entry :: "child \<Rightarrow> pyval" where
  "child_entry c =
     PDict [(lit ''name'', PStr (ch_name c)),
       (lit ''type'', PStr (if ch_is_dir c then lit ''dir'' else lit ''file'')),
       (lit ''size'', ch_size c), (lit ''modified'', ch_modified c)]"

definition plain_name :: "pystr \<Rightarrow> bool" where
  "plain_name n \<longleftrightarrow> n \<noteq> [] \<and> 47 \<notin> set n"

lemma lits_differ [simp]:
  "lit ''name'' \<noteq> lit ''size''" "lit ''name'' \<noteq> lit ''modified''" "lit ''name'' \<noteq> lit ''isdir''"
  "lit ''name'' \<noteq> lit ''path''" "lit ''path'' \<noteq> lit ''name''" "lit ''path'' \<noteq> lit ''size''"
  "lit ''path'' \<noteq> lit ''modified''" "lit ''path'' \<noteq> lit ''isdir''" "lit ''isdir'' \<noteq> lit ''name''"
  "lit ''isdir'' \<noteq> lit ''size''" "lit ''isdir'' \<noteq> lit ''modified''" "lit ''size'' \<noteq> lit ''name''"
  "lit ''modified'' \<noteq> lit ''name''" "lit ''modified'' \<noteq> lit ''size''" "lit ''size'' \<noteq> lit ''path''"
  by (simp_all add: lit_def)

lemma rstrip_plain [simp]: "plain_name n \<Longrightarrow> rstrip_slash (u @ n) = u @ n"
  "plain_name n \<Longrightarrow> rstrip_slash (u @ n @ lit ''/'') = u @ n"
  by (cases n rule: rev_cases; simp add: rstrip_slash_def plain_name_def lit_def)+

lemma strip_plain: "plain_name n \<Longrightarrow> strip_slash n = n"
  using rstrip_plain(1) [of n "[]"] by (cases n) (simp_all add: strip_slash_def plain_name_def)

lemma split_last: "47 \<notin> set n \<Longrightarrow> last (split_on 47 (u @ 47 # n)) = n"
proof (induction u)
  case Nil
  then show ?case by (simp add: split_on_noc)
next
  case (Cons c u)
  obtain p ps where ps: "split_on 47 (u @ 47 # n) = p # ps" by (cases "split_on 47 (u @ 47 # n)") auto
  moreover have "ps \<noteq> []"
  proof
    assume "ps = []"
    with ps have "join_on [47] (split_on 47 (u @ 47 # n)) = p" by simp
    then have "u @ 47 # n = p" by simp
    moreover have "47 \<notin> set p" using ps split_on_pieces [of p 47 "u @ 47 # n"] by simp
    ultimately show False by auto
  qed
  ultimately show ?case using Cons by auto
qed

lemma child_path: "dict_get info (lit ''path'') = PStr s \<Longrightarrow> str_or_empty str (dict_get info (lit ''path'')) = s"
  by (simp add: str_or_empty_def)

lemma child_row_entry:
  assumes "plain_name (ch_name c)" "folder \<noteq> []"
  shows "\<exists>info. child_row folder c = PDict info
    \<and> rstrip_slash (str_or_empty str (dict_get info (lit ''path''))) = folder @ lit ''/'' @ ch_name c
    \<and> entry_name str info username = Inr (if ch_name c = username then None else Some (ch_name c))
    \<and> entry str info (ch_name c) = child_entry c"
proof -
  define info where "info = [(lit ''name'', if ch_is_dir c then PNone else PStr (ch_name c)), (lit ''size'', ch_size c),
       (lit ''modified'', ch_modified c), (lit ''isdir'', PBool (ch_is_dir c)),
       (lit ''path'', PStr (folder @ lit ''/'' @ ch_name c @ (if ch_is_dir c then lit ''/'' else [])))]"
  have get: "dict_get info (lit ''name'') = (if ch_is_dir c then PNone else PStr (ch_name c))"
    "dict_get info (lit ''path'') = PStr (folder @ lit ''/'' @ ch_name c @ (if ch_is_dir c then lit ''/'' else []))"
    "dict_get info (lit ''isdir'') = PBool (ch_is_dir c)"
    "dict_get info (lit ''size'') = ch_size c" "dict_get info (lit ''modified'') = ch_modified c"
    by (simp_all add: info_def dict_get_def)
  have strip: "rstrip_slash (folder @ lit ''/'' @ ch_name c @ (if ch_is_dir c then lit ''/'' else []))
      = folder @ lit ''/'' @ ch_name c"
    using rstrip_plain [OF assms(1), of "folder @ lit ''/''"] by simp
  have ne: "ch_name c \<noteq> []" "47 \<notin> set (ch_name c)" using assms(1) by (simp_all add: plain_name_def)
  have "folder @ lit ''/'' @ ch_name c = folder @ 47 # ch_name c" by (simp add: lit_def)
  then have seg: "last (split_on 47 (folder @ lit ''/'' @ ch_name c)) = ch_name c"
    using split_last [OF ne(2), of folder] by simp
  have "entry_name str info username = Inr (if ch_name c = username then None else Some (ch_name c))"
  proof (cases "ch_is_dir c")
    case True
    have "truthy (dict_get info (lit ''path''))" using assms(2) by (simp add: get)
    moreover have "rstrip_slash (folder @ lit ''/'' @ ch_name c @ lit ''/'') = folder @ lit ''/'' @ ch_name c"
      using strip True by simp
    ultimately show ?thesis
      using True seg ne strip_plain [OF assms(1)] by (simp add: entry_name_def get Let_def)
  next
    case False
    then show ?thesis
      using ne strip_plain [OF assms(1)] by (simp add: entry_name_def get Let_def str_or_empty_def)
  qed
  moreover have "entry str info (ch_name c) = child_entry c"
    by (simp add: entry_def child_entry_def get entry_is_dir_def)
  moreover have "rstrip_slash (str_or_empty str (dict_get info (lit ''path''))) = folder @ lit ''/'' @ ch_name c"
    using strip assms(2) by (simp add: str_or_empty_def get)
  ultimately show ?thesis by (intro exI [of _ info]) (simp add: child_row_def info_def)
qed


lemma rstrip_last: "s = [] \<or> last s \<noteq> 47 \<Longrightarrow> rstrip_slash (s @ lit ''/'') = s \<and> rstrip_slash s = s"
  by (cases s rule: rev_cases) (simp_all add: rstrip_slash_def lit_def)

lemma strip_slash_last: "strip_slash path = [] \<or> last (strip_slash path) \<noteq> 47"
proof -
  have "dropWhile (\<lambda>c. c = 47) u = [] \<or> hd (dropWhile (\<lambda>c. c = 47) u) \<noteq> 47" for u :: pystr
    by (induction u) auto
  from this [of "rev (dropWhile (\<lambda>c. c = 47) path)"] show ?thesis
    unfolding strip_slash_def rstrip_slash_def last_rev rev_is_Nil_conv .
qed

lemma self_path_ends:
  assumes "folder \<in> set (self_reference_paths username path)" "plain_name username"
  shows "last folder \<noteq> 47"
proof -
  have u: "username \<noteq> []" "last username \<noteq> 47"
    using assms(2) by (auto simp: plain_name_def dest: last_in_set)
  show ?thesis
    using assms(1) u strip_slash_last [of path]
    by (auto simp: self_reference_paths_def Let_def split: if_splits)
qed

lemma self_path_not_below:
  assumes "folder \<in> set (self_reference_paths username path)"
  shows "folder @ lit ''/'' @ n \<notin> set (self_reference_paths username path)"
proof -
  have "lit ''/files/'' @ u \<noteq> lit ''/remote.php/dav'' @ v" for u v :: pystr
    by (simp add: lit_def)
  moreover have "s @ lit ''/'' @ u \<noteq> s" for s u :: pystr by (simp add: lit_def)
  ultimately show ?thesis
    using assms by (auto simp: self_reference_paths_def Let_def lit_def split: if_splits)
qed

lemma entries_children:
  assumes "folder \<in> set (self_reference_paths username path)" "folder \<noteq> []" "\<forall>c \<in> set children. plain_name (ch_name c)"
  shows "entries str username (self_reference_paths username path) (map (child_row folder) children)
    = Inr (map child_entry (filter (\<lambda>c. ch_name c \<noteq> username) children))"
  using assms(3)
proof (induction children)
  case (Cons c cs)
  then obtain info where info: "child_row folder c = PDict info"
    "rstrip_slash (str_or_empty str (dict_get info (lit ''path''))) = folder @ lit ''/'' @ ch_name c"
    "entry_name str info username = Inr (if ch_name c = username then None else Some (ch_name c))"
    "entry str info (ch_name c) = child_entry c"
    using child_row_entry [of c folder str username] assms(2) by auto
  have "folder @ lit ''/'' @ ch_name c \<notin> set (self_reference_paths username path)"
    by (rule self_path_not_below [OF assms(1)])
  with Cons info show ?case by (simp del: entry_name_def)
qed simp

text \<open>C33: a listing shows the folder. When the server answers with the folder itself and its
  children, in either of the two path shapes, the entries are exactly the children in order, each
  with its kind, size and date, also a child that has the name of the folder; the folder itself
  is never among them. The one exception is a child that has the name of the user: in any folder,
  not only at the top, it is left out.\<close>

theorem listing_shows_the_children:
  assumes "wd_list cl (if path = [] \<or> path = lit ''/'' then None else Some path) d
      = (Inr (folder_row folder # map (child_row folder) children), d')"
    and "folder \<in> set (self_reference_paths username path)" "plain_name username"
    and "\<forall>c \<in> set children. plain_name (ch_name c)"
  shows "propfind_verb cl username path d =
    (Inr (Reply_dict [(lit ''ok'', Val (PBool True)),
       (lit ''entries'', Val (PList (map child_entry (filter (\<lambda>c. ch_name c \<noteq> username) children))))]), d')"
proof -
  have ne: "folder \<noteq> []"
    using assms(2) by (auto simp: self_reference_paths_def Let_def lit_def split: if_splits)
  have "rstrip_slash (folder @ lit ''/'') = folder"
    using rstrip_last self_path_ends [OF assms(2,3)] by blast
  then have "entries str username (self_reference_paths username path) (folder_row folder # infos)
      = entries str username (self_reference_paths username path) infos" for str infos
    using assms(2) by (simp add: folder_row_def dict_get_def str_or_empty_def)
  with entries_children [OF assms(2) ne assms(4)] assms(1) show ?thesis
    by (simp add: propfind_verb_def answer_def)
qed

text \<open>The folder \<open>b\<close> of ann, with a child \<open>b\<close> and a child \<open>ann\<close>.\<close>

definition example_children :: "child list" where
  "example_children =
     [\<lparr>ch_name = lit ''b'', ch_is_dir = True, ch_size = PNone, ch_modified = PNone\<rparr>,
      \<lparr>ch_name = lit ''ann'', ch_is_dir = False, ch_size = PStr (lit ''7''), ch_modified = PNone\<rparr>]"

definition listing_client :: "unit dav3_client" where
  "listing_client = talkative\<lparr>wd_list := \<lambda>p d.
     (Inr (folder_row (lit ''/files/ann/b'') # map (child_row (lit ''/files/ann/b'')) example_children), d)\<rparr>"

theorem listing_shows_the_children_witness:
  "propfind_verb listing_client (lit ''ann'') (lit ''b'') () =
    (Inr (Reply_dict [(lit ''ok'', Val (PBool True)),
       (lit ''entries'', Val (PList [child_entry (hd example_children)]))]), ())"
proof -
  have "strip_slash (lit ''b'') = lit ''b''" by code_simp
  then have "lit ''/files/ann/b'' \<in> set (self_reference_paths (lit ''ann'') (lit ''b''))"
    by (simp add: self_reference_paths_def Let_def lit_def)
  from listing_shows_the_children [OF _ this, of listing_client "()" example_children "()"] show ?thesis
    by (simp add: listing_client_def example_children_def plain_name_def lit_def)
qed

section \<open>Checkouts\<close>

lemma strip_angles_ends:
  assumes "strip_angles s \<noteq> []"
  shows "hd (strip_angles s) \<notin> {60, 62}" "last (strip_angles s) \<notin> {60, 62}"
proof -
  let ?angle = "\<lambda>c :: cp. c = 60 \<or> c = 62"
  define u where "u = dropWhile ?angle s"
  define v where "v = dropWhile ?angle (rev u)"
  have v: "v \<noteq> []" "strip_angles s = rev v" using assms by (simp_all add: strip_angles_def u_def v_def Let_def)
  then have "u \<noteq> []" by (auto simp: v_def)
  then have "\<not> ?angle (hd u)" using dropWhile_ends [of ?angle s] by (simp add: u_def)
  moreover have "last v = last (rev u)" "\<not> ?angle (hd v)"
    using dropWhile_ends [of ?angle "rev u"] v(1) by (simp_all add: v_def)
  ultimately show "hd (strip_angles s) \<notin> {60, 62}" "last (strip_angles s) \<notin> {60, 62}"
    using v \<open>u \<noteq> []\<close> by (simp_all add: hd_rev last_rev)
qed

text \<open>A token that can stand between the angle brackets of a header.\<close>

definition lock_token_ok :: "pystr \<Rightarrow> bool" where
  "lock_token_ok token \<longleftrightarrow> token \<noteq> [] \<and> hd token \<notin> {60, 62} \<and> last token \<notin> {60, 62}"

lemma adapters_Inr:
  "adapters connect clients inst c d = (Inr r, d')
     \<Longrightarrow> \<exists>cl username. adapter cl username c d = (Inr r, d')"
  by (auto simp: adapters_def split: option.splits)

lemma lock_reply:
  assumes "adapter cl username (Lock p timeout) d = (Inr r, d')"
  obtains token where "lock_token_ok token"
    "r = Reply_dict [(lit ''ok'', Val (PBool True)), (lit ''lock_token'', Val (PStr token))]"
  using assms strip_angles_ends
  by (auto simp: lock_verb_def answer_def Let_def lock_token_ok_def split: prod.splits sum.splits if_splits)

lemma get_reply:
  assumes "adapter cl username (Get p) d = (Inr r, d')"
  obtains bs where "r = Reply_dict [(lit ''ok'', Val (PBool True)), (lit ''content'', Bytes bs)]"
  using assms by (auto simp: get_verb_def answer_def split: prod.splits sum.splits)

lemma audit_and_Inr:
  assumes "audit_and l dav inst path oper reason c prin w = (Inr r, w')"
  obtains d d' where "dav inst c d = (Inr r, d')"
proof -
  have *: "\<exists>d d'. dav inst c d = (Inr r, d')"
    if "scrub_errors l inst (dav_verb dav inst c) w1 = (Inr r, w2)" for w1 w2
    using that
    by (cases "dav inst c (w_remote w1)"; cases "fst (dav inst c (w_remote w1))")
      (auto simp: scrub_errors_def dav_verb_def raise_dav_def split: dav_error.splits)
  show thesis
  proof (cases "w_audit w")
    case None
    with assms * that show thesis by (auto simp: audit_and_def)
  next
    case (Some st)
    with assms * that show thesis
      by (cases st) (auto simp: audit_and_def audit_record_def Let_def split: prod.splits sum.splits option.splits)
  qed
qed

text \<open>A checkout that succeeds hands out what the checkin needs. With the adapter as the
  transport its result is always a lock token, not empty and without the angle brackets of the
  header, and the bytes of the file; so a lock is never left without its token by a reply that
  lacked one, and a checkin with the token always goes through the locked upload.\<close>

lemma checkout_hands_out_a_token:
  assumes "run_op l (adapters connect (l_clients l)) (Checkout_req inst path timeout prin) w = (Inr x, w')"
  shows "\<exists>token bs. x = Checked_out (Val (PStr token)) (Bytes bs) \<and> lock_token_ok token
    \<and> (\<forall>cl p data d. put_verb cl p data (Some token) d =
         answer (mapped_error (lit ''Not Found (parent missing?)'') (lit ''upload failed'') None) (\<lambda>_. Inr ok_reply)
           (wd_execute_request cl (lit ''upload'') (wd_quote cl p) (Some [lit ''If: (<'' @ token @ lit ''>)'']) (Some data) d))"
proof -
  let ?dav = "adapters connect (l_clients l)"
  obtain p w1 where a: "authorized l inst path WRITE w = (Inr p, w1)"
    using assms by (auto simp: checkout_op_def split: prod.splits sum.splits)
  obtain r1 w2 where b: "audit_and l ?dav inst p (lit ''checkout'') (lit ''granted write'') (Lock p timeout) prin w1 = (Inr r1, w2)"
    using assms a by (auto simp: checkout_op_def split: prod.splits sum.splits)
  obtain r2 w3 where c: "audit_and l ?dav inst p (lit ''read'') (lit ''checkout read'') (Get p) prin w2 = (Inr r2, w3)"
    using assms a b by (auto simp: checkout_op_def split: prod.splits sum.splits)
  obtain token where t: "lock_token_ok token"
    "r1 = Reply_dict [(lit ''ok'', Val (PBool True)), (lit ''lock_token'', Val (PStr token))]"
    using audit_and_Inr [OF b] adapters_Inr lock_reply by metis
  obtain bs where g: "r2 = Reply_dict [(lit ''ok'', Val (PBool True)), (lit ''content'', Bytes bs)]"
    using audit_and_Inr [OF c] adapters_Inr get_reply by metis
  have "x = Checked_out (Val (PStr token)) (Bytes bs)"
    using assms a b c t g by (simp add: checkout_op_def field_of_def Let_def) (simp add: lit_def)
  with t(1) show ?thesis
    by (intro exI [of _ token] exI [of _ bs]) (simp add: put_verb_def lock_token_ok_def)
qed


definition locking_client :: "unit dav3_client" where
  "locking_client = talkative\<lparr>wd_execute_request := \<lambda>a p h b d. (Inr (Some (lit ''<lock-1>'')), d),
     wd_download_iter := \<lambda>p d. (Inr [[1], [2, 3]], d)\<rparr>"

lemma locking_calls:
  "adapters (\<lambda>_. locking_client) (l_clients example_layer) (lit ''home'') (Lock p t) d
     = (Inr (Reply_dict [(lit ''ok'', Val (PBool True)), (lit ''lock_token'', Val (PStr (lit ''lock-1'')))]), d)"
  "adapters (\<lambda>_. locking_client) (l_clients example_layer) (lit ''home'') (Get p) d
     = (Inr (Reply_dict [(lit ''ok'', Val (PBool True)), (lit ''content'', Bytes [1, 2, 3])]), d)"
proof -
  have "strip_angles (lit ''<lock-1>'') = lit ''lock-1''" by (simp add: strip_angles_def lit_def)
  moreover have "lit ''lock-1'' \<noteq> []" by (simp add: lit_def)
  ultimately show "adapters (\<lambda>_. locking_client) (l_clients example_layer) (lit ''home'') (Lock p t) d
     = (Inr (Reply_dict [(lit ''ok'', Val (PBool True)), (lit ''lock_token'', Val (PStr (lit ''lock-1'')))]), d)"
    by (simp add: adapters_def example_client lock_verb_def answer_def locking_client_def Let_def)
qed (simp add: adapters_def example_client get_verb_def answer_def locking_client_def)

text \<open>A call of the example on the disk that never fails.\<close>

lemma example_audit_and:
  fixes w1 :: "'d world"
  assumes "w_audit w1 \<noteq> None" "w_io w1 = (\<lambda>n. (Write_ok, Write_ok))" "dav (lit ''home'') c (w_remote w1) = (Inr r, d)"
    and "\<forall>al dk. w_audit w1 = Some (al, dk) \<longrightarrow> al_secrets al = []"
  shows "\<exists>w2. audit_and example_layer dav (lit ''home'') p oper reason c prin w1 = (Inr r, w2)
    \<and> w_audit w2 \<noteq> None \<and> w_io w2 = (\<lambda>n. (Write_ok, Write_ok))
    \<and> (\<forall>al dk. w_audit w2 = Some (al, dk) \<longrightarrow> al_secrets al = [])"
proof -
  obtain al dk where "w_audit w1 = Some (al, dk)" "al_secrets al = []" using assms by auto
  then show ?thesis
    using assms(2,3) by (simp add: audit_and_def audit_record_def write_record_def check_secrets_def Let_def
        scrub_errors_def dav_verb_def split: pyval.split)
qed

end
