(* ===== verification/Run.thy ===== *)
theory Run
  imports Server Webdav_Adapter Config Logging_Setup
begin

text \<open>
  The wiring, \<open>broker/run.py\<close>: the construction of all components from an accepted
  configuration, the check of the bearer token before each surface, the dispatch of a request to
  a surface by its path, and the startup and shutdown of the surfaces. The HTTP server, the
  Starlette applications under the middleware and the event loop are not modelled: a request
  either gets an answer of the wiring or reaches a surface, and a surface answers the messages
  of its lifespan, or does not.
\<close>

section \<open>What the process starts from\<close>

text \<open>The logger \<open>broker\<close>, the files, the databases, the clock, the outcomes of the disk and of
  the room, and the texts of the standard library that messages show.\<close>

record 'd process =
  pr_logger :: logger
  pr_files :: "pystr \<Rightarrow> disk"
  pr_database :: "pystr \<Rightarrow> row list \<times> int \<times> (pystr \<times> int) list"
  pr_clock :: "nat \<Rightarrow> int"
  pr_io :: "nat \<Rightarrow> write_outcome \<times> write_outcome"
  pr_stamp :: "nat \<Rightarrow> pystr"
  pr_net :: "nat \<Rightarrow> net_outcome"
  pr_others :: "nat \<Rightarrow> gop list"
  pr_remote :: 'd
  pr_float :: "pystr \<Rightarrow> pystr"
  pr_params :: context_params
  pr_audit_text :: "audit_error \<Rightarrow> pystr"

text \<open>A configured value of another type than the components take it (a URL that is a number,
  say) is outside the model.\<close>

datatype wiring_error =
    Wire_config config_error
  | Wire_logging pystr
  | Wire_audit audit_error
  | Wire_server pystr
  | Outside_model

section \<open>The banner\<close>

definition or_any_host :: "context_params \<Rightarrow> pyval option \<Rightarrow> pystr" where
  "or_any_host cx bind_host = (case bind_host of None \<Rightarrow> lit ''0.0.0.0'' | Some v \<Rightarrow> str_of cx v)"

definition discovery_names :: "config \<Rightarrow> pystr list" where
  "discovery_names cfg = map fst (filter (\<lambda>(n, i). in_discovery i) (cf_instances cfg))"

definition log_startup_posture :: "context_params \<Rightarrow> logger \<Rightarrow> config \<Rightarrow> pystr + pystr" where
  "log_startup_posture cx lg cfg =
     (if lg_handlers lg = 0 \<or> \<not> list_ex is_scrub (lg_filters lg)
      then Inl (lit ''startup banner skipped: logging not initialized ''
             @ lit ''(setup_logging must run before log_startup_posture)'')
      else (let discovery = sort (discovery_names cfg)
            in Inr (lit ''posture: instances='' @ py_str_int (int (length (cf_instances cfg)))
                 @ lit '' discovery='' @ (if discovery = [] then lit ''off'' else join_on (lit '','') discovery)
                 @ lit '' approver='' @ mx_approver (cf_matrix cfg)
                 @ lit '' bind='' @ or_any_host cx (sc_bind_host (cf_server cfg)) @ lit '':''
                 @ py_str_int (sc_port (cf_server cfg)))))"

section \<open>The components\<close>

definition config_secrets :: "config \<Rightarrow> pystr list" where
  "config_secrets cfg =
     filter (\<lambda>s. s \<noteq> [])
       (map (\<lambda>(n, i). in_password i) (cf_instances cfg)
        @ [mx_bot_token (cf_matrix cfg), ag_token (cf_agent cfg), ag_transfer_token (cf_agent cfg)])"

text \<open>\<open>getattr(config, 'logging_level', 'info')\<close>: the property reads the section anew; only an
  \<open>AttributeError\<close> falls back to the default.\<close>

definition wired_level :: "context_params \<Rightarrow> config \<Rightarrow> config_error + pystr" where
  "wired_level cx cfg =
     (case logging_level cx (cf_raw cfg) of Inl Type_problem \<Rightarrow> Inr (lit ''info'') | r \<Rightarrow> r)"

text \<open>\<open>path.rsplit('/', 1)[0]\<close>, or the current directory.\<close>

definition audit_dir :: "pystr \<Rightarrow> pystr" where
  "audit_dir path = (if 47 \<in> set path then rev (drop 1 (dropWhile (\<lambda>c. c \<noteq> 47) (rev path))) else lit ''.'')"

fun wire_clients :: "(pystr \<times> instance_config) list \<Rightarrow> (pystr \<times> client) list option" where
  "wire_clients [] = Some []"
| "wire_clients ((n, i) # rest) =
     (case (in_url i, in_username i) of
        (PStr url, PStr username) \<Rightarrow>
          map_option (\<lambda>cs. (n, \<lparr>c_url = url, c_username = username, c_password = in_password i\<rparr>) # cs)
            (wire_clients rest)
      | _ \<Rightarrow> None)"

definition wire_layer :: "context_params \<Rightarrow> config \<Rightarrow> (pystr \<times> client) list \<Rightarrow> layer" where
  "wire_layer cx cfg clients =
     \<lparr>l_clients = clients, l_discovery = discovery_names cfg, l_principal = Some (lit ''agent''),
      l_repr = (\<lambda>s. rp cx (PStr s))\<rparr>"

definition wire_store :: "'d process \<Rightarrow> config \<Rightarrow> pystr \<Rightarrow> store" where
  "wire_store pr cfg path =
     (case pr_database pr (audit_dir path @ lit ''/grants.sqlite3'') of
        (rs, sq, ps) \<Rightarrow> open_store rs sq ps DEFAULT_PENDING_TIMEOUT DEFAULT_GRANT_DURATION
                         (Some (map fst (cf_instances cfg))) (pr_clock pr))"

definition wire_world :: "'d process \<Rightarrow> pystr \<Rightarrow> audit_log \<Rightarrow> store \<Rightarrow> 'd world" where
  "wire_world pr path al s =
     \<lparr>w_store = s, w_audit = Some (al, pr_files pr path), w_io = pr_io pr, w_stamp = pr_stamp pr,
      w_records = 0, w_remote = pr_remote pr, w_trace = []\<rparr>"

definition wire_bot :: "'d process \<Rightarrow> config \<Rightarrow> store \<Rightarrow> bot" where
  "wire_bot pr cfg s =
     \<lparr>b_store = s, b_approver = mx_approver (cf_matrix cfg), b_swept = {}, b_undo = Map.empty,
      b_repr = rp (pr_params pr), b_net = pr_net pr, b_others = pr_others pr, b_calls = 0, b_room = []\<rparr>"

text \<open>\<open>wire_components\<close>: the server with what it holds, the logger \<open>broker\<close> as it is left, and
  the lines logged on it.\<close>

definition wire_server ::
  "'d process \<Rightarrow> config \<Rightarrow> pystr \<Rightarrow> (pystr \<times> client) list \<Rightarrow> pystr option \<Rightarrow> wiring_error + 'd server" where
  "wire_server pr cfg path clients host =
     (case open_log (pr_float pr) [] (pr_files pr path) of
        Inl e \<Rightarrow> Inl (Wire_audit e)
      | Inr al \<Rightarrow>
          (let s = wire_store pr cfg path
           in case new_server (wire_layer (pr_params pr) cfg clients) (wire_world pr path al s) (wire_bot pr cfg s)
                     (ag_token (cf_agent cfg)) host (sc_port (cf_server cfg))
                     (Some (map fst (cf_instances cfg))) (pr_audit_text pr) of
                Inl t \<Rightarrow> Inl (Wire_server t)
              | Inr sv \<Rightarrow>
                  (case build_app host AGENT_TOOLS of Inl t \<Rightarrow> Inl (Wire_server t) | Inr _ \<Rightarrow> Inr sv)))"

definition wire_components ::
  "'d process \<Rightarrow> config \<Rightarrow> (wiring_error + 'd server) \<times> logger \<times> pystr list" where
  "wire_components pr cfg =
     (case wired_level (pr_params pr) cfg of
        Inl e \<Rightarrow> (Inl (Wire_config e), pr_logger pr, [])
      | Inr level \<Rightarrow>
          (let lg = setup_logging level (config_secrets cfg) (pr_logger pr);
               starting = lit ''broker starting: '' @ py_str_int (int (length (cf_instances cfg)))
                 @ lit '' instance(s) configured''
           in case log_startup_posture (pr_params pr) lg cfg of
                Inl t \<Rightarrow> (Inl (Wire_logging t), lg, [starting])
              | Inr banner \<Rightarrow>
                  (case (cf_audit_path cfg, wire_clients (cf_instances cfg)) of
                     (PStr path, Some clients) \<Rightarrow>
                       (case sc_bind_host (cf_server cfg) of
                          None \<Rightarrow> (wire_server pr cfg path clients None, lg, [starting, banner])
                        | Some (PStr h) \<Rightarrow> (wire_server pr cfg path clients (Some h), lg, [starting, banner])
                        | Some _ \<Rightarrow> (Inl Outside_model, lg, [starting, banner]))
                   | _ \<Rightarrow> (Inl Outside_model, lg, [starting, banner]))))"

section \<open>The surfaces behind their tokens\<close>

text \<open>A request: its path and its headers, with the names in lower case as ASGI has them.\<close>

record http_request =
  rq_path :: pystr
  rq_headers :: "(pystr \<times> pystr) list"

text \<open>A request reaches an application, or is answered, or ends in an exception.\<close>

datatype 'a http_result = Reached 'a | Answered int pystr | Raised

text \<open>\<open>BearerMiddleware.__call__\<close>.\<close>

definition provided_token :: "http_request \<Rightarrow> pystr option" where
  "provided_token rq =
     (let header = (case map_of (rq_headers rq) (lit ''authorization'') of None \<Rightarrow> [] | Some h \<Rightarrow> h)
      in if py_startswith (py_lower header) (lit ''bearer '') then Some (drop 7 header) else None)"

definition bearer :: "pystr \<Rightarrow> 'a \<Rightarrow> http_request \<Rightarrow> 'a http_result" where
  "bearer token app rq =
     (case check_auth (provided_token rq) token of
        None \<Rightarrow> Raised
      | Some False \<Rightarrow> Answered 401 (lit ''unauthorized'')
      | Some True \<Rightarrow> Reached app)"

text \<open>\<open>PathDispatch\<close>: the routes with the longest prefix first.\<close>

definition sorted_routes :: "(pystr \<times> 'b) list \<Rightarrow> (pystr \<times> 'b) list" where
  "sorted_routes routes = sort_key (\<lambda>(p, a). - int (length p)) routes"

fun dispatch :: "(pystr \<times> (http_request \<Rightarrow> 'a http_result)) list \<Rightarrow> http_request \<Rightarrow> 'a http_result" where
  "dispatch [] rq = Answered 404 (lit ''not found'')"
| "dispatch ((mount, app) # rest) rq =
     (if rq_path rq = mount \<or> py_startswith (rq_path rq) (mount @ lit ''/'') then app rq else dispatch rest rq)"

text \<open>\<open>build_dual_app\<close>: the routes of \<open>PathDispatch\<close>, or the refusal of \<open>build_app\<close>.\<close>

definition build_dual_app ::
  "'d server \<Rightarrow> 'd server \<Rightarrow> pystr \<Rightarrow> pystr \<Rightarrow> pystr + (pystr \<times> (http_request \<Rightarrow> surface http_result)) list" where
  "build_dual_app agent_server transfer_server agent_token transfer_token =
     (case build_app (sv_bind_host agent_server) AGENT_TOOLS of
        Inl t \<Rightarrow> Inl t
      | Inr agent_mcp \<Rightarrow>
          (case build_app (sv_bind_host transfer_server) TRANSFER_TOOLS of
             Inl t \<Rightarrow> Inl t
           | Inr transfer_mcp \<Rightarrow>
               Inr (sorted_routes [(lit ''/mcp'', bearer agent_token agent_mcp),
                      (lit ''/transfer'', bearer transfer_token transfer_mcp)])))"

section \<open>Startup and shutdown of the surfaces\<close>

text \<open>How a surface answers the messages of its lifespan: \<open>startup\<close> is complete, or refused with
  a message, or never answered; \<open>shutdown\<close> is answered and its task ends, or the task ends
  with an exception, or it is never answered.\<close>

datatype startup_reply = Startup_complete | Startup_refused pystr | No_startup_reply

datatype shutdown_reply = Shutdown_done | Shutdown_raises | No_shutdown_reply

record life =
  lf_startup :: startup_reply
  lf_shutdown :: shutdown_reply

text \<open>A driver: its surface, whether its task exists, and how often startup was delivered.\<close>

record driver =
  dr_life :: life
  dr_started :: nat

text \<open>\<open>_LifespanDriver.startup\<close> and \<open>shutdown\<close>: done, or an exception, or no return.\<close>

datatype drive = Done | Fails pystr | Hangs

definition driver_startup :: "driver \<Rightarrow> drive \<times> driver" where
  "driver_startup dr =
     ((case lf_startup (dr_life dr) of
         Startup_complete \<Rightarrow> Done
       | Startup_refused reply \<Rightarrow> Fails (lit ''surface lifespan startup failed: '' @ reply)
       | No_startup_reply \<Rightarrow> Hangs),
      dr\<lparr>dr_started := Suc (dr_started dr)\<rparr>)"

definition driver_shutdown :: "driver \<Rightarrow> drive" where
  "driver_shutdown dr =
     (if dr_started dr = 0 then Done
      else (case lf_shutdown (dr_life dr) of
              Shutdown_done \<Rightarrow> Done | Shutdown_raises \<Rightarrow> Fails [] | No_shutdown_reply \<Rightarrow> Hangs))"

text \<open>The loops over the drivers: the first that is not done ends them.\<close>

fun startup_all :: "driver list \<Rightarrow> drive \<times> driver list" where
  "startup_all [] = (Done, [])"
| "startup_all (dr # drs) =
     (case driver_startup dr of
        (Done, dr1) \<Rightarrow> (case startup_all drs of (r, drs1) \<Rightarrow> (r, dr1 # drs1))
      | (r, dr1) \<Rightarrow> (r, dr1 # drs))"

fun shutdown_all :: "driver list \<Rightarrow> drive" where
  "shutdown_all [] = Done"
| "shutdown_all (dr # drs) = (case driver_shutdown dr of Done \<Rightarrow> shutdown_all drs | r \<Rightarrow> r)"

datatype lifespan_message = Startup | Shutdown | Other_message

datatype lifespan_sent = Startup_completed | Startup_failed pystr | Shutdown_completed

text \<open>How the loop over the messages ends: it returns, raises, waits for an answer of a surface
  for ever, or waits for the next message.\<close>

datatype lifespan_end = Returned | Raised_out | Stuck | Waiting

fun lifespan :: "driver list \<Rightarrow> lifespan_message list \<Rightarrow> lifespan_sent list \<times> lifespan_end \<times> driver list" where
  "lifespan drs [] = ([], Waiting, drs)"
| "lifespan drs (Startup # ms) =
     (case startup_all drs of
        (Done, drs1) \<Rightarrow> (case lifespan drs1 ms of (sent, r, drs2) \<Rightarrow> (Startup_completed # sent, r, drs2))
      | (Fails t, drs1) \<Rightarrow> ([Startup_failed t], Returned, drs1)
      | (Hangs, drs1) \<Rightarrow> ([], Stuck, drs1))"
| "lifespan drs (Shutdown # ms) =
     (case shutdown_all drs of
        Done \<Rightarrow> ([Shutdown_completed], Returned, drs)
      | Fails _ \<Rightarrow> ([], Raised_out, drs)
      | Hangs \<Rightarrow> ([], Stuck, drs))"
| "lifespan drs (Other_message # ms) = lifespan drs ms"

text \<open>The branch of \<open>PathDispatch.__call__\<close> for a scope that is not HTTP.\<close>

definition drive_lifespan :: "life list \<Rightarrow> lifespan_message list \<Rightarrow> lifespan_sent list \<times> lifespan_end \<times> driver list" where
  "drive_lifespan lives ms = lifespan (map (\<lambda>l. \<lparr>dr_life = l, dr_started = 0\<rparr>) lives) ms"

end
