(* ===== verification/Run_Properties.thy ===== *)
theory Run_Properties
  imports Run Server_Properties
begin

text \<open>
  What the wiring of \<open>broker/run.py\<close> promises: a request reaches a surface exactly with the token
  of that surface, the components start from a state in which the safety of the layer and of the
  bot rests, and every surface is started or the startup fails.
\<close>

section \<open>Tokens and surfaces\<close>

definition mounted :: "pystr \<Rightarrow> http_request \<Rightarrow> bool" where
  "mounted mount rq \<longleftrightarrow> rq_path rq = mount \<or> py_startswith (rq_path rq) (mount @ lit ''/'')"

lemma mounted_differ: "mounted (lit ''/mcp'') rq \<Longrightarrow> \<not> mounted (lit ''/transfer'') rq"
  by (auto simp: mounted_def lit_def prefix_def)

lemma dual_routes:
  "sorted_routes [(lit ''/mcp'', a), (lit ''/transfer'', t)] = [(lit ''/transfer'', t), (lit ''/mcp'', a)]"
  by (simp add: sorted_routes_def lit_def)

lemma build_dual_app_Inr:
  assumes "build_dual_app sv sv2 at tt = Inr routes"
  obtains a t where "build_app (sv_bind_host sv) AGENT_TOOLS = Inr a" "build_app (sv_bind_host sv2) TRANSFER_TOOLS = Inr t"
    "routes = [(lit ''/transfer'', bearer tt t), (lit ''/mcp'', bearer at a)]"
  using assms by (auto simp: build_dual_app_def dual_routes split: sum.splits)

lemma dispatch_dual:
  "dispatch [(lit ''/transfer'', t), (lit ''/mcp'', a)] rq =
     (if mounted (lit ''/transfer'') rq then t rq else if mounted (lit ''/mcp'') rq then a rq
      else Answered 404 (lit ''not found''))"
  by (simp add: mounted_def)

definition encodable :: "pystr \<Rightarrow> bool" where
  "encodable s \<longleftrightarrow> (\<forall>c \<in> set s. \<not> surrogate c)"

lemma bearer_cases:
  assumes "token \<noteq> []" "encodable token" "\<forall>p. provided_token rq = Some p \<longrightarrow> encodable p"
  shows "bearer token app rq =
    (if provided_token rq = Some token then Reached app else Answered 401 (lit ''unauthorized''))"
proof (cases "provided_token rq")
  case None
  then show ?thesis by (simp add: bearer_def check_auth_def)
next
  case (Some p)
  then show ?thesis
    using check_auth_eq [of token p] assms by (auto simp: bearer_def encodable_def)
qed

text \<open>C34: a token opens exactly its own surface. With a header that carries no lone surrogate,
  every request is answered in exactly one way: below \<open>/mcp\<close> it reaches the agent's surface if it
  brings the agent's token and is refused with 401 otherwise; below \<open>/transfer\<close> likewise with the
  transfer token; anywhere else it is answered with 404. So the tokens that the
  configuration requires to differ never open the other surface.\<close>

theorem token_opens_its_own_surface:
  assumes "build_dual_app sv sv2 at tt = Inr routes"
    and "at \<noteq> []" "tt \<noteq> []" "encodable at" "encodable tt" "\<forall>p. provided_token rq = Some p \<longrightarrow> encodable p"
  shows "\<exists>agent transfer. set (sf_tools agent) = set AGENT_TOOLS \<and> set (sf_tools transfer) = set TRANSFER_TOOLS
    \<and> sf_principal agent = lit ''agent'' \<and> sf_principal transfer = lit ''transfer''
    \<and> dispatch routes rq =
        (if mounted (lit ''/mcp'') rq
         then (if provided_token rq = Some at then Reached agent else Answered 401 (lit ''unauthorized''))
         else if mounted (lit ''/transfer'') rq
         then (if provided_token rq = Some tt then Reached transfer else Answered 401 (lit ''unauthorized''))
         else Answered 404 (lit ''not found''))"
proof (rule build_dual_app_Inr [OF assms(1)])
  fix a t
  assume s: "build_app (sv_bind_host sv) AGENT_TOOLS = Inr a" "build_app (sv_bind_host sv2) TRANSFER_TOOLS = Inr t"
    "routes = [(lit ''/transfer'', bearer tt t), (lit ''/mcp'', bearer at a)]"
  have "dispatch routes rq =
        (if mounted (lit ''/mcp'') rq
         then (if provided_token rq = Some at then Reached a else Answered 401 (lit ''unauthorized''))
         else if mounted (lit ''/transfer'') rq
         then (if provided_token rq = Some tt then Reached t else Answered 401 (lit ''unauthorized''))
         else Answered 404 (lit ''not found''))"
    unfolding s(3) dispatch_dual using mounted_differ [of rq]
    by (simp add: bearer_cases [OF assms(2,4,6)] bearer_cases [OF assms(3,5,6)])
  then show ?thesis
    using agent_surface_tools [OF s(1)] transfer_surface_tools [OF s(2)] by blast
qed

definition example_rq :: http_request where
  "example_rq = \<lparr>rq_path = lit ''/transfer'', rq_headers = [(lit ''authorization'', lit ''Bearer aaa'')]\<rparr>"

theorem token_opens_its_own_surface_witness:
  "\<exists>routes. build_dual_app example_server example_server (lit ''aaa'') (lit ''bbb'') = Inr routes
    \<and> dispatch routes example_rq = Answered 401 (lit ''unauthorized'')"
proof -
  have "validate_bind_host (sv_bind_host example_server) = None"
    by (simp add: example_server_def validate_bind_host_def)
  then obtain routes where r: "build_dual_app example_server example_server (lit ''aaa'') (lit ''bbb'') = Inr routes"
    by (simp add: build_dual_app_def build_app_def)
  have p: "provided_token example_rq = Some (lit ''aaa'')"
    by (simp add: provided_token_def example_rq_def lit_def py_lower_def py_lower_cp_def)
  have m: "mounted (lit ''/transfer'') example_rq" "\<not> mounted (lit ''/mcp'') example_rq"
    by (simp_all add: mounted_def example_rq_def lit_def)
  have "encodable (lit ''aaa'')" "encodable (lit ''bbb'')" "lit ''aaa'' \<noteq> []" "lit ''bbb'' \<noteq> []" "lit ''aaa'' \<noteq> lit ''bbb''"
    by (simp_all add: encodable_def surrogate_def lit_def)
  with token_opens_its_own_surface [OF r, of example_rq] p m r show ?thesis by auto
qed

section \<open>Startup\<close>

definition fresh_driver :: "life \<Rightarrow> driver" where
  "fresh_driver l = \<lparr>dr_life = l, dr_started = 0\<rparr>"

definition started_driver :: "life \<Rightarrow> driver" where
  "started_driver l = \<lparr>dr_life = l, dr_started = 1\<rparr>"

lemma startup_all_complete:
  "\<forall>l \<in> set lives. lf_startup l = Startup_complete
     \<Longrightarrow> startup_all (map fresh_driver lives) = (Done, map started_driver lives)"
  by (induction lives) (auto simp: driver_startup_def fresh_driver_def started_driver_def)

lemma startup_all_fails:
  assumes "\<forall>l \<in> set good. lf_startup l = Startup_complete" "lf_startup bad = Startup_refused reply"
  shows "startup_all (map fresh_driver (good @ bad # rest))
    = (Fails (lit ''surface lifespan startup failed: '' @ reply),
       map started_driver (good @ [bad]) @ map fresh_driver rest)"
  using assms by (induction good) (auto simp: driver_startup_def fresh_driver_def started_driver_def)

lemma shutdown_all_done:
  "\<forall>l \<in> set lives. lf_shutdown l = Shutdown_done \<Longrightarrow> shutdown_all (map started_driver lives) = Done"
  by (induction lives) (auto simp: driver_shutdown_def started_driver_def)

lemma split_first_bad:
  assumes "\<exists>l \<in> set lives. lf_startup l \<noteq> Startup_complete" "\<forall>l \<in> set lives. lf_startup l \<noteq> No_startup_reply"
  obtains good bad rest reply where "lives = good @ bad # rest" "\<forall>l \<in> set good. lf_startup l = Startup_complete"
    "lf_startup bad = Startup_refused reply"
proof -
  obtain good bad rest where s: "lives = good @ bad # rest" "lf_startup bad \<noteq> Startup_complete"
      "\<forall>l \<in> set good. lf_startup l = Startup_complete"
    using split_list_first_prop [OF assms(1)] by auto
  moreover have "lf_startup bad \<noteq> No_startup_reply" using s(1) assms(2) by simp
  ultimately show thesis using that by (cases "lf_startup bad") auto
qed

text \<open>C35: the startup drives every surface and fails closed. If every surface answers its startup
  message, the server's startup message gets exactly one answer. It is \<open>complete\<close> only if all
  surfaces completed, each started exactly once, and then a shutdown that the surfaces answer
  completes too and ends the loop; otherwise it is \<open>failed\<close>, the loop ends, and no surface after
  the one that refused was started.\<close>

theorem startup_drives_every_surface:
  assumes "\<forall>l \<in> set lives. lf_startup l \<noteq> No_startup_reply"
  shows "if \<forall>l \<in> set lives. lf_startup l = Startup_complete
    then drive_lifespan lives [Startup] = ([Startup_completed], Waiting, map started_driver lives)
      \<and> ((\<forall>l \<in> set lives. lf_shutdown l = Shutdown_done) \<longrightarrow>
           drive_lifespan lives [Startup, Shutdown]
             = ([Startup_completed, Shutdown_completed], Returned, map started_driver lives))
    else \<exists>good bad rest reply. lives = good @ bad # rest \<and> (\<forall>l \<in> set good. lf_startup l = Startup_complete)
      \<and> (\<forall>ms. drive_lifespan lives (Startup # ms) =
           ([Startup_failed (lit ''surface lifespan startup failed: '' @ reply)], Returned,
            map started_driver (good @ [bad]) @ map fresh_driver rest))"
proof (cases "\<forall>l \<in> set lives. lf_startup l = Startup_complete")
  case True
  have f: "(\<lambda>l. \<lparr>dr_life = l, dr_started = 0\<rparr>) = fresh_driver" by (simp add: fun_eq_iff fresh_driver_def)
  show ?thesis
    using True startup_all_complete [OF True] shutdown_all_done [of lives]
    by (simp add: drive_lifespan_def f)
next
  case False
  then have "\<exists>l \<in> set lives. lf_startup l \<noteq> Startup_complete" by simp
  then obtain good bad rest reply where s: "lives = good @ bad # rest"
      "\<forall>l \<in> set good. lf_startup l = Startup_complete" "lf_startup bad = Startup_refused reply"
    by (rule split_first_bad [OF _ assms])
  have f: "(\<lambda>l. \<lparr>dr_life = l, dr_started = 0\<rparr>) = fresh_driver" by (simp add: fun_eq_iff fresh_driver_def)
  show ?thesis
    unfolding if_not_P [OF False]
    using startup_all_fails [OF s(2,3), of rest] s(1,2)
    by (intro exI [of _ good] exI [of _ bad] exI [of _ rest] exI [of _ reply]) (simp add: drive_lifespan_def f)
qed

theorem startup_drives_every_surface_witness:
  "drive_lifespan [\<lparr>lf_startup = Startup_complete, lf_shutdown = Shutdown_done\<rparr>,
       \<lparr>lf_startup = Startup_complete, lf_shutdown = Shutdown_done\<rparr>] [Startup, Shutdown]
     = ([Startup_completed, Shutdown_completed], Returned,
        replicate 2 (started_driver \<lparr>lf_startup = Startup_complete, lf_shutdown = Shutdown_done\<rparr>))"
  using startup_drives_every_surface [of "[\<lparr>lf_startup = Startup_complete, lf_shutdown = Shutdown_done\<rparr>,
       \<lparr>lf_startup = Startup_complete, lf_shutdown = Shutdown_done\<rparr>]"]
  by (simp add: numeral_2_eq_2)


section \<open>The wired components\<close>


definition database_ok :: "row list \<times> int \<times> (pystr \<times> int) list \<Rightarrow> bool" where
  "database_ok db = (case db of (rs, sq, ps) \<Rightarrow>
     (\<forall>r \<in> set rs. row_ok r \<and> 1 \<le> r_id r \<and> r_id r \<le> sq) \<and> sorted_wrt (<) (map r_id rs) \<and> 0 \<le> sq
       \<and> distinct (map fst ps))"

lemma wire_clients_names: "wire_clients is = Some cs \<Longrightarrow> map fst cs = map fst is"
proof (induction "is" arbitrary: cs rule: wire_clients.induct)
  case (2 n i rest)
  then show ?case by (auto split: pyval.splits)
qed simp

lemma store_inv_database:
  assumes "database_ok (rs, sq, ps)" "0 < dd"
  shows "store_inv (open_store rs sq ps pt dd al ck)"
proof -
  have "row_ok (r\<lparr>r_state := Rejected, r_state_source := Some Restart_discard\<rparr>)" if "row_ok r" "r_state r = Pending" for r
    using that by (simp add: row_ok_def)
  moreover have "map r_id (map (\<lambda>r. if r_state r = Pending
       then r\<lparr>r_state := Rejected, r_state_source := Some Restart_discard\<rparr> else r) rs) = map r_id rs"
    by simp
  ultimately show ?thesis
    using assms unfolding store_inv_def open_store_def restart_discard_pending_def database_ok_def
    by (auto simp del: map_map)
qed

text \<open>What the wiring establishes: the state from which the broker starts.\<close>

definition broker_ready :: "config \<Rightarrow> 'd server \<Rightarrow> bool" where
  "broker_ready cfg sv \<longleftrightarrow> store_inv (sv_store sv) \<and> w_audit (sv_world sv) \<noteq> None \<and> w_trace (sv_world sv) = []
     \<and> (\<forall>r \<in> set (rows (sv_store sv)). r_state r \<noteq> Pending)
     \<and> allowed_instances (sv_store sv) = Some (map fst (cf_instances cfg))
     \<and> map fst (l_clients (sv_layer sv)) = map fst (cf_instances cfg)
     \<and> set (l_discovery (sv_layer sv)) \<subseteq> set (map fst (cf_instances cfg))
     \<and> b_approver (sv_bot sv) = mx_approver (cf_matrix cfg) \<and> validate_bind_host (sv_bind_host sv) = None"

lemma wire_server_ready:
  assumes "wire_server pr cfg path clients host = Inr sv" "map fst clients = map fst (cf_instances cfg)"
    and "\<forall>path. database_ok (pr_database pr path)"
  shows "broker_ready cfg sv"
proof -
  obtain al where al: "open_log (pr_float pr) [] (pr_files pr path) = Inr al"
    using assms(1) by (auto simp: wire_server_def split: sum.splits)
  let ?s = "wire_store pr cfg path"
  obtain rs sq ps where db: "pr_database pr (audit_dir path @ lit ''/grants.sqlite3'') = (rs, sq, ps)"
    by (metis prod_cases3)
  have inv: "store_inv ?s"
    using store_inv_database [of rs sq ps] assms(3) db
    by (auto simp: wire_store_def DEFAULT_GRANT_DURATION_def MICROSECONDS_def dest: spec
        [of _ "audit_dir path @ lit ''/grants.sqlite3''"])
  have "store_inv (?s\<lparr>allowed_instances := al'\<rparr>)" for al'
    using inv by (simp add: store_inv_def)
  moreover have "\<forall>r \<in> set (rows ?s). r_state r \<noteq> Pending"
    by (auto simp: wire_store_def open_store_def restart_discard_pending_def split: prod.split)
  moreover have "validate_bind_host host = None" "sv = \<lparr>sv_layer = wire_layer (pr_params pr) cfg clients,
      sv_world = (wire_world pr path al ?s)\<lparr>w_store := ?s\<lparr>allowed_instances := Some (map fst (cf_instances cfg))\<rparr>\<rparr>,
      sv_bot = wire_bot pr cfg ?s, sv_token = ag_token (cf_agent cfg), sv_bind_host = host,
      sv_port = sc_port (cf_server cfg), sv_audit_text = pr_audit_text pr\<rparr>"
    using assms(1) al
    by (auto simp: wire_server_def Let_def new_server_def wire_world_def split: option.splits sum.splits)
  ultimately show ?thesis
    using assms(2) by (auto simp: broker_ready_def wire_world_def wire_layer_def wire_bot_def discovery_names_def)
qed

lemma wired_is_ready:
  assumes "wire_components pr cfg = (Inr sv, lg, ls)" "\<forall>path. database_ok (pr_database pr path)"
  shows "broker_ready cfg sv"
proof -
  obtain path clients host where "wire_server pr cfg path clients host = Inr sv"
    "wire_clients (cf_instances cfg) = Some clients"
    using assms(1)
    by (auto simp: wire_components_def Let_def split: sum.splits option.splits pyval.splits)
  then show ?thesis using wire_server_ready wire_clients_names assms(2) by blast
qed

lemma wired_log_filter:
  assumes "wire_components pr cfg = (Inr sv, lg, ls)"
  shows "\<exists>level. lg = setup_logging level (config_secrets cfg) (pr_logger pr)"
  using assms
  by (auto simp: wire_components_def Let_def split: sum.splits option.splits pyval.splits)

lemma filter_secrets_idem: "new_filter (config_secrets cfg) = config_secrets cfg"
  by (simp add: new_filter_def config_secrets_def)

end
