(* ===== verification/Markdown_Render.thy ===== *)
theory Markdown_Render
  imports Py_Regex
begin

text \<open>
  The rendering of the bot's messages, \<open>broker/markdown_render.py\<close>: fences, code spans, bold text
  and the escaping of everything else; and what the result is: HTML whose only tags are the seven
  the module writes, and which shows nothing that is not in the message. Whether a character
  beyond ASCII is a word character is the parameter \<open>wd\<close>.
\<close>

section \<open>Splitting and substitution\<close>

text \<open>\<open>re.split\<close> with one group around the pattern, for a pattern that matches no empty string: the
  texts between the matches and the matches in turn.\<close>

function re_split :: "re \<Rightarrow> pystr \<Rightarrow> pystr list" where
  "re_split r [] = [[]]"
| "re_split r (x # xs) =
     (case re_match r (x # xs) of
        None \<Rightarrow> (case re_split r xs of [] \<Rightarrow> [[x]] | p # ps \<Rightarrow> (x # p) # ps)
      | Some (rest, _) \<Rightarrow>
          if length rest < length (x # xs)
          then [] # take (length (x # xs) - length rest) (x # xs) # re_split r rest
          else (case re_split r xs of [] \<Rightarrow> [[x]] | p # ps \<Rightarrow> (x # p) # ps))"
  by pat_completeness auto
termination
  by (relation "measure (\<lambda>(r, s). length s)") auto

declare re_split.simps(2) [simp del]

text \<open>\<open>re.sub\<close> with a function of the match, for a pattern that matches no empty string.\<close>

function re_sub_with :: "re \<Rightarrow> (captures \<Rightarrow> pystr) \<Rightarrow> pystr \<Rightarrow> pystr" where
  "re_sub_with r f [] = []"
| "re_sub_with r f (x # xs) =
     (case re_match r (x # xs) of
        None \<Rightarrow> x # re_sub_with r f xs
      | Some (rest, c) \<Rightarrow>
          if length rest < length (x # xs) then f c @ re_sub_with r f rest
          else x # re_sub_with r f xs)"
  by pat_completeness auto
termination
  by (relation "measure (\<lambda>(r, f, s). length s)") auto

declare re_sub_with.simps(2) [simp del]

section \<open>The rendering\<close>

text \<open>\<open>html.escape(s, quote=False)\<close> of one character.\<close>

definition escape_cp :: "cp \<Rightarrow> pystr" where
  "escape_cp c =
     (if c = 38 then lit ''&amp;'' else if c = 60 then lit ''&lt;'' else if c = 62 then lit ''&gt;'' else [c])"

definition html_escape :: "pystr \<Rightarrow> pystr" where
  "html_escape s = concat (map escape_cp s)"

definition FENCE :: pystr where
  "FENCE = [96, 96, 96]"

definition FENCE_RE :: re where
  "FENCE_RE = Seq (str_re FENCE) (Seq (Rep True 0 None (\<lambda>c. c \<noteq> 10)) (Seq (chr_re 10)
     (Seq (Rep False 0 None (\<lambda>c. True)) (str_re FENCE))))"

definition word_char :: "(cp \<Rightarrow> bool) \<Rightarrow> cp \<Rightarrow> bool" where
  "word_char wd c \<longleftrightarrow> 48 \<le> c \<and> c \<le> 57 \<or> 65 \<le> c \<and> c \<le> 90 \<or> 97 \<le> c \<and> c \<le> 122 \<or> c = 95 \<or> 128 \<le> c \<and> wd c"

definition OPENING_RE :: "(cp \<Rightarrow> bool) \<Rightarrow> re" where
  "OPENING_RE wd = Seq (str_re FENCE) (Seq (Rep True 0 None (word_char wd)) (chr_re 10))"

definition CLOSING_RE :: re where
  "CLOSING_RE = Seq (chr_re 10) (Seq (str_re FENCE) (Seq (Rep True 0 None py_isspace) Eos))"

definition BOLD_RE :: re where
  "BOLD_RE = Seq (str_re [42, 42]) (Seq (Grp 1 (Rep False 1 None (\<lambda>c. True))) (str_re [42, 42]))"

definition CODE_RE :: re where
  "CODE_RE = Seq (chr_re 96) (Seq (Grp 1 (Rep True 1 None (\<lambda>c. c \<noteq> 96 \<and> c \<noteq> 10))) (chr_re 96))"

text \<open>\<open>m.group(1)\<close>, in which both groups always take part.\<close>

definition group1 :: "captures \<Rightarrow> pystr" where
  "group1 c = (case re_group c 1 of None \<Rightarrow> [] | Some g \<Rightarrow> g)"

definition inline_to_html :: "pystr \<Rightarrow> pystr" where
  "inline_to_html t =
     (let escaped = html_escape t;
          coded = re_sub_with CODE_RE (\<lambda>m. lit ''<code>'' @ group1 m @ lit ''</code>'') escaped;
          bold = re_sub_with BOLD_RE (\<lambda>m. lit ''<strong>'' @ group1 m @ lit ''</strong>'') coded
      in py_replace [10] (lit ''<br/>'') bold)"

text \<open>A fence: its first line is dropped when it is only the marker and a word, its last when it is
  only the marker.\<close>

definition fence_to_html :: "(cp \<Rightarrow> bool) \<Rightarrow> pystr \<Rightarrow> pystr" where
  "fence_to_html wd part =
     (let opened = (case re_match (OPENING_RE wd) part of None \<Rightarrow> part | Some (rest, _) \<Rightarrow> rest);
          body = re_sub CLOSING_RE [10] opened
      in lit ''<pre><code>'' @ html_escape body @ lit ''</code></pre>'')"

fun render_parts :: "(cp \<Rightarrow> bool) \<Rightarrow> bool \<Rightarrow> pystr list \<Rightarrow> pystr" where
  "render_parts wd fenced [] = []"
| "render_parts wd fenced (p # ps) =
     (if fenced then fence_to_html wd p else inline_to_html p) @ render_parts wd (\<not> fenced) ps"

definition text_to_html :: "(cp \<Rightarrow> bool) \<Rightarrow> pystr \<Rightarrow> pystr" where
  "text_to_html wd t = render_parts wd False (re_split FENCE_RE t)"

section \<open>What the HTML shows\<close>

definition TAGS :: "pystr list" where
  "TAGS = [lit ''<strong>'', lit ''</strong>'', lit ''<code>'', lit ''</code>'', lit ''<pre><code>'', lit ''</code></pre>'']"

text \<open>HTML of escaped characters, line breaks and the module's tags, with the text it shows.\<close>

inductive shows_text :: "pystr \<Rightarrow> pystr \<Rightarrow> bool" where
  empty: "shows_text [] []"
| character: "shows_text v s \<Longrightarrow> shows_text (c # v) (escape_cp c @ s)"
| break: "shows_text v s \<Longrightarrow> shows_text (10 # v) (lit ''<br/>'' @ s)"
| tag: "shows_text v s \<Longrightarrow> t \<in> set TAGS \<Longrightarrow> shows_text v (t @ s)"

lemma shows_append: "shows_text u s \<Longrightarrow> shows_text v t \<Longrightarrow> shows_text (u @ v) (s @ t)"
  by (induction rule: shows_text.induct) (auto intro: shows_text.intros)

lemma shows_escape: "shows_text s (html_escape s)"
  by (induction s) (auto simp: html_escape_def intro: shows_text.intros)

text \<open>A character that occurs in no tag and no entity.\<close>

definition separate :: "cp \<Rightarrow> bool" where
  "separate c \<longleftrightarrow> c \<notin> set (concat TAGS) \<union> set (lit ''<br/>&amp;&lt;&gt;'')"

lemma separate_marks [simp]: "separate 42" "separate 96" "separate 10"
  by (simp_all add: separate_def TAGS_def lit_def)

lemma escape_separate: "separate c \<Longrightarrow> c \<in> set (escape_cp d) \<Longrightarrow> d = c \<and> escape_cp c = [c]"
  by (auto simp: separate_def escape_cp_def lit_def split: if_splits)

lemma shows_split:
  assumes "shows_text v s" "s = a @ c # b" "separate c"
  obtains va vb where "v = va @ c # vb" "shows_text va a" "shows_text vb b"
  using assms
proof (induction arbitrary: a thesis rule: shows_text.induct)
  case empty
  then show ?case by simp
next
  case (character v s d)
  show ?case
  proof (cases "d = c")
    case True
    then have e: "escape_cp d = [c]" using character.prems(3) by (auto simp: separate_def escape_cp_def lit_def)
    show ?thesis
    proof (cases a)
      case Nil
      with e character show ?thesis using character.prems(1) [of "[]" v] True by (auto intro: shows_text.intros)
    next
      case (Cons x a')
      with e character.prems(2) have "x = c" "s = a' @ c # b" by simp_all
      from character.IH [OF _ this(2) character.prems(3)] obtain va vb where
        "v = va @ c # vb" "shows_text va a'" "shows_text vb b" by metis
      moreover have "shows_text (d # va) (escape_cp d @ a')"
        using calculation(2) by (rule shows_text.character)
      ultimately show ?thesis using character.prems(1) [of "d # va" vb] Cons e \<open>x = c\<close> by simp
    qed
  next
    case False
    have "c \<notin> set (escape_cp d)" using escape_separate [OF character.prems(3)] False by blast
    then obtain a' where a': "a = escape_cp d @ a'" "s = a' @ c # b"
      using character.prems(2) by (auto simp: append_eq_append_conv2 append_eq_Cons_conv)
    from character.IH [OF _ a'(2) character.prems(3)] obtain va vb where
      "v = va @ c # vb" "shows_text va a'" "shows_text vb b" by metis
    with a' show ?thesis using character.prems(1) [of "d # va" vb] by (auto intro: shows_text.intros)
  qed
next
  case (break v s)
  have "c \<notin> set (lit ''<br/>'')" using break.prems(3) by (auto simp: separate_def lit_def)
  then obtain a' where a': "a = lit ''<br/>'' @ a'" "s = a' @ c # b"
    using break.prems(2) by (auto simp: append_eq_append_conv2 append_eq_Cons_conv)
  from break.IH [OF _ a'(2) break.prems(3)] obtain va vb where
    "v = va @ c # vb" "shows_text va a'" "shows_text vb b" by metis
  with a' show ?case using break.prems(1) [of "10 # va" vb] by (auto intro: shows_text.intros)
next
  case (tag v s t)
  have "c \<notin> set t" using tag.prems(3) tag.hyps(2) by (auto simp: separate_def)
  then obtain a' where a': "a = t @ a'" "s = a' @ c # b"
    using tag.prems(2) by (auto simp: append_eq_append_conv2 append_eq_Cons_conv)
  from tag.IH [OF _ a'(2) tag.prems(3)] obtain va vb where
    "v = va @ c # vb" "shows_text va a'" "shows_text vb b" by metis
  with a' tag.hyps(2) show ?case using tag.prems(1) [of va vb] by (auto intro: shows_text.intros)
qed


lemma shows_Nil: "shows_text v [] \<Longrightarrow> v = []"
  by (cases rule: shows_text.cases) (auto simp: escape_cp_def TAGS_def lit_def split: if_splits)

lemma shows_strip: "shows_text w (m @ b) \<Longrightarrow> \<forall>x \<in> set m. separate x \<Longrightarrow> \<exists>vb. w = m @ vb \<and> shows_text vb b"
proof (induction m arbitrary: w)
  case (Cons x m)
  have x: "separate x" using Cons.prems(2) by simp
  obtain va w' where s: "w = va @ x # w'" "shows_text va []" "shows_text w' (m @ b)"
    using shows_split [OF Cons.prems(1) _ x, of "[]" "m @ b"] by auto
  with Cons.IH [OF s(3)] Cons.prems(2) show ?case using shows_Nil [OF s(2)] by auto
qed simp

lemma shows_around:
  assumes "shows_text v (a @ m @ b)" "m \<noteq> []" "\<forall>x \<in> set m. separate x"
  obtains va vb where "v = va @ m @ vb" "shows_text va a" "shows_text vb b"
proof -
  obtain x m' where m: "m = x # m'" using assms(2) by (cases m) auto
  have x: "separate x" using assms(3) m by simp
  obtain va w where s: "v = va @ x # w" "shows_text va a" "shows_text w (m' @ b)"
    using shows_split [OF assms(1) _ x, of a "m' @ b"] m by auto
  obtain vb where "w = m' @ vb" "shows_text vb b" using shows_strip [OF s(3)] assms(3) m by auto
  with s m that show thesis by simp
qed

section \<open>The substitutions\<close>

text \<open>A pattern that matches a text between two markers.\<close>

definition marks :: "re \<Rightarrow> pystr \<Rightarrow> bool" where
  "marks r m \<longleftrightarrow> m \<noteq> [] \<and> (\<forall>x \<in> set m. separate x)
     \<and> (\<forall>s rest c. re_match r s = Some (rest, c) \<longrightarrow> s = m @ group1 c @ m @ rest)"

lemma re_match_mem: "re_match r s = Some x \<Longrightarrow> x \<in> set (re_all r s [])"
  by (cases "re_all r s []") (auto simp: re_match_def)

lemma re_all_SeqD:
  "x \<in> set (re_all (Seq a b) s c) \<Longrightarrow> \<exists>s1 c1. (s1, c1) \<in> set (re_all a s c) \<and> x \<in> set (re_all b s1 c1)"
  by auto

lemma re_all_chrD: "(s', c') \<in> set (re_all (chr_re x) s c) \<Longrightarrow> s = x # s' \<and> c' = c"
  by (auto simp: chr_re_def split: list.splits if_splits)

lemma re_all_strD: "(s', c') \<in> set (re_all (str_re m) s c) \<Longrightarrow> s = m @ s' \<and> c' = c"
proof (induction m arbitrary: s rule: str_re.induct)
  case (3 x y m)
  obtain s1 c1 where "(s1, c1) \<in> set (re_all (chr_re x) s c)" "(s', c') \<in> set (re_all (str_re (y # m)) s1 c1)"
    using re_all_SeqD [OF 3(2) [unfolded str_re.simps]] by blast
  with 3(1) re_all_chrD show ?case by fastforce
qed (auto dest: re_all_chrD)

lemma re_all_groupD:
  assumes "(s', c') \<in> set (re_all (Grp i (Rep g lo hi p)) s c)"
  shows "\<exists>u. s = u @ s' \<and> c' = (i, u) # c"
proof -
  obtain c1 where 1: "(s', c1) \<in> set (re_all (Rep g lo hi p) s c)" "c' = (i, take (length s - length s') s) # c1"
    using assms unfolding re_all.simps(7) by auto
  obtain u where "s = u @ s'" using re_all_suffix [OF 1(1)] by blast
  moreover have "c1 = c" using 1(1) by auto
  ultimately show ?thesis using 1(2) by simp
qed

lemma marked_match:
  assumes "(rest, c) \<in> set (re_all (Seq (str_re m) (Seq (Grp 1 (Rep g lo hi p)) (str_re m))) s [])"
  shows "s = m @ group1 c @ m @ rest"
proof -
  obtain s1 c1 where 1: "(s1, c1) \<in> set (re_all (str_re m) s [])"
      "(rest, c) \<in> set (re_all (Seq (Grp 1 (Rep g lo hi p)) (str_re m)) s1 c1)"
    using re_all_SeqD [OF assms] by blast
  obtain s2 c2 where 2: "(s2, c2) \<in> set (re_all (Grp 1 (Rep g lo hi p)) s1 c1)" "(rest, c) \<in> set (re_all (str_re m) s2 c2)"
    using re_all_SeqD [OF 1(2)] by blast
  obtain u where "s1 = u @ s2" "c2 = (1, u) # c1" using re_all_groupD [OF 2(1)] by blast
  with re_all_strD [OF 1(1)] re_all_strD [OF 2(2)] show ?thesis by (auto simp: group1_def re_group_def)
qed

lemma marks_code: "marks CODE_RE [96]"
  using marked_match [where m = "[96]"] by (auto simp: marks_def CODE_RE_def dest!: re_match_mem simp del: re_all.simps)

lemma marks_bold: "marks BOLD_RE [42, 42]"
  using marked_match [where m = "[42, 42]"] by (auto simp: marks_def BOLD_RE_def dest!: re_match_mem simp del: re_all.simps)

text \<open>Text without the marks.\<close>

definition unmarked :: "pystr \<Rightarrow> pystr" where
  "unmarked s = filter (\<lambda>c. c \<noteq> 42 \<and> c \<noteq> 96) s"

lemma unmarked_append [simp]: "unmarked (a @ b) = unmarked a @ unmarked b" "unmarked [42, 42] = []" "unmarked [96] = []"
  by (simp_all add: unmarked_def)

lemma sub_shows:
  assumes "marks r m" "unmarked m = []" "opening \<in> set TAGS" "closing \<in> set TAGS"
  shows "shows_text v (a @ s) \<Longrightarrow> \<exists>v'. shows_text v' (a @ re_sub_with r (\<lambda>c. opening @ group1 c @ closing) s)
    \<and> subseq v' v \<and> unmarked v' = unmarked v"
proof (induction "length s" arbitrary: s a v rule: less_induct)
  case less
  let ?f = "\<lambda>c. opening @ group1 c @ closing"
  show ?case
  proof (cases s)
    case Nil
    with less.prems show ?thesis by auto
  next
    case (Cons x xs)
    have skip: ?thesis if "re_sub_with r ?f s = x # re_sub_with r ?f xs"
      using less.hyps [of xs v "a @ [x]"] less.prems Cons that by simp
    show ?thesis
    proof (cases "re_match r s")
      case None
      with Cons skip show ?thesis by (simp add: re_sub_with.simps(2))
    next
      case (Some y)
      obtain rest c where y: "y = (rest, c)" by fastforce
      have s: "s = m @ group1 c @ m @ rest" and m: "m \<noteq> []" "\<forall>x \<in> set m. separate x"
        using assms(1) Some y by (simp_all add: marks_def)
      have "length s = length m + length (group1 c) + length m + length rest" using arg_cong [OF s, of length] by simp
      then have shorter: "length rest < length s" using m(1) by simp
      with Some y Cons have sub: "re_sub_with r ?f s = ?f c @ re_sub_with r ?f rest" "length rest < length s"
        by (simp_all add: re_sub_with.simps(2))
      have "shows_text v (a @ m @ (group1 c @ m @ rest))" using less.prems s by simp
      then obtain va w where 1: "v = va @ m @ w" "shows_text va a" "shows_text w (group1 c @ m @ rest)"
        by (rule shows_around [OF _ m])
      from 1(3) obtain vg vr where 2: "w = vg @ m @ vr" "shows_text vg (group1 c)" "shows_text vr rest"
        by (rule shows_around [OF _ m])
      have "shows_text (va @ vg @ vr) ((a @ ?f c) @ rest)"
        using shows_append [OF 1(2) shows_text.tag [OF shows_append [OF 2(2) shows_text.tag [OF 2(3) assms(4)]] assms(3)]]
        by simp
      from less.hyps [OF sub(2) this] obtain v' where v': "shows_text v' ((a @ ?f c) @ re_sub_with r ?f rest)"
        "subseq v' (va @ vg @ vr)" "unmarked v' = unmarked (va @ vg @ vr)" by blast
      have "subseq (vg @ vr) (vg @ m @ vr)"
        by (intro list_emb_append_mono subseq_order.refl subseq_drop_many)
      then have "subseq (va @ vg @ vr) v"
        unfolding 1(1) 2(1) by (intro list_emb_append_mono subseq_order.refl subseq_drop_many)
      moreover have "unmarked (va @ vg @ vr) = unmarked v" by (simp add: 1(1) 2(1) assms(2))
      ultimately show ?thesis using v' sub(1) by (auto intro: subseq_order.trans)
    qed
  qed
qed


lemma replace_cp: "py_replace [c] new s = concat (map (\<lambda>x. if x = c then new else [x]) s)"
  by (induction s) (auto simp: py_replace.simps(2))

lemma break_shows:
  "shows_text v (a @ s) \<Longrightarrow> shows_text v (a @ py_replace [10] (lit ''<br/>'') s)"
proof (induction s arbitrary: a)
  case (Cons x s)
  show ?case
  proof (cases "x = 10")
    case True
    then obtain va vb where v: "v = va @ 10 # vb" "shows_text va a" "shows_text vb s"
      using shows_split [OF Cons.prems, of a 10 s] by auto
    have "shows_text v ((a @ lit ''<br/>'') @ s)"
      using shows_append [OF v(2) shows_text.break [OF v(3)]] v(1) by simp
    from Cons.IH [OF this] True show ?thesis by (simp add: replace_cp)
  next
    case False
    with Cons.IH [of "a @ [x]"] Cons.prems show ?thesis by (simp add: replace_cp)
  qed
qed simp

lemma inline_shows:
  obtains v where "shows_text v (inline_to_html t)" "subseq v t" "unmarked v = unmarked t"
proof -
  have tags: "lit ''<code>'' \<in> set TAGS" "lit ''</code>'' \<in> set TAGS" "lit ''<strong>'' \<in> set TAGS"
    "lit ''</strong>'' \<in> set TAGS"
    by (simp_all add: TAGS_def)
  obtain u where u: "shows_text u (re_sub_with CODE_RE (\<lambda>m. lit ''<code>'' @ group1 m @ lit ''</code>'') (html_escape t))"
      "subseq u t" "unmarked u = unmarked t"
    using sub_shows [OF marks_code _ tags(1,2), of t "[]"] shows_escape by auto
  obtain v where "shows_text v (re_sub_with BOLD_RE (\<lambda>m. lit ''<strong>'' @ group1 m @ lit ''</strong>'')
      (re_sub_with CODE_RE (\<lambda>m. lit ''<code>'' @ group1 m @ lit ''</code>'') (html_escape t)))"
      "subseq v u" "unmarked v = unmarked u"
    using sub_shows [OF marks_bold _ tags(3,4), of u "[]"] u(1) by auto
  with u break_shows [of v "[]"] that show thesis
    by (auto simp: inline_to_html_def Let_def intro: subseq_order.trans)
qed

section \<open>Fences\<close>

lemma subseq_sub: "(\<And>s rest c. re_match r s = Some (rest, c) \<Longrightarrow> \<exists>u. s = x # u @ rest) \<Longrightarrow> subseq (re_sub r [x] s) s"
proof (induction "length s" arbitrary: s rule: less_induct)
  case less
  show ?case
  proof (cases s)
    case (Cons y ys)
    have ys: "subseq (re_sub r [x] ys) ys" using less Cons by simp
    show ?thesis
    proof (cases "re_match r s")
      case None
      with Cons ys show ?thesis by (simp add: re_sub.simps(2))
    next
      case (Some z)
      obtain rest c where z: "z = (rest, c)" by fastforce
      then obtain u where u: "s = x # u @ rest" using less.prems Some by blast
      then have "subseq (re_sub r [x] rest) rest" using less by simp
      then have "subseq (x # re_sub r [x] rest) s" unfolding u by (simp add: subseq_drop_many)
      moreover have "re_sub r [x] s = x # re_sub r [x] rest"
        using Some z Cons u by (auto simp: re_sub.simps(2))
      ultimately show ?thesis by simp
    qed
  qed simp
qed

lemma closing_match:
  assumes "re_match CLOSING_RE s = Some (rest, c)"
  shows "\<exists>u. s = 10 # u @ rest"
proof -
  obtain s1 c1 where "(s1, c1) \<in> set (re_all (chr_re 10) s [])"
    "(rest, c) \<in> set (re_all (Seq (str_re FENCE) (Seq (Rep True 0 None py_isspace) Eos)) s1 c1)"
    using re_all_SeqD re_match_mem [OF assms] unfolding CLOSING_RE_def by blast
  then have "s = 10 # s1" "\<exists>u. s1 = u @ rest" by (blast dest: re_all_chrD re_all_suffix)+
  then show ?thesis by auto
qed

lemma fence_shows:
  obtains v where "shows_text v (fence_to_html wd part)" "subseq v part"
proof -
  define opened where "opened = (case re_match (OPENING_RE wd) part of None \<Rightarrow> part | Some (rest, _) \<Rightarrow> rest)"
  have "subseq opened part"
  proof (cases "re_match (OPENING_RE wd) part")
    case (Some y)
    obtain rest c where y: "y = (rest, c)" by fastforce
    obtain u where "part = u @ rest" using re_all_suffix [OF re_match_mem [OF Some [unfolded y]]] by blast
    then show ?thesis using Some y by (simp add: opened_def subseq_drop_many)
  qed (simp add: opened_def)
  then have "subseq (re_sub CLOSING_RE [10] opened) part"
    using subseq_sub [of CLOSING_RE 10 opened] closing_match subseq_order.trans by blast
  moreover have "shows_text (re_sub CLOSING_RE [10] opened) (fence_to_html wd part)"
    using shows_text.tag [OF shows_append [OF shows_escape shows_text.tag [OF shows_text.empty]]]
    by (simp add: fence_to_html_def opened_def Let_def TAGS_def)
  ultimately show thesis using that by blast
qed

lemma concat_split: "concat (re_split r s) = s"
proof (induction r s rule: re_split.induct)
  case (2 r x xs)
  have skip: "concat (case re_split r xs of [] \<Rightarrow> [[x]] | p # ps \<Rightarrow> (x # p) # ps) = x # concat (re_split r xs)"
    by (cases "re_split r xs") auto
  show ?case
  proof (cases "re_match r (x # xs)")
    case None
    then have "re_split r (x # xs) = (case re_split r xs of [] \<Rightarrow> [[x]] | p # ps \<Rightarrow> (x # p) # ps)"
      by (simp add: re_split.simps(2))
    then show ?thesis using skip 2(1) [OF None] by simp
  next
    case (Some y)
    obtain rest c where y: "y = (rest, c)" by fastforce
    show ?thesis
    proof (cases "length rest < length (x # xs)")
      case True
      then have "re_split r (x # xs) = [] # take (length (x # xs) - length rest) (x # xs) # re_split r rest"
        using Some y by (simp add: re_split.simps(2))
      moreover obtain u where u: "x # xs = u @ rest" using re_all_suffix [OF re_match_mem [OF Some [unfolded y]]] by blast
      moreover have "concat (re_split r rest) = rest" by (rule 2(2) [OF Some y [symmetric] True])
      ultimately show ?thesis by simp
    next
      case False
      then have "re_split r (x # xs) = (case re_split r xs of [] \<Rightarrow> [[x]] | p # ps \<Rightarrow> (x # p) # ps)"
        using Some y by (simp add: re_split.simps(2))
      then show ?thesis using skip 2(3) [OF Some y [symmetric] False] by simp
    qed
  qed
qed simp

lemma part_shows: "\<exists>v. shows_text v (if fenced then fence_to_html wd p else inline_to_html p) \<and> subseq v p"
proof (cases fenced)
  case True
  show ?thesis by (rule fence_shows [of wd p]) (use True in auto)
next
  case False
  show ?thesis by (rule inline_shows [of p]) (use False in auto)
qed

lemma render_shows: "\<exists>v. shows_text v (render_parts wd fenced ps) \<and> subseq v (concat ps)"
proof (induction ps arbitrary: fenced)
  case (Cons p ps)
  obtain v where v: "shows_text v (render_parts wd (\<not> fenced) ps)" "subseq v (concat ps)" using Cons by blast
  obtain u where u: "shows_text u (if fenced then fence_to_html wd p else inline_to_html p)" "subseq u p"
    using part_shows by blast
  have "shows_text (u @ v) (render_parts wd fenced (p # ps))"
    using shows_append [OF u(1) v(1)] by simp
  moreover have "subseq (u @ v) (concat (p # ps))"
    using list_emb_append_mono [OF u(2) v(2)] by simp
  ultimately show ?case by blast
qed (auto intro: shows_text.empty)

text \<open>C37: no message can inject markup into the room. Whatever text is rendered, the HTML is made of
  escaped characters, line breaks and the seven tags of the module, and what it shows is a
  subsequence of the text. Outside fences it shows all of it, except for the asterisks and
  backticks that became tags.\<close>

theorem render_shows_only_the_text:
  "(\<exists>v. shows_text v (text_to_html wd t) \<and> subseq v t)
    \<and> (\<exists>v. shows_text v (inline_to_html t) \<and> subseq v t \<and> unmarked v = unmarked t)"
proof
  show "\<exists>v. shows_text v (text_to_html wd t) \<and> subseq v t"
    using render_shows [of wd False "re_split FENCE_RE t"] by (simp add: text_to_html_def concat_split)
  show "\<exists>v. shows_text v (inline_to_html t) \<and> subseq v t \<and> unmarked v = unmarked t"
    using inline_shows by metis
qed

end
