(* ===== verification/Nio_Transport.thy ===== *)
theory Nio_Transport
  imports Matrixbot Markdown_Render
begin

text \<open>
  The Matrix transport and the listener, \<open>broker/nio_transport.py\<close>. The library \<open>matrix-nio\<close> is
  not modelled: a call of the client gives a response, another object, or an exception, and a
  call of \<open>sync\<close> runs the callbacks on the events it delivers, in order, until one raises, and
  then returns or raises itself.

  The listener is defined over what runs an input of the bot, so that it can drive the bot alone
  or the bot inside the server. The inputs it has dispatched are kept as a history.
\<close>

section \<open>Sending\<close>

definition message_content :: "(cp \<Rightarrow> bool) \<Rightarrow> pystr \<Rightarrow> pyval" where
  "message_content wd body =
     PDict [(lit ''msgtype'', PStr (lit ''m.text'')), (lit ''body'', PStr body),
       (lit ''format'', PStr (lit ''org.matrix.custom.html'')),
       (lit ''formatted_body'', PStr (text_to_html wd body))]"

definition reaction_content :: "pystr \<Rightarrow> pystr \<Rightarrow> pyval" where
  "reaction_content event_id emoji =
     PDict [(lit ''m.relates_to'', PDict [(lit ''rel_type'', PStr (lit ''m.annotation'')),
       (lit ''event_id'', PStr event_id), (lit ''key'', PStr emoji)])]"

text \<open>What \<open>room_send\<close> gives: a \<open>RoomSendResponse\<close>, another response with its text, or an
  exception.\<close>

datatype send_result = Room_send_response pystr | Other_response pystr | Send_raises bot_error

definition send_message :: "send_result \<Rightarrow> net_outcome" where
  "send_message resp =
     (case resp of
        Room_send_response event_id \<Rightarrow> Net_ok event_id
      | Other_response t \<Rightarrow> Net_fails (Unreachable (lit ''send failed: '' @ t))
      | Send_raises e \<Rightarrow> Net_fails e)"

definition send_reaction :: "send_result \<Rightarrow> net_outcome" where
  "send_reaction resp =
     (case resp of
        Room_send_response _ \<Rightarrow> Net_ok []
      | Other_response t \<Rightarrow> Net_fails (Unreachable (lit ''reaction failed: '' @ t))
      | Send_raises e \<Rightarrow> Net_fails e)"

text \<open>\<open>whoami\<close>, from the attribute \<open>user_id\<close> of the response, if it has one, and its text.\<close>

definition whoami :: "pystr option \<Rightarrow> pystr \<Rightarrow> pyval" where
  "whoami user_id t =
     (case user_id of
        Some u \<Rightarrow> PDict [(lit ''ok'', PBool True), (lit ''user_id'', PStr u)]
      | None \<Rightarrow> PDict [(lit ''ok'', PBool False), (lit ''error'', PStr t)])"

section \<open>The events of the room\<close>

datatype event_body = Reaction_event pystr pystr | Text_event pystr | Other_event

record matrix_event =
  me_room :: pystr
  me_id :: "pystr option"
  me_sender :: pystr
  me_body :: event_body

record 'b listener =
  ls_room :: pystr
  ls_user :: pystr
  ls_since :: "pystr option"
  ls_seen :: "pystr set"
  ls_bot :: 'b
  ls_handled :: "(matrix_event \<times> bot_input) list"

type_synonym 'b bot_runner = "bot_input \<Rightarrow> 'b \<Rightarrow> (bot_error + unit) \<times> 'b"

definition new_listener :: "pystr \<Rightarrow> pystr \<Rightarrow> 'b \<Rightarrow> 'b listener" where
  "new_listener room user b =
     \<lparr>ls_room = room, ls_user = user, ls_since = None, ls_seen = {}, ls_bot = b, ls_handled = []\<rparr>"

text \<open>An invitation is accepted whatever the room.\<close>

definition on_invite :: "bool \<Rightarrow> pystr \<Rightarrow> pystr \<Rightarrow> pystr option" where
  "on_invite is_invite membership room_id =
     (if is_invite \<and> membership = lit ''invite'' then Some room_id else None)"

definition hand_over ::
  "'b bot_runner \<Rightarrow> matrix_event \<Rightarrow> bot_input \<Rightarrow> 'b listener \<Rightarrow> (bot_error + unit) \<times> 'b listener" where
  "hand_over run ev input ls =
     (case run input (ls_bot ls) of
        (r, b) \<Rightarrow> (r, ls\<lparr>ls_bot := b, ls_handled := ls_handled ls @ [(ev, input)]\<rparr>))"

text \<open>\<open>on_event\<close>. An id that is missing or empty is never remembered.\<close>

definition on_event :: "'b bot_runner \<Rightarrow> matrix_event \<Rightarrow> 'b listener \<Rightarrow> (bot_error + unit) \<times> 'b listener" where
  "on_event run ev ls =
     (if me_room ev \<noteq> ls_room ls then (Inr (), ls)
      else (let eid = (case me_id ev of Some e \<Rightarrow> if e = [] then None else Some e | None \<Rightarrow> None)
            in if (case eid of Some e \<Rightarrow> e \<in> ls_seen ls | None \<Rightarrow> False) then (Inr (), ls)
               else (let ls1 = (case eid of Some e \<Rightarrow> ls\<lparr>ls_seen := insert e (ls_seen ls)\<rparr> | None \<Rightarrow> ls)
                     in case me_body ev of
                          Reaction_event target key \<Rightarrow> hand_over run ev (Reaction (me_sender ev) target key) ls1
                        | Text_event body \<Rightarrow>
                            if me_sender ev = ls_user ls then (Inr (), ls1)
                            else hand_over run ev (Reply (me_sender ev) body) ls1
                        | Other_event \<Rightarrow> (Inr (), ls1))))"

text \<open>The callbacks of one sync.\<close>

fun deliver :: "'b bot_runner \<Rightarrow> matrix_event list \<Rightarrow> 'b listener \<Rightarrow> (bot_error + unit) \<times> 'b listener" where
  "deliver run [] ls = (Inr (), ls)"
| "deliver run (ev # evs) ls =
     (case on_event run ev ls of (Inl e, ls1) \<Rightarrow> (Inl e, ls1) | (Inr _, ls1) \<Rightarrow> deliver run evs ls1)"

text \<open>One turn of the loop of \<open>run\<close>: the events the sync delivers, and whether it then returns, with
  the token \<open>next_batch\<close> if the response has one. Any exception is caught, and the next turn
  begins.\<close>

datatype sync_result = Sync_response "pystr option" | Sync_raises

definition sync_turn :: "'b bot_runner \<Rightarrow> matrix_event list \<times> sync_result \<Rightarrow> 'b listener \<Rightarrow> 'b listener" where
  "sync_turn run sync ls =
     (case deliver run (fst sync) ls of
        (Inl _, ls1) \<Rightarrow> ls1
      | (Inr _, ls1) \<Rightarrow>
          (case snd sync of
             Sync_raises \<Rightarrow> ls1
           | Sync_response next_batch \<Rightarrow>
               (let ls2 = (case next_batch of Some t \<Rightarrow> ls1\<lparr>ls_since := Some t\<rparr> | None \<Rightarrow> ls1)
                in ls2\<lparr>ls_bot := snd (run Sweep (ls_bot ls2))\<rparr>)))"

definition listen :: "'b bot_runner \<Rightarrow> (matrix_event list \<times> sync_result) list \<Rightarrow> 'b listener \<Rightarrow> 'b listener" where
  "listen run syncs ls = fold (sync_turn run) syncs ls"

section \<open>Every event once\<close>

definition event_key :: "matrix_event \<Rightarrow> pystr option" where
  "event_key ev = (case me_id ev of Some e \<Rightarrow> if e = [] then None else Some e | None \<Rightarrow> None)"

definition handled_ids :: "'b listener \<Rightarrow> pystr list" where
  "handled_ids ls = List.map_filter (\<lambda>(ev, input). event_key ev) (ls_handled ls)"

text \<open>An input made of an event of the room that is no message of the bot itself.\<close>

definition proper_input :: "pystr \<Rightarrow> pystr \<Rightarrow> matrix_event \<times> bot_input \<Rightarrow> bool" where
  "proper_input room user h \<longleftrightarrow> me_room (fst h) = room
     \<and> ((\<exists>target key. snd h = Reaction (me_sender (fst h)) target key)
        \<or> me_sender (fst h) \<noteq> user \<and> (\<exists>body. snd h = Reply (me_sender (fst h)) body))"

definition listener_inv :: "'b listener \<Rightarrow> bool" where
  "listener_inv ls \<longleftrightarrow> distinct (handled_ids ls) \<and> set (handled_ids ls) \<subseteq> ls_seen ls
     \<and> list_all (proper_input (ls_room ls) (ls_user ls)) (ls_handled ls)"

lemma handled_ids_snoc:
  "handled_ids (ls\<lparr>ls_bot := b, ls_handled := ls_handled ls @ [(ev, i)]\<rparr>)
     = handled_ids ls @ (case event_key ev of None \<Rightarrow> [] | Some e \<Rightarrow> [e])"
  by (simp add: handled_ids_def List.map_filter_def split: option.split)

text \<open>What one event can do: nothing, be remembered, or be remembered and handed over.\<close>

definition remember :: "matrix_event \<Rightarrow> 'b listener \<Rightarrow> 'b listener" where
  "remember ev ls = (case event_key ev of Some e \<Rightarrow> ls\<lparr>ls_seen := insert e (ls_seen ls)\<rparr> | None \<Rightarrow> ls)"

lemma on_event_cases:
  obtains (ignored) "on_event run ev ls = (Inr (), ls)"
      "me_room ev \<noteq> ls_room ls \<or> (\<exists>e. event_key ev = Some e \<and> e \<in> ls_seen ls)"
  | (noted) "on_event run ev ls = (Inr (), remember ev ls)" "me_room ev = ls_room ls"
  | (handed) i where "on_event run ev ls = hand_over run ev i (remember ev ls)" "proper_input (ls_room ls) (ls_user ls) (ev, i)"
      "event_key ev = None \<or> (\<exists>e. event_key ev = Some e \<and> e \<notin> ls_seen ls)"
proof (cases "me_room ev = ls_room ls \<and> \<not> (case event_key ev of Some e \<Rightarrow> e \<in> ls_seen ls | None \<Rightarrow> False)")
  case False
  then show ?thesis
    by (intro ignored) (auto simp: on_event_def event_key_def [symmetric] Let_def split: option.splits)
next
  case True
  have fresh: "event_key ev = None \<or> (\<exists>e. event_key ev = Some e \<and> e \<notin> ls_seen ls)"
    using True by (cases "event_key ev") auto
  have step: "on_event run ev ls = (case me_body ev of
         Reaction_event target key \<Rightarrow> hand_over run ev (Reaction (me_sender ev) target key) (remember ev ls)
       | Text_event body \<Rightarrow>
           if me_sender ev = ls_user ls then (Inr (), remember ev ls)
           else hand_over run ev (Reply (me_sender ev) body) (remember ev ls)
       | Other_event \<Rightarrow> (Inr (), remember ev ls))"
    using True by (simp add: on_event_def event_key_def [symmetric] remember_def [symmetric] Let_def)
  show ?thesis
  proof (cases "me_body ev")
    case (Reaction_event target key)
    then show ?thesis using handed [of "Reaction (me_sender ev) target key"] step True fresh
      by (simp add: proper_input_def)
  next
    case (Text_event body)
    then show ?thesis
      using handed [of "Reply (me_sender ev) body"] noted step True fresh
      by (cases "me_sender ev = ls_user ls") (simp_all add: proper_input_def)
  next
    case Other_event
    then show ?thesis using noted step True by simp
  qed
qed

lemma remember_simps [simp]:
  "ls_room (remember ev ls) = ls_room ls" "ls_user (remember ev ls) = ls_user ls"
  "ls_handled (remember ev ls) = ls_handled ls" "ls_bot (remember ev ls) = ls_bot ls"
  "ls_since (remember ev ls) = ls_since ls" "handled_ids (remember ev ls) = handled_ids ls"
  "ls_seen (remember ev ls) = ls_seen ls \<union> set_option (event_key ev)"
  by (auto simp: remember_def handled_ids_def split: option.split)

lemma hand_over_snd:
  "\<exists>b. snd (hand_over run ev i ls) = ls\<lparr>ls_bot := b, ls_handled := ls_handled ls @ [(ev, i)]\<rparr>"
  by (auto simp: hand_over_def split: prod.split)

text \<open>What an event leaves behind: nothing is forgotten, an event of the room is remembered, and only
  an event that was new can raise.\<close>

lemma on_event_result:
  assumes "on_event run ev ls = (r, ls1)"
  shows "ls_seen ls \<subseteq> ls_seen ls1" "ls_room ls1 = ls_room ls"
    "event_key ev = Some k \<Longrightarrow> me_room ev = ls_room ls \<Longrightarrow> k \<in> ls_seen ls1"
    "event_key ev = Some k \<Longrightarrow> r = Inl e \<Longrightarrow> k \<notin> ls_seen ls \<and> k \<in> ls_seen ls1"
proof -
  have "ls_seen ls \<subseteq> ls_seen ls1 \<and> ls_room ls1 = ls_room ls
      \<and> (event_key ev = Some k \<and> me_room ev = ls_room ls \<longrightarrow> k \<in> ls_seen ls1)
      \<and> (event_key ev = Some k \<and> r = Inl e \<longrightarrow> k \<notin> ls_seen ls \<and> k \<in> ls_seen ls1)"
  proof (cases rule: on_event_cases [of run ev ls])
    case (handed i)
    have "ls1 = snd (hand_over run ev i (remember ev ls))" using assms handed(1) by simp
    with handed(3) hand_over_snd [of run ev i "remember ev ls"] show ?thesis by auto
  qed (use assms in auto)
  then show "ls_seen ls \<subseteq> ls_seen ls1" "ls_room ls1 = ls_room ls"
    "event_key ev = Some k \<Longrightarrow> me_room ev = ls_room ls \<Longrightarrow> k \<in> ls_seen ls1"
    "event_key ev = Some k \<Longrightarrow> r = Inl e \<Longrightarrow> k \<notin> ls_seen ls \<and> k \<in> ls_seen ls1"
    by blast+
qed

lemma on_event_inv: "listener_inv ls \<Longrightarrow> listener_inv (snd (on_event run ev ls))
    \<and> ls_room (snd (on_event run ev ls)) = ls_room ls \<and> ls_user (snd (on_event run ev ls)) = ls_user ls
    \<and> ls_seen ls \<subseteq> ls_seen (snd (on_event run ev ls))"
proof (cases rule: on_event_cases [of run ev ls])
  case ignored
  then show "listener_inv ls \<Longrightarrow> ?thesis" by simp
next
  case noted
  then show "listener_inv ls \<Longrightarrow> ?thesis" by (auto simp: listener_inv_def)
next
  case (handed i)
  assume inv: "listener_inv ls"
  obtain b where b: "snd (on_event run ev ls)
      = (remember ev ls)\<lparr>ls_bot := b, ls_handled := ls_handled (remember ev ls) @ [(ev, i)]\<rparr>"
    using hand_over_snd [of run ev i "remember ev ls"] handed(1) by auto
  show ?thesis
    unfolding b using inv handed(2,3)
    by (auto simp: listener_inv_def handled_ids_snoc simp del: remember_simps(3) split: option.split)
      (auto simp: listener_inv_def)
qed

lemma deliver_inv: "listener_inv ls \<Longrightarrow> listener_inv (snd (deliver run evs ls))
    \<and> ls_room (snd (deliver run evs ls)) = ls_room ls \<and> ls_user (snd (deliver run evs ls)) = ls_user ls
    \<and> ls_seen ls \<subseteq> ls_seen (snd (deliver run evs ls))"
proof (induction evs arbitrary: ls)
  case (Cons ev evs)
  obtain r ls1 where 1: "on_event run ev ls = (r, ls1)" by fastforce
  with on_event_inv [OF Cons.prems, of run ev] have inv: "listener_inv ls1" "ls_room ls1 = ls_room ls"
      "ls_user ls1 = ls_user ls" "ls_seen ls \<subseteq> ls_seen ls1"
    by simp_all
  from Cons.IH [OF inv(1)] inv 1 show ?case by (cases r) auto
qed simp


lemma sync_turn_inv: "listener_inv ls \<Longrightarrow> listener_inv (sync_turn run sync ls)
    \<and> ls_room (sync_turn run sync ls) = ls_room ls \<and> ls_user (sync_turn run sync ls) = ls_user ls"
proof -
  assume inv: "listener_inv ls"
  obtain r ls1 where 1: "deliver run (fst sync) ls = (r, ls1)" by fastforce
  with deliver_inv [OF inv, of run "fst sync"] have d: "listener_inv ls1" "ls_room ls1 = ls_room ls"
      "ls_user ls1 = ls_user ls"
    by simp_all
  have keep: "listener_inv (ls1\<lparr>ls_since := s, ls_bot := b\<rparr>)" "listener_inv (ls1\<lparr>ls_bot := b\<rparr>)" for s b
    using d(1) by (simp_all add: listener_inv_def handled_ids_def)
  show ?thesis
    using d keep 1 by (cases r) (auto simp: sync_turn_def Let_def split: sync_result.split option.split)
qed

lemma listen_inv: "listener_inv ls \<Longrightarrow> listener_inv (listen run syncs ls)
    \<and> ls_room (listen run syncs ls) = ls_room ls \<and> ls_user (listen run syncs ls) = ls_user ls"
proof (induction syncs arbitrary: ls)
  case (Cons s syncs)
  from sync_turn_inv [OF Cons.prems, of run s] Cons.IH [of "sync_turn run s ls"] show ?case
    by (simp add: listen_def)
qed (simp add: listen_def)

lemma new_listener_inv: "listener_inv (new_listener room user b)"
  by (simp add: listener_inv_def new_listener_def handled_ids_def List.map_filter_def)

text \<open>C38: the listener hands every event to the bot at most once. Whatever the syncs deliver, in any
  order and however often, and whatever the bot raises, no event id is dispatched twice, every
  dispatched event is of the configured room, with its own sender, and no message of the bot
  itself is taken as a reply. The loop outlives every exception.\<close>

theorem listener_dispatches_once:
  "distinct (handled_ids (listen run syncs (new_listener room user b)))
    \<and> list_all (proper_input room user) (ls_handled (listen run syncs (new_listener room user b)))"
proof -
  let ?ls = "listen run syncs (new_listener room user b)"
  have "listener_inv ?ls \<and> ls_room ?ls = ls_room (new_listener room user b)
      \<and> ls_user ?ls = ls_user (new_listener room user b)"
    by (rule listen_inv [OF new_listener_inv])
  then have "listener_inv ?ls" "ls_room ?ls = room" "ls_user ?ls = user"
    by (simp_all add: new_listener_def [of room user b])
  then show ?thesis by (simp add: listener_inv_def)
qed

section \<open>A batch gets through\<close>

definition batch_keys :: "matrix_event list \<Rightarrow> pystr set" where
  "batch_keys evs = set (List.map_filter event_key evs)"

text \<open>The ids of the batch that are still to come.\<close>

definition open_keys :: "matrix_event list \<Rightarrow> 'b listener \<Rightarrow> pystr set" where
  "open_keys evs ls = batch_keys evs - ls_seen ls"

lemma deliver_seen: "ls_seen ls \<subseteq> ls_seen (snd (deliver run evs ls))"
proof (induction evs arbitrary: ls)
  case (Cons ev evs)
  obtain r ls2 where 1: "on_event run ev ls = (r, ls2)" by fastforce
  with on_event_result(1) [OF 1] Cons [of ls2] show ?case by (cases r) auto
qed simp

lemma deliver_raises:
  assumes "deliver run evs ls = (Inl e, ls1)" "\<forall>ev \<in> set evs. event_key ev \<noteq> None"
  shows "\<exists>k \<in> batch_keys evs. k \<notin> ls_seen ls \<and> k \<in> ls_seen ls1"
  using assms
proof (induction evs arbitrary: ls)
  case (Cons ev evs)
  obtain k where k: "event_key ev = Some k" using Cons.prems(2) by auto
  obtain r ls2 where 1: "on_event run ev ls = (r, ls2)" by fastforce
  show ?case
  proof (cases r)
    case (Inl x)
    then have "ls1 = ls2" using Cons.prems 1 by simp
    then show ?thesis
      using on_event_result(4) [OF 1 k Inl] k by (auto simp: batch_keys_def List.map_filter_def)
  next
    case (Inr x)
    then have d: "deliver run evs ls2 = (Inl e, ls1)" using Cons.prems 1 by simp
    obtain k' where "k' \<in> batch_keys evs" "k' \<notin> ls_seen ls2" "k' \<in> ls_seen ls1"
      using Cons.IH [OF d] Cons.prems(2) by auto
    then show ?thesis using on_event_result(1) [OF 1] by (auto simp: batch_keys_def List.map_filter_def)
  qed
qed simp

lemma deliver_returns:
  assumes "deliver run evs ls = (Inr u, ls1)" "ev \<in> set evs" "me_room ev = ls_room ls" "event_key ev = Some k"
  shows "k \<in> ls_seen ls1"
  using assms
proof (induction evs arbitrary: ls)
  case (Cons ev' evs)
  obtain r ls2 where 1: "on_event run ev' ls = (r, ls2)" by fastforce
  then obtain v where r: "r = Inr v" using Cons.prems(1) by (cases r) auto
  then have d: "deliver run evs ls2 = (Inr u, ls1)" using Cons.prems(1) 1 by simp
  show ?case
  proof (cases "ev' = ev")
    case True
    then show ?thesis
      using on_event_result(3) [OF 1] Cons.prems(3,4) deliver_seen [of ls2 run evs] d by auto
  next
    case False
    then show ?thesis using Cons.IH [OF d] Cons.prems on_event_result(2) [OF 1] by auto
  qed
qed simp

text \<open>The listener after a batch has been delivered so many times.\<close>

definition delivered :: "'b bot_runner \<Rightarrow> matrix_event list \<Rightarrow> nat \<Rightarrow> 'b listener \<Rightarrow> 'b listener" where
  "delivered run evs n ls = ((\<lambda>l. snd (deliver run evs l)) ^^ n) ls"

lemma finite_batch: "finite (open_keys evs ls)"
  by (simp add: open_keys_def batch_keys_def)

lemma card_batch: "card (open_keys evs ls) \<le> length evs"
proof -
  have "card (open_keys evs ls) \<le> card (batch_keys evs)"
    by (intro card_mono) (auto simp: open_keys_def batch_keys_def)
  also have "\<dots> \<le> length (List.map_filter event_key evs)" by (simp add: batch_keys_def card_length)
  also have "\<dots> \<le> length evs" by (simp add: List.map_filter_def)
  finally show ?thesis .
qed

lemma gets_through:
  assumes "\<forall>ev \<in> set evs. event_key ev \<noteq> None"
  shows "\<exists>n \<le> card (open_keys evs ls). \<exists>u. fst (deliver run evs (delivered run evs n ls)) = Inr u"
proof (induction "card (open_keys evs ls)" arbitrary: ls rule: less_induct)
  case less
  obtain r ls1 where 1: "deliver run evs ls = (r, ls1)" by fastforce
  show ?case
  proof (cases r)
    case (Inr u)
    then show ?thesis using 1 by (intro exI [of _ 0]) (simp add: delivered_def)
  next
    case (Inl e)
    then obtain k where k: "k \<in> batch_keys evs" "k \<notin> ls_seen ls" "k \<in> ls_seen ls1"
      using deliver_raises assms 1 by blast
    have "open_keys evs ls1 \<subset> open_keys evs ls"
      using k deliver_seen [of ls run evs] 1 by (auto simp: open_keys_def)
    then have c: "card (open_keys evs ls1) < card (open_keys evs ls)"
      by (intro psubset_card_mono finite_batch)
    from less [OF this] obtain n u where n: "n \<le> card (open_keys evs ls1)"
        "fst (deliver run evs (delivered run evs n ls1)) = Inr u"
      by blast
    have "delivered run evs (Suc n) ls = delivered run evs n ls1"
      by (simp add: delivered_def funpow_swap1 1 del: funpow.simps(2)) (simp add: funpow_Suc_right 1 del: funpow.simps(2))
    with n c show ?thesis by (intro exI [of _ "Suc n"]) auto
  qed
qed

text \<open>C39: a batch of events gets through. When an event makes the bot raise, the sync ends and the
  same events are delivered again; after at most as many failures as there are events a delivery
  returns, and then every event of the room has been taken.\<close>

theorem retried_batch_gets_through:
  assumes "\<forall>ev \<in> set evs. event_key ev \<noteq> None"
  shows "\<exists>n \<le> length evs. \<exists>ls1. deliver run evs (delivered run evs n ls) = (Inr (), ls1)
    \<and> (\<forall>ev \<in> set evs. me_room ev = ls_room (delivered run evs n ls) \<longrightarrow> event_key ev \<in> Some ` ls_seen ls1)"
proof -
  obtain n u where n: "n \<le> card (open_keys evs ls)" "fst (deliver run evs (delivered run evs n ls)) = Inr u"
    using gets_through [OF assms] by blast
  then obtain ls1 where 1: "deliver run evs (delivered run evs n ls) = (Inr (), ls1)"
    by (metis prod.collapse old.unit.exhaust)
  have "event_key ev \<in> Some ` ls_seen ls1" if "ev \<in> set evs" "me_room ev = ls_room (delivered run evs n ls)" for ev
  proof -
    have "event_key ev \<noteq> None" using assms that(1) by blast
    then obtain k where "event_key ev = Some k" by blast
    with deliver_returns [OF 1 that] show ?thesis by auto
  qed
  with 1 n card_batch [of evs ls] show ?thesis
    by (intro exI [of _ n] conjI exI [of _ ls1]) auto
qed

definition example_event :: matrix_event where
  "example_event = \<lparr>me_room = lit ''!r'', me_id = Some (lit ''e''), me_sender = lit ''@a'', me_body = Text_event (lit ''x'')\<rparr>"

theorem retried_batch_gets_through_witness:
  "deliver (\<lambda>i b. (Inl Value_error, b)) [example_event] (new_listener (lit ''!r'') (lit ''@b'') ())
      = (Inl Value_error, snd (deliver (\<lambda>i b. (Inl Value_error, b)) [example_event] (new_listener (lit ''!r'') (lit ''@b'') ())))
    \<and> (\<exists>n \<le> 1. \<exists>ls1. deliver (\<lambda>i b. (Inl Value_error, b)) [example_event]
         (delivered (\<lambda>i b. (Inl Value_error, b)) [example_event] n (new_listener (lit ''!r'') (lit ''@b'') ())) = (Inr (), ls1))"
proof
  show "deliver (\<lambda>i b. (Inl Value_error, b)) [example_event] (new_listener (lit ''!r'') (lit ''@b'') ())
      = (Inl Value_error, snd (deliver (\<lambda>i b. (Inl Value_error, b)) [example_event] (new_listener (lit ''!r'') (lit ''@b'') ())))"
    by (simp add: on_event_def example_event_def new_listener_def hand_over_def lit_def)
  have "\<forall>ev \<in> set [example_event]. event_key ev \<noteq> None"
    by (simp add: event_key_def example_event_def lit_def)
  from retried_batch_gets_through [OF this, of "\<lambda>i b. (Inl Value_error, b)" "new_listener (lit ''!r'') (lit ''@b'') ()"]
  show "\<exists>n \<le> 1. \<exists>ls1. deliver (\<lambda>i b. (Inl Value_error, b)) [example_event]
         (delivered (\<lambda>i b. (Inl Value_error, b)) [example_event] n (new_listener (lit ''!r'') (lit ''@b'') ())) = (Inr (), ls1)"
    by (auto simp del: deliver.simps)
qed

end
