(* ===== verification/Broker.thy ===== *)
theory Broker
  imports Run_Properties Nio_Transport
begin

text \<open>
  The broker as \<open>main\<close> of \<open>broker/run.py\<close> runs it: the configuration is loaded, the components are
  wired, and from then on requests arrive at the two surfaces and syncs at the listener, in any
  order. The parts meet in the store: a tool consults it through the layer, the bot decides in
  it. The theorems follow every history of the whole.
\<close>

section \<open>The process\<close>

type_synonym routes = "(pystr \<times> (http_request \<Rightarrow> surface http_result)) list"

definition start_broker ::
  "'d process \<Rightarrow> pyval \<Rightarrow> wiring_error + config \<times> routes \<times> 'd server listener" where
  "start_broker pr raw =
     (case load_config (pr_params pr) (lit ''config.yaml'') raw of
        Inl e \<Rightarrow> Inl (Wire_config e)
      | Inr cfg \<Rightarrow>
          (case fst (wire_components pr cfg) of
             Inl e \<Rightarrow> Inl e
           | Inr sv \<Rightarrow>
               (case build_dual_app sv sv (ag_token (cf_agent cfg)) (ag_transfer_token (cf_agent cfg)) of
                  Inl t \<Rightarrow> Inl (Wire_server t)
                | Inr routes \<Rightarrow>
                    Inr (cfg, routes,
                      new_listener (mx_room_id (cf_matrix cfg)) (mx_bot_user (cf_matrix cfg)) sv))))"

text \<open>What reaches the process: a request with the tool call in its body, or the outcome of a sync.\<close>

datatype broker_input = Http_request http_request tool_call | Sync "matrix_event list" sync_result

definition bot_of_server :: "'d server bot_runner" where
  "bot_of_server input = on_bot (run_bot input)"

fun broker_step :: "'d transport \<Rightarrow> routes \<Rightarrow> broker_input \<Rightarrow> 'd server listener \<Rightarrow> 'd server listener" where
  "broker_step dav routes (Http_request rq call) ls =
     (case dispatch routes rq of
        Reached sf \<Rightarrow>
          (case call_tool dav sf call (ls_bot ls) of
             None \<Rightarrow> ls
           | Some (r, sv) \<Rightarrow> ls\<lparr>ls_bot := sv\<rparr>)
      | _ \<Rightarrow> ls)"
| "broker_step dav routes (Sync evs r) ls = sync_turn bot_of_server (evs, r) ls"

definition broker_history :: "'d transport \<Rightarrow> routes \<Rightarrow> broker_input list \<Rightarrow> 'd server listener \<Rightarrow> 'd server listener" where
  "broker_history dav routes inputs ls = fold (broker_step dav routes) inputs ls"

section \<open>Steps that keep to the rules\<close>

text \<open>From one state of the server to a later one: the store by calls that satisfy \<open>P\<close>, the wiring
  unchanged, each call of the transport announced in the log, allowed by the store as it was at
  that moment, and satisfying \<open>Q\<close>.\<close>

definition guarded :: "(gop \<Rightarrow> bool) \<Rightarrow> (dav_call \<Rightarrow> bool) \<Rightarrow> 'd server \<Rightarrow> 'd server \<Rightarrow> bool" where
  "guarded P Q sv sv1 \<longleftrightarrow> reaches P (sv_store sv) (sv_store sv1) \<and> sv_layer sv1 = sv_layer sv
     \<and> b_approver (sv_bot sv1) = b_approver (sv_bot sv) \<and> b_others (sv_bot sv1) = b_others (sv_bot sv)
     \<and> (w_audit (sv_world sv1) = None \<longleftrightarrow> w_audit (sv_world sv) = None)
     \<and> (\<exists>evs. w_trace (sv_world sv1) = w_trace (sv_world sv) @ evs
          \<and> (w_audit (sv_world sv) \<noteq> None \<longrightarrow> announced evs)
          \<and> (\<forall>(i, c) \<in> set (calls evs). Q c \<and> (\<exists>s. reaches P (sv_store sv) s \<and> reaches P s (sv_store sv1)
                \<and> call_ok (sv_layer sv) s i c)))"

lemma guardedD:
  assumes "guarded P Q sv sv1" "w_trace (sv_world sv) = []"
  shows "reaches P (sv_store sv) (sv_store sv1)"
    and "w_audit (sv_world sv) \<noteq> None \<Longrightarrow> announced (w_trace (sv_world sv1))"
    and "(i, c) \<in> set (calls (w_trace (sv_world sv1))) \<Longrightarrow> Q c"
    and "(i, c) \<in> set (calls (w_trace (sv_world sv1))) \<Longrightarrow>
      \<exists>s. reaches P (sv_store sv) s \<and> reaches P s (sv_store sv1) \<and> call_ok (sv_layer sv) s i c"
  using assms by (auto simp: guarded_def)

lemma guarded_refl: "guarded P Q sv sv"
  by (auto simp: guarded_def reaches.start intro!: exI [of _ "[]"])

lemma guarded_trans:
  assumes "guarded P Q sv sv1" "guarded P Q sv1 sv2"
  shows "guarded P Q sv sv2"
proof -
  note a = assms(1) [unfolded guarded_def] and b = assms(2) [unfolded guarded_def]
  obtain evs where e: "w_trace (sv_world sv1) = w_trace (sv_world sv) @ evs"
      "w_audit (sv_world sv) \<noteq> None \<longrightarrow> announced evs"
      "\<forall>(i, c) \<in> set (calls evs). Q c \<and> (\<exists>s. reaches P (sv_store sv) s \<and> reaches P s (sv_store sv1)
         \<and> call_ok (sv_layer sv) s i c)"
    using a by blast
  obtain evs' where e': "w_trace (sv_world sv2) = w_trace (sv_world sv1) @ evs'"
      "w_audit (sv_world sv1) \<noteq> None \<longrightarrow> announced evs'"
      "\<forall>(i, c) \<in> set (calls evs'). Q c \<and> (\<exists>s. reaches P (sv_store sv1) s \<and> reaches P s (sv_store sv2)
         \<and> call_ok (sv_layer sv1) s i c)"
    using b by blast
  have r: "reaches P (sv_store sv) (sv_store sv1)" "reaches P (sv_store sv1) (sv_store sv2)" using a b by blast+
  have "\<forall>(i, c) \<in> set (calls (evs @ evs')). Q c \<and> (\<exists>s. reaches P (sv_store sv) s \<and> reaches P s (sv_store sv2)
         \<and> call_ok (sv_layer sv) s i c)"
    using e(3) e'(3) r a by (auto 4 4 intro: reaches_trans)
  then show ?thesis
    unfolding guarded_def using a b e e' r reaches_trans [OF r(2,1)] announced_append
    by (intro conjI exI [of _ "evs @ evs'"]) auto
qed

text \<open>Steps of the store, of the bot and of the layer.\<close>

lemma guarded_store: "reaches P (sv_store sv) s \<Longrightarrow> guarded P Q sv (with_store s sv)"
  by (auto simp: guarded_def intro!: exI [of _ "[]"])

lemma on_bot_guarded:
  assumes "step_by P f" "others_only P (sv_bot sv)"
  shows "guarded P Q sv (snd (on_bot f sv))"
proof -
  let ?b = "(sv_bot sv)\<lparr>b_store := sv_store sv\<rparr>"
  have "others_only P ?b" using assms(2) by (simp add: others_only_def)
  with assms(1) have "reaches P (b_store ?b) (b_store (snd (f ?b))) \<and> same_wiring ?b (snd (f ?b))"
    unfolding step_by_def by blast
  then show ?thesis
    by (cases "f ?b") (auto simp: on_bot_def guarded_def same_wiring_def with_store_def intro!: exI [of _ "[]"])
qed

lemma layer_guarded:
  assumes "store_inv (sv_store sv)" "\<And>c. verb_of r c \<Longrightarrow> Q c"
  shows "guarded P Q sv (sv\<lparr>sv_world := snd (run_op (sv_layer sv) dav r (sv_world sv))\<rparr>)"
proof -
  let ?w = "snd (run_op (sv_layer sv) dav r (sv_world sv))"
  obtain evs where e: "extends (sv_world sv) evs ?w"
      "\<forall>(i, c) \<in> set (calls evs). i = op_instance r \<and> call_ok (sv_layer sv) (sv_store sv) i c"
      "w_audit (sv_world sv) \<noteq> None \<longrightarrow> announced evs"
    using run_op_well_behaved [OF assms(1), of "sv_layer sv" r dav] by (auto simp: well_behaved_def)
  obtain evs' where e': "w_trace ?w = w_trace (sv_world sv) @ evs'" "\<forall>(i, c) \<in> set (calls evs'). verb_of r c"
    using run_op_makes [of r "sv_world sv" "sv_layer sv" dav] by (auto simp: makes_def)
  then have "evs' = evs" using e(1) by (simp add: extends_def)
  moreover have "reaches P (sv_store sv) (w_store ?w)" using e(1) reaches_read by (auto simp: extends_def)
  ultimately show ?thesis
    using e e' assms(2) reaches.start [of P "sv_store sv"]
    by (fastforce simp: guarded_def extends_def intro!: exI [of _ evs])
qed


section \<open>The tools\<close>

lemma snd_layer_op: "snd (layer_op dav r sv) = sv\<lparr>sv_world := snd (run_op (sv_layer sv) dav r (sv_world sv))\<rparr>"
  by (simp add: layer_op_def split: prod.split)

text \<open>A condition that all calls of the store satisfy, except perhaps \<open>approve\<close>.\<close>

definition allows_all_but_approve :: "(gop \<Rightarrow> bool) \<Rightarrow> bool" where
  "allows_all_but_approve P \<longleftrightarrow> (\<forall>op. \<not> is_approve op \<longrightarrow> P op)"

lemma reaches_plain: "allows_all_but_approve P \<Longrightarrow> \<not> is_approve op \<Longrightarrow> reaches P s (exec_gop op s)"
  by (rule reaches_call) (simp add: allows_all_but_approve_def)

lemma request_guarded:
  assumes "allows_all_but_approve P" "others_only P (sv_bot sv)"
  shows "guarded P Q sv (snd (request_access inst reason items sv))"
proof (cases "create_request inst (PStr reason) items (sv_store sv)")
  case (Pair x s)
  have "reaches P (sv_store sv) (exec_gop (Create inst (PStr reason) items) (sv_store sv))"
    by (rule reaches_plain [OF assms(1)]) simp
  then have r: "reaches P (sv_store sv) s" using Pair by simp
  show ?thesis
  proof (cases x)
    case (Inl e)
    then show ?thesis using Pair guarded_store [OF r] by (simp add: request_access_def)
  next
    case (Inr req)
    obtain y sv1 where p: "on_bot (post_request req) (with_store s sv) = (y, sv1)" by fastforce
    have "guarded P Q (with_store s sv) sv1"
      using on_bot_guarded [OF step_by_post [of P req], of "with_store s sv" Q] assms p
      by (simp add: allows_all_but_approve_def)
    then have g: "guarded P Q sv sv1" using guarded_trans guarded_store [OF r] by blast
    obtain z u where j: "reject (gr_id req) (sv_store sv1) = (z, u)" by fastforce
    have "reaches P (sv_store sv1) (exec_gop (Reject (gr_id req)) (sv_store sv1))"
      by (rule reaches_plain [OF assms(1)]) simp
    then have "guarded P Q sv (with_store u sv1)" using guarded_trans [OF g guarded_store] j by simp
    with g j show ?thesis
      by (simp add: request_access_def Pair Inr p split: sum.split bot_error.split)
  qed
qed

lemma check_guarded:
  assumes "allows_all_but_approve P"
  shows "guarded P Q sv (snd (check_tool inst sv))"
proof -
  have "reaches P (sv_store sv) (exec_gop (List_active (Some inst)) (sv_store sv))"
    by (rule reaches_plain [OF assms]) simp
  then show ?thesis
    using guarded_store by (auto simp: check_tool_def split: prod.split sum.split)
qed

lemma tool_guarded:
  assumes "store_inv (sv_store sv)" "others_only P (sv_bot sv)" "\<And>c. tool_verb call c \<Longrightarrow> Q c"
    and "allows_all_but_approve P"
  shows "guarded P Q sv (snd (run_tool dav prin call sv))"
proof -
  note layer = layer_guarded [OF assms(1), where Q = Q and P = P and dav = dav]
  show ?thesis
  proof (cases call)
    case (Request_access_call i r its)
    then show ?thesis using request_guarded assms(2,4) by simp
  next
    case (Check_access_call i)
    then show ?thesis using check_guarded assms(4) by simp
  next
    case List_instances_call
    then show ?thesis by (simp add: guarded_refl)
  next
    case (List_call i p)
    then show ?thesis using layer [of "List_req i (PStr p)"] assms(3) by (simp add: snd_layer_op)
  next
    case (Read_call i p)
    then show ?thesis using layer [of "Read_req i (PStr p) (Some prin)"] assms(3)
      by (simp add: read_tool_def case_prod_unfold snd_layer_op)
  next
    case (Write_call i p t)
    show ?thesis
    proof (cases "b64_decode t")
      case None
      then show ?thesis using Write_call by (simp add: write_tool_def guarded_refl)
    next
      case (Some bs)
      then show ?thesis using Write_call layer [of "Write_req i (PStr p) bs (Some prin)"] assms(3)
        by (simp add: write_tool_def snd_layer_op)
    qed
  next
    case (Move_call i p q)
    then show ?thesis using layer [of "Move_req i (PStr p) (PStr q)"] assms(3) by (simp add: snd_layer_op)
  next
    case (Trash_call i p)
    then show ?thesis using layer [of "Trash_req i (PStr p)"] assms(3) by (simp add: snd_layer_op)
  next
    case (Mkdir_call i p)
    then show ?thesis using layer [of "Mkdir_req i (PStr p)"] assms(3) by (simp add: snd_layer_op)
  next
    case (Checkout_call i p n)
    then show ?thesis using layer [of "Checkout_req i (PStr p) n (Some prin)"] assms(3)
      by (simp add: checkout_tool_def case_prod_unfold snd_layer_op)
  next
    case (Checkin_call i p t k)
    show ?thesis
    proof (cases "k = [] \<or> b64_decode t = None")
      case True
      then show ?thesis using Checkin_call by (auto simp: checkin_tool_def guarded_refl)
    next
      case False
      then obtain bs where bs: "b64_decode t = Some bs" by auto
      have "Q c" if "verb_of (Checkin_req i (PStr p) bs k (Some prin)) c" for c
        using assms(3) [of c] that bs False Checkin_call by auto
      then show ?thesis
        using Checkin_call bs False layer [of "Checkin_req i (PStr p) bs k (Some prin)"]
        by (simp add: checkin_tool_def snd_layer_op)
    qed
  qed
qed


section \<open>The listener\<close>

text \<open>Whatever every input of an event keeps, the callbacks keep.\<close>

lemma on_event_keeps:
  assumes "\<And>b input. R b \<Longrightarrow> input_sender input = Some (me_sender ev) \<Longrightarrow> R (snd (run input b))" "R (ls_bot ls)"
  shows "R (ls_bot (snd (on_event run ev ls)))"
proof (cases rule: on_event_cases [of run ev ls])
  case (handed i)
  have "input_sender i = Some (me_sender ev)" using handed(2) by (auto simp: proper_input_def)
  from assms(1) [OF _ this, of "ls_bot (remember ev ls)"] assms(2) handed(1) show ?thesis
    by (cases "run i (ls_bot ls)") (simp add: hand_over_def)
qed (use assms(2) in auto)

lemma deliver_keeps:
  assumes "\<And>ev b input. ev \<in> set evs \<Longrightarrow> R b \<Longrightarrow> input_sender input = Some (me_sender ev) \<Longrightarrow> R (snd (run input b))"
    and "R (ls_bot ls)"
  shows "R (ls_bot (snd (deliver run evs ls)))"
  using assms
proof (induction evs arbitrary: ls)
  case (Cons ev evs)
  obtain r ls1 where 1: "on_event run ev ls = (r, ls1)" by fastforce
  have "R (ls_bot (snd (on_event run ev ls)))"
    by (rule on_event_keeps) (use Cons.prems in auto)
  then have "R (ls_bot ls1)" using 1 by simp
  then have "R (ls_bot (snd (deliver run evs ls1)))" by (rule Cons.IH [rotated]) (use Cons.prems(1) in auto)
  with 1 \<open>R (ls_bot ls1)\<close> show ?case by (cases r) auto
qed simp

lemma sync_turn_keeps:
  assumes "\<And>ev b input. ev \<in> set (fst sync) \<Longrightarrow> R b \<Longrightarrow> input_sender input = Some (me_sender ev) \<Longrightarrow> R (snd (run input b))"
    and "\<And>b. R b \<Longrightarrow> R (snd (run Sweep b))" "R (ls_bot ls)"
  shows "R (ls_bot (sync_turn run sync ls))"
proof -
  obtain r ls1 where 1: "deliver run (fst sync) ls = (r, ls1)" by fastforce
  have "R (ls_bot (snd (deliver run (fst sync) ls)))"
    by (rule deliver_keeps) (use assms(1,3) in auto)
  then have "R (ls_bot ls1)" using 1 by simp
  then show ?thesis
    using 1 assms(2) by (cases r) (auto simp: sync_turn_def Let_def split: sync_result.split option.split)
qed

section \<open>Every history\<close>

text \<open>What the inputs of a history are restricted to, for the conditions on the calls of the store and
  of the transport.\<close>

definition input_allowed :: "(gop \<Rightarrow> bool) \<Rightarrow> (dav_call \<Rightarrow> bool) \<Rightarrow> routes \<Rightarrow> pystr \<Rightarrow> broker_input \<Rightarrow> bool" where
  "input_allowed P Q routes approver input \<longleftrightarrow>
     (case input of
        Http_request rq call \<Rightarrow>
          (\<forall>sf c. dispatch routes rq = Reached sf \<and> tool_name call \<in> set (sf_tools sf) \<and> tool_verb call c \<longrightarrow> Q c)
      | Sync evs r \<Rightarrow> (\<forall>op. P op) \<or> (\<forall>ev \<in> set evs. me_sender ev \<noteq> approver))"

lemma bot_guarded:
  assumes "allows_all_but_approve P" "others_only P (sv_bot sv)"
    and "(\<forall>op. P op) \<or> input_sender input \<noteq> Some (b_approver (sv_bot sv))"
  shows "guarded P Q sv (snd (bot_of_server input sv))"
proof (cases "\<forall>op. P op")
  case True
  then have P: "P = (\<lambda>op. True)" by auto
  show ?thesis
    unfolding bot_of_server_def P by (rule on_bot_guarded [OF step_by_run_bot]) (simp add: others_only_def list_all_iff)
next
  case False
  show ?thesis
  proof (cases "input_sender input")
    case None
    have "step_by P (run_bot input)"
      using None assms(1) step_by_sweep [of P]
      by (cases input) (auto simp: allows_all_but_approve_def intro!: steps step_by_post)
    then show ?thesis unfolding bot_of_server_def using on_bot_guarded assms(2) by blast
  next
    case (Some sender)
    let ?b = "(sv_bot sv)\<lparr>b_store := sv_store sv\<rparr>"
    have "run_bot input ?b = (Inr (), ?b)"
      using stranger_does_nothing [OF Some, of ?b] assms(3) False Some by simp
    then show ?thesis
      by (auto simp: bot_of_server_def on_bot_def guarded_def with_store_def reaches.start intro!: exI [of _ "[]"])
  qed
qed


lemma broker_step_guarded:
  assumes "store_inv (sv_store sv0)" "allows_all_but_approve P" "others_only P (sv_bot sv0)"
    and "input_allowed P Q routes (b_approver (sv_bot sv0)) input" "guarded P Q sv0 (ls_bot ls)"
  shows "guarded P Q sv0 (ls_bot (broker_step dav routes input ls))"
proof -
  have later: "store_inv (sv_store sv)" "others_only P (sv_bot sv)" "b_approver (sv_bot sv) = b_approver (sv_bot sv0)"
    if "guarded P Q sv0 sv" for sv
    using that reaches_contract [of P "sv_store sv0" "sv_store sv"] assms(1,3)
    by (simp_all add: guarded_def others_only_def)
  show ?thesis
  proof (cases input)
    case (Http_request rq call)
    show ?thesis
    proof (cases "\<exists>sf. dispatch routes rq = Reached sf \<and> tool_name call \<in> set (sf_tools sf)")
      case True
      then obtain sf where sf: "dispatch routes rq = Reached sf" "tool_name call \<in> set (sf_tools sf)" by blast
      have "guarded P Q (ls_bot ls) (snd (run_tool dav (sf_principal sf) call (ls_bot ls)))"
        using later [OF assms(5)] assms(2,4) sf Http_request
        by (intro tool_guarded) (auto simp: input_allowed_def)
      then have "guarded P Q sv0 (snd (run_tool dav (sf_principal sf) call (ls_bot ls)))"
        using guarded_trans assms(5) by blast
      then show ?thesis
        using Http_request sf
        by (cases "run_tool dav (sf_principal sf) call (ls_bot ls)") (simp add: call_tool_def)
    next
      case False
      then show ?thesis
        using Http_request assms(5) by (auto simp: call_tool_def split: http_result.splits)
    qed
  next
    case (Sync evs r)
    have "guarded P Q sv0 (ls_bot (sync_turn bot_of_server (evs, r) ls))"
    proof (rule sync_turn_keeps [where R = "guarded P Q sv0"])
      fix ev b bi
      assume ev: "ev \<in> set (fst (evs, r))" "guarded P Q sv0 b" "input_sender bi = Some (me_sender ev)"
      have "guarded P Q b (snd (bot_of_server bi b))"
        using later [OF ev(2)] assms(2,4) Sync ev(1,3)
        by (intro bot_guarded) (auto simp: input_allowed_def)
      then show "guarded P Q sv0 (snd (bot_of_server bi b))" using guarded_trans ev(2) by blast
    next
      fix b assume b: "guarded P Q sv0 b"
      have "guarded P Q b (snd (bot_of_server Sweep b))"
        using later [OF b] assms(2) by (intro bot_guarded) simp_all
      then show "guarded P Q sv0 (snd (bot_of_server Sweep b))" using guarded_trans b by blast
    next
      show "guarded P Q sv0 (ls_bot ls)" by (rule assms(5))
    qed
    with Sync show ?thesis by simp
  qed
qed

lemma broker_history_guarded:
  assumes "store_inv (sv_store sv0)" "allows_all_but_approve P" "others_only P (sv_bot sv0)"
    and "\<forall>input \<in> set inputs. input_allowed P Q routes (b_approver (sv_bot sv0)) input" "guarded P Q sv0 (ls_bot ls)"
  shows "guarded P Q sv0 (ls_bot (broker_history dav routes inputs ls))"
  using assms(4,5)
proof (induction inputs arbitrary: ls)
  case (Cons input inputs)
  have "guarded P Q sv0 (ls_bot (broker_step dav routes input ls))"
    by (rule broker_step_guarded [OF assms(1-3)]) (use Cons.prems in auto)
  from Cons.IH [OF _ this] Cons.prems(1) show ?case by (simp add: broker_history_def)
qed (simp add: broker_history_def)

section \<open>The broker from its start\<close>

lemma start_broker_Inr:
  assumes "start_broker pr raw = Inr (cfg, routes, ls)" "\<forall>path. database_ok (pr_database pr path)"
  obtains agent transfer where "load_config (pr_params pr) (lit ''config.yaml'') raw = Inr cfg" "broker_ready cfg (ls_bot ls)"
    "routes = [(lit ''/transfer'', bearer (ag_transfer_token (cf_agent cfg)) transfer),
       (lit ''/mcp'', bearer (ag_token (cf_agent cfg)) agent)]"
    "build_app (sv_bind_host (ls_bot ls)) AGENT_TOOLS = Inr agent"
proof -
  have load: "load_config (pr_params pr) (lit ''config.yaml'') raw = Inr cfg"
    using assms(1) by (auto simp: start_broker_def split: sum.splits)
  obtain sv where sv: "fst (wire_components pr cfg) = Inr sv"
      "build_dual_app sv sv (ag_token (cf_agent cfg)) (ag_transfer_token (cf_agent cfg)) = Inr routes"
      "ls = new_listener (mx_room_id (cf_matrix cfg)) (mx_bot_user (cf_matrix cfg)) sv"
    using assms(1) load by (auto simp: start_broker_def split: sum.splits)
  have "ls_bot ls = sv" by (simp add: sv(3) new_listener_def)
  moreover obtain lg lns where "wire_components pr cfg = (Inr sv, lg, lns)"
    using sv(1) by (metis prod.collapse)
  moreover obtain a t where "build_app (sv_bind_host sv) AGENT_TOOLS = Inr a"
    "routes = [(lit ''/transfer'', bearer (ag_transfer_token (cf_agent cfg)) t), (lit ''/mcp'', bearer (ag_token (cf_agent cfg)) a)]"
    by (rule build_dual_app_Inr [OF sv(2)])
  ultimately show thesis using that load wired_is_ready assms(2) by metis
qed

text \<open>The calls that carry content, or lock and unlock it.\<close>

fun carries_content :: "dav_call \<Rightarrow> bool" where
  "carries_content (Get p) = True"
| "carries_content (Put p b t) = True"
| "carries_content (Lock p n) = True"
| "carries_content (Unlock p t) = True"
| "carries_content _ = False"

text \<open>A row of the store that once was granted covers the path.\<close>

definition on_record :: "gstate set \<Rightarrow> store \<Rightarrow> pystr \<Rightarrow> pystr \<Rightarrow> pystr \<Rightarrow> bool" where
  "on_record states s inst p m \<longleftrightarrow>
     (\<exists>rid r item g n. find_row rid s = Some r \<and> r_state r \<in> states \<and> r_instance r = inst \<and> item \<in> set (r_items r)
        \<and> normalize_path (PStr (i_path item)) = Some g \<and> g \<noteq> [] \<and> normalize_path (PStr p) = Some n \<and> inside g n
        \<and> (m = WRITE \<longrightarrow> i_mode item = WRITE))"

lemma covered_row:
  assumes "covered (live_grant s inst) p m"
  obtains rid r item g n where "find_row rid s = Some r" "r_state r = Active" "r_instance r = inst" "item \<in> set (r_items r)"
    "normalize_path (PStr (i_path item)) = Some g" "g \<noteq> []" "normalize_path (PStr p) = Some n" "inside g n"
    "m = WRITE \<longrightarrow> i_mode item = WRITE"
  using assms by (auto simp: covered_def live_grant_def)

lemma covered_on_record:
  assumes "covered (live_grant s inst) p m" "store_evolves s t"
  shows "on_record {Active, Revoked} t inst p m"
proof (rule covered_row [OF assms(1)])
  fix rid r item g n
  assume r: "find_row rid s = Some r" "r_state r = Active" "r_instance r = inst" "item \<in> set (r_items r)"
    "normalize_path (PStr (i_path item)) = Some g" "g \<noteq> []" "normalize_path (PStr p) = Some n" "inside g n"
    "m = WRITE \<longrightarrow> i_mode item = WRITE"
  then obtain r' where r': "find_row rid t = Some r'" "row_evolves r r'"
    using assms(2) by (auto simp: store_evolves_def)
  have "r' = r \<or> r' = r\<lparr>r_state := Revoked, r_state_source := Some Revocation\<rparr>"
    using row_evolves_final [OF r'(2)] r(2) by auto
  then have "r_state r' \<in> {Active, Revoked} \<and> r_instance r' = inst \<and> r_items r' = r_items r"
    using r(2,3) by auto
  with r r'(1) show ?thesis
    unfolding on_record_def
    by (intro exI [of _ rid] exI [of _ r'] exI [of _ item] exI [of _ g] exI [of _ n]) simp
qed

lemma covered_before:
  assumes "covered (live_grant s inst) p m" "reaches (\<lambda>op. \<not> is_approve op) s0 s" "store_inv s0"
  shows "on_record {Active} s0 inst p m"
proof (rule covered_row [OF assms(1)])
  fix rid r item g n
  assume r: "find_row rid s = Some r" "r_state r = Active" "r_instance r = inst" "item \<in> set (r_items r)"
    "normalize_path (PStr (i_path item)) = Some g" "g \<noteq> []" "normalize_path (PStr p) = Some n" "inside g n"
    "m = WRITE \<longrightarrow> i_mode item = WRITE"
  have "find_row rid s0 = Some r" by (rule reaches_no_approve [OF assms(2,3) r(1,2)])
  with r show ?thesis
    unfolding on_record_def
    by (intro exI [of _ rid] exI [of _ r] exI [of _ item] exI [of _ g] exI [of _ n]) simp
qed


text \<open>A token that opens a surface is the surface's.\<close>

lemma check_auth_equal: "check_auth (Some p) token = Some True \<Longrightarrow> p = token"
  using utf8_inj [of p token] by (auto simp: check_auth_def utf8_encode_def split: if_splits option.splits)

lemma bearer_Reached: "bearer token app rq = Reached sf \<Longrightarrow> provided_token rq = Some token \<and> sf = app"
proof (cases "provided_token rq")
  case None
  then show "bearer token app rq = Reached sf \<Longrightarrow> provided_token rq = Some token \<and> sf = app"
    by (simp add: bearer_def check_auth_def)
next
  case (Some p)
  assume "bearer token app rq = Reached sf"
  then have "check_auth (Some p) token = Some True \<and> sf = app"
    using Some by (auto simp: bearer_def split: option.splits bool.splits)
  then show "provided_token rq = Some token \<and> sf = app" using check_auth_equal Some by blast
qed

lemma content_needs_the_token:
  assumes "routes = [(lit ''/transfer'', bearer token transfer), (lit ''/mcp'', bearer token' agent)]"
    and "build_app bh AGENT_TOOLS = Inr agent"
    and "dispatch routes rq = Reached sf" "tool_name call \<in> set (sf_tools sf)" "tool_verb call c" "carries_content c"
  shows "provided_token rq = Some token"
proof (cases "mounted (lit ''/transfer'') rq")
  case True
  have "bearer token transfer rq = Reached sf" using assms(3) True by (simp only: assms(1) dispatch_dual if_True)
  from bearer_Reached [OF this] show ?thesis by simp
next
  case False
  then have "(if mounted (lit ''/mcp'') rq then bearer token' agent rq else Answered 404 (lit ''not found'')) = Reached sf"
    using assms(3) by (simp only: assms(1) dispatch_dual if_False)
  then have "bearer token' agent rq = Reached sf" by (simp split: if_splits)
  from bearer_Reached [OF this] have "sf = agent" by simp
  then have "tool_name call \<in> set AGENT_TOOLS" using agent_surface_tools(1) [OF assms(2)] assms(4) by simp
  from agent_tool_verbs [OF this assms(5)] assms(6) show ?thesis by auto
qed

lemma call_on_instance:
  assumes "broker_ready cfg sv" "call_ok (sv_layer sv) s i c"
  shows "i \<in> set (map fst (cf_instances cfg))"
proof -
  have "map_of (l_clients (sv_layer sv)) i \<noteq> None" using assms(2) by (simp add: call_ok_def)
  then have "i \<in> set (map fst (l_clients (sv_layer sv)))" by (simp add: map_of_eq_None_iff)
  moreover have "map fst (l_clients (sv_layer sv)) = map fst (cf_instances cfg)"
    using assms(1) by (simp add: broker_ready_def)
  ultimately show ?thesis by (simp only:)
qed

lemma call_on_record:
  assumes "call_ok l s i c" "store_evolves s t"
  shows "\<forall>(p, m) \<in> set (needs c). clean_path p \<and> (discovery_call l i c \<or> on_record {Active, Revoked} t i p m)"
proof (intro ballI, clarify)
  fix p m assume "(p, m) \<in> set (needs c)"
  with assms(1) have c: "clean_path p" "discovery_call l i c \<or> covered (live_grant s i) p m"
    by (auto simp: call_ok_def)
  then show "clean_path p \<and> (discovery_call l i c \<or> on_record {Active, Revoked} t i p m)"
    using covered_on_record [OF _ assms(2)] by blast
qed

section \<open>The properties\<close>



section \<open>Examples\<close>

definition example_process :: "unit process" where
  "example_process = \<lparr>pr_logger = fresh_logger,
     pr_files = (\<lambda>_. \<lparr>log_file = None, head_file = None, log_readable = True, head_readable = True\<rparr>),
     pr_database = (\<lambda>_. ([], 0, [])), pr_clock = (\<lambda>_. 0), pr_io = (\<lambda>_. (Write_ok, Write_ok)),
     pr_stamp = (\<lambda>_. lit ''2026-01-01T00:00:00Z''), pr_net = (\<lambda>_. Net_ok (lit ''$e'')), pr_others = (\<lambda>_. []),
     pr_remote = (), pr_float = (\<lambda>s. s), pr_params = example_context, pr_audit_text = (\<lambda>_. [])\<rparr>"

lemma example_loaded:
  "\<exists>cfg. load_config example_context (lit ''config.yaml'') (PDict example_raw) = Inr cfg
    \<and> cf_audit_path cfg = PStr (lit ''/data/audit.jsonl'') \<and> cf_raw cfg = example_raw
    \<and> cf_instances cfg = [(lit ''home'', \<lparr>in_url = PStr (lit ''https://cloud''), in_username = PStr (lit ''ann''),
         in_password = lit ''hunter2'', in_discovery = False\<rparr>)]
    \<and> sc_bind_host (cf_server cfg) = None \<and> mx_approver (cf_matrix cfg) = lit ''@a:x''"
  by (simp add: load_config_def make_config_def therefore_def section_defs example_raw_def example_context_def
      require_def secret_def get_or_def section_of_def env_value_def match_id_def re_match_def USER_ID_RE_def
      ROOM_ID_RE_def matrix_id_re_def chr_re_def rep_counts_def id_char_def int_of_def positive_number_def
      instance_block_def str_of_def Let_def lit_def)

lemma example_start:
  "\<exists>cfg routes ls. start_broker example_process (PDict example_raw) = Inr (cfg, routes, ls)
    \<and> others_only P (sv_bot (ls_bot ls)) \<and> mx_approver (cf_matrix cfg) = lit ''@a:x''"
proof -
  obtain cfg where cfg: "load_config example_context (lit ''config.yaml'') (PDict example_raw) = Inr cfg"
    "cf_audit_path cfg = PStr (lit ''/data/audit.jsonl'')" "cf_raw cfg = example_raw"
    "cf_instances cfg = [(lit ''home'', \<lparr>in_url = PStr (lit ''https://cloud''), in_username = PStr (lit ''ann''),
         in_password = lit ''hunter2'', in_discovery = False\<rparr>)]"
    "sc_bind_host (cf_server cfg) = None" "mx_approver (cf_matrix cfg) = lit ''@a:x''"
    using example_loaded by blast
  have params: "pr_params example_process = example_context" by (simp add: example_process_def)
  have level: "wired_level example_context cfg = Inr (lit ''info'')"
    by (simp add: wired_level_def logging_level_def cfg example_raw_def section_of_def get_or_def therefore_def
        str_of_def py_lower_def py_lower_cp_def Let_def lit_def)
  have host: "validate_bind_host None = None" by (simp add: validate_bind_host_def)
  obtain al where al: "open_log (pr_float example_process) [] (pr_files example_process (lit ''/data/audit.jsonl'')) = Inr al"
    by (auto simp: open_log_def load_last_hash_def example_process_def)
  let ?clients = "[(lit ''home'', \<lparr>c_url = lit ''https://cloud'', c_username = lit ''ann'', c_password = lit ''hunter2''\<rparr>)]"
  have others: "pr_others example_process = (\<lambda>_. [])" by (simp add: example_process_def)
  obtain sv where sv: "wire_server example_process cfg (lit ''/data/audit.jsonl'') ?clients None = Inr sv"
      "sv_bind_host sv = None" "others_only P (sv_bot sv)"
    by (simp add: wire_server_def al Let_def new_server_def build_app_def host wire_bot_def others_only_def
        others)
  obtain banner where "log_startup_posture example_context (setup_logging (lit ''info'') (config_secrets cfg)
      (pr_logger example_process)) cfg = Inr banner"
    by (auto simp: log_startup_posture_def setup_logging_def is_scrub_def Let_def example_process_def fresh_logger_def)
  then have "fst (wire_components example_process cfg) = Inr sv"
    by (simp add: wire_components_def params level Let_def cfg sv)
  then show ?thesis
    using cfg(1,6) sv(2,3) params
    by (simp add: start_broker_def build_dual_app_def build_app_def host new_listener_def)
qed

text \<open>A listing on the agent surface, and a sync with a word of a stranger.\<close>

definition example_inputs :: "broker_input list" where
  "example_inputs =
     [Http_request \<lparr>rq_path = lit ''/mcp'', rq_headers = [(lit ''authorization'', lit ''Bearer '' @ replicate 32 97)]\<rparr>
        (List_call (lit ''home'') (lit ''docs'')),
      Sync [\<lparr>me_room = lit ''!r:x'', me_id = Some (lit ''$1''), me_sender = lit ''@eve:x'',
        me_body = Text_event (lit ''approve 1'')\<rparr>] (Sync_response None)]"



end
