(* ===== verification/Cli_Files.thy ===== *)
theory Cli_Files
  imports Server
begin

text \<open>
  The transfer command line, \<open>broker/cli.py\<close>, first part: paths and files, the staging area, the
  advisory locks and the manifests.

  A command runs on the state of its process: the files, the clock, what it printed, the client
  with the session it has, and the remote side; \<open>c_sent\<close> and \<open>c_talk\<close> record, for the theorems, the
  posts and the tool calls with their answers. An operation returns a value or an exception,
  with the state it leaves; a system call that changes files may fail, in a write after some of
  the bytes, as the stream \<open>c_faults\<close> says. A path is the list of its components from the root.
  Symbolic links are not modelled: a component \<open>..\<close> takes back the one before it. Directories list
  their entries in the order of the file system's list.
\<close>

section \<open>Paths\<close>

type_synonym fpath = "pystr list"

definition components :: "pystr \<Rightarrow> fpath" where
  "components s = filter (\<lambda>c. c \<noteq> [] \<and> c \<noteq> lit ''.'') (split_on 47 s)"

text \<open>\<open>base / s\<close>: an absolute \<open>s\<close> replaces the base.\<close>

definition path_join :: "fpath \<Rightarrow> pystr \<Rightarrow> fpath" where
  "path_join base s = (if prefix [47] s then components s else base @ components s)"

definition resolved :: "fpath \<Rightarrow> fpath" where
  "resolved p = foldl (\<lambda>acc c. if c = lit ''..'' then butlast acc else acc @ [c]) [] p"

definition show_path :: "fpath \<Rightarrow> pystr" where
  "show_path p = [47] @ join_on [47] p"

section \<open>Files\<close>

datatype node_content = Folder | Data "nat list"

record node =
  nd_content :: node_content
  nd_mtime :: int
  nd_mode :: nat

type_synonym file_system = "(fpath \<times> node) list"

definition node_at :: "file_system \<Rightarrow> fpath \<Rightarrow> node option" where
  "node_at fs p = map_of fs (resolved p)"

definition is_folder :: "file_system \<Rightarrow> fpath \<Rightarrow> bool" where
  "is_folder fs p \<longleftrightarrow> resolved p = [] \<or> (\<exists>nd. node_at fs p = Some nd \<and> nd_content nd = Folder)"

definition file_bytes :: "file_system \<Rightarrow> fpath \<Rightarrow> nat list option" where
  "file_bytes fs p =
     (case node_at fs p of
        None \<Rightarrow> None
      | Some nd \<Rightarrow> (case nd_content nd of Folder \<Rightarrow> None | Data bs \<Rightarrow> Some bs))"

definition put_node :: "fpath \<Rightarrow> node \<Rightarrow> file_system \<Rightarrow> file_system" where
  "put_node p nd fs =
     (let q = resolved p
      in if q \<in> fst ` set fs then map (\<lambda>(r, n). if r = q then (r, nd) else (r, n)) fs else fs @ [(q, nd)])"

definition drop_node :: "fpath \<Rightarrow> file_system \<Rightarrow> file_system" where
  "drop_node p fs = filter (\<lambda>(r, n). r \<noteq> resolved p) fs"

text \<open>\<open>iterdir\<close>: the names of the entries.\<close>

definition entry_names :: "file_system \<Rightarrow> fpath \<Rightarrow> pystr list" where
  "entry_names fs d = map last (filter (\<lambda>r. r \<noteq> [] \<and> butlast r = resolved d) (map fst fs))"

section \<open>The process\<close>

record mcp_client =
  mc_url :: pystr
  mc_token :: pystr
  mc_id :: int
  mc_session :: "pystr option"

record post =
  po_url :: pystr
  po_token :: pystr
  po_session :: "pystr option"
  po_payload :: pyval

text \<open>What the HTTP library makes of a post: a body with the session header, an error status, a
  \<open>URLError\<close> with its reason, or another exception.\<close>

datatype http_outcome = Http_body pystr "pystr option" | Http_status int | Url_error pystr | Http_raises

record 'r cli =
  c_env :: "pystr \<Rightarrow> pystr option"
  c_home :: "pystr \<Rightarrow> fpath option"
  c_cwd :: fpath
  c_pid :: int
  c_clock :: "nat \<Rightarrow> int"
  c_umasked :: "nat \<Rightarrow> nat"
  c_faults :: "nat \<Rightarrow> nat option"
  c_folder_size :: nat
  c_str :: "pyval \<Rightarrow> pystr"
  c_repr :: "pyval \<Rightarrow> pystr"
  c_float :: "pystr \<Rightarrow> pystr"
  c_json_error :: "pystr \<Rightarrow> pystr"
  c_serve :: "post \<Rightarrow> 'r \<Rightarrow> http_outcome \<times> 'r"
  c_fs :: file_system
  c_ticks :: nat
  c_calls :: nat
  c_out :: "pystr list"
  c_err :: "pystr list"
  c_client :: mcp_client
  c_remote :: 'r
  c_sent :: "post list"
  c_talk :: "(pystr \<times> (pystr \<times> pyval) list \<times> pyval) list"

text \<open>A \<open>CliError\<close>, an \<open>OSError\<close>, or another exception.\<close>

datatype cli_exn = Cli_error pystr | Os_error | Other_error

type_synonym ('r, 'a) act = "'r cli \<Rightarrow> (cli_exn + 'a) \<times> 'r cli"

definition hand_back :: "'a \<Rightarrow> ('r, 'a) act" where
  "hand_back a s = (Inr a, s)"

definition throw :: "cli_exn \<Rightarrow> ('r, 'a) act" where
  "throw e s = (Inl e, s)"

definition andthen :: "('r, 'a) act \<Rightarrow> ('a \<Rightarrow> ('r, 'b) act) \<Rightarrow> ('r, 'b) act" where
  "andthen m f s = (case m s of (Inl e, t) \<Rightarrow> (Inl e, t) | (Inr a, t) \<Rightarrow> f a t)"

text \<open>\<open>try: m; except CliError\<close> as a value and with a handler, \<open>try: m; except OSError: h\<close>, and
  \<open>try: m; finally: f\<close>.\<close>

definition try_cli :: "('r, 'a) act \<Rightarrow> ('r, pystr + 'a) act" where
  "try_cli m s =
     (case m s of
        (Inl (Cli_error t), s1) \<Rightarrow> (Inr (Inl t), s1)
      | (Inl e, s1) \<Rightarrow> (Inl e, s1)
      | (Inr a, s1) \<Rightarrow> (Inr (Inr a), s1))"

definition catch_cli :: "('r, 'a) act \<Rightarrow> (pystr \<Rightarrow> ('r, 'a) act) \<Rightarrow> ('r, 'a) act" where
  "catch_cli m h s = (case m s of (Inl (Cli_error t), s1) \<Rightarrow> h t s1 | (r, s1) \<Rightarrow> (r, s1))"

definition catch_os :: "('r, 'a) act \<Rightarrow> ('r, 'a) act \<Rightarrow> ('r, 'a) act" where
  "catch_os m h s = (case m s of (Inl Os_error, s1) \<Rightarrow> h s1 | (r, s1) \<Rightarrow> (r, s1))"

definition finally_do :: "('r, 'a) act \<Rightarrow> ('r, unit) act \<Rightarrow> ('r, 'a) act" where
  "finally_do m f s =
     (case m s of (r, s1) \<Rightarrow> (case f s1 of (Inl e, s2) \<Rightarrow> (Inl e, s2) | (Inr u, s2) \<Rightarrow> (r, s2)))"

definition ask :: "('r cli \<Rightarrow> 'a) \<Rightarrow> ('r, 'a) act" where
  "ask f s = (Inr (f s), s)"

definition say_out :: "pystr \<Rightarrow> ('r, unit) act" where
  "say_out t s = (Inr (), s\<lparr>c_out := c_out s @ [t]\<rparr>)"

definition say_err :: "pystr \<Rightarrow> ('r, unit) act" where
  "say_err t s = (Inr (), s\<lparr>c_err := c_err s @ [t]\<rparr>)"

text \<open>\<open>time.time()\<close>, in microseconds.\<close>

definition clock_now :: "'r cli \<Rightarrow> int" where
  "clock_now s = c_clock s (c_ticks s)"

definition read_time :: "('r, int) act" where
  "read_time s = (Inr (clock_now s), s\<lparr>c_ticks := c_ticks s + 1\<rparr>)"

section \<open>System calls\<close>

text \<open>A call that changes the files at the given time: it may fail as a whole, by a fault or
  because of what is there.\<close>

definition change :: "(int \<Rightarrow> file_system \<Rightarrow> file_system option) \<Rightarrow> ('r, unit) act" where
  "change f s =
     (let s1 = s\<lparr>c_calls := c_calls s + 1\<rparr>
      in case c_faults s (c_calls s) of
           Some k \<Rightarrow> (Inl Os_error, s1)
         | None \<Rightarrow> (case f (clock_now s) (c_fs s) of
                      None \<Rightarrow> (Inl Os_error, s1)
                    | Some fs \<Rightarrow> (Inr (), s1\<lparr>c_fs := fs\<rparr>)))"

definition make_folder :: "fpath \<Rightarrow> nat \<Rightarrow> int \<Rightarrow> file_system \<Rightarrow> file_system option" where
  "make_folder p mode now fs =
     (if is_folder fs p then Some fs
      else if node_at fs p \<noteq> None \<or> \<not> is_folder fs (butlast p) then None
      else Some (put_node p \<lparr>nd_content = Folder, nd_mtime = now, nd_mode = mode\<rparr> fs))"

definition set_mode :: "fpath \<Rightarrow> nat \<Rightarrow> int \<Rightarrow> file_system \<Rightarrow> file_system option" where
  "set_mode p mode now fs =
     (if resolved p = [] then Some fs
      else case node_at fs p of None \<Rightarrow> None | Some nd \<Rightarrow> Some (put_node p (nd\<lparr>nd_mode := mode\<rparr>) fs))"

text \<open>\<open>open(p, "w")\<close>: a new file, or the old one emptied.\<close>

definition open_file :: "fpath \<Rightarrow> nat \<Rightarrow> int \<Rightarrow> file_system \<Rightarrow> file_system option" where
  "open_file p mode now fs =
     (if is_folder fs p \<or> \<not> is_folder fs (butlast p) then None
      else case node_at fs p of
             None \<Rightarrow> Some (put_node p \<lparr>nd_content = Data [], nd_mtime = now, nd_mode = mode\<rparr> fs)
           | Some nd \<Rightarrow> Some (put_node p (nd\<lparr>nd_content := Data [], nd_mtime := now\<rparr>) fs))"

definition fill_file :: "fpath \<Rightarrow> nat list \<Rightarrow> int \<Rightarrow> file_system \<Rightarrow> file_system option" where
  "fill_file p bs now fs =
     (case node_at fs p of
        None \<Rightarrow> None
      | Some nd \<Rightarrow> Some (put_node p (nd\<lparr>nd_content := Data bs, nd_mtime := now\<rparr>) fs))"

definition rename_file :: "fpath \<Rightarrow> fpath \<Rightarrow> int \<Rightarrow> file_system \<Rightarrow> file_system option" where
  "rename_file p q now fs =
     (case node_at fs p of
        None \<Rightarrow> None
      | Some nd \<Rightarrow>
          if is_folder fs q \<or> \<not> is_folder fs (butlast q) then None
          else Some (put_node q nd (drop_node p fs)))"

definition remove_file :: "fpath \<Rightarrow> int \<Rightarrow> file_system \<Rightarrow> file_system option" where
  "remove_file p now fs = (if is_folder fs p then None else Some (drop_node p fs))"

text \<open>\<open>os.write\<close> on the file just opened: a fault leaves the first bytes.\<close>

definition write_bytes :: "fpath \<Rightarrow> nat list \<Rightarrow> ('r, unit) act" where
  "write_bytes p bs s =
     (case c_faults s (c_calls s) of
        None \<Rightarrow> change (fill_file p bs) s
      | Some k \<Rightarrow>
          (Inl Os_error, s\<lparr>c_calls := c_calls s + 1,
             c_fs := (case fill_file p (take k bs) (clock_now s) (c_fs s) of None \<Rightarrow> c_fs s | Some fs \<Rightarrow> fs)\<rparr>))"

definition flush_file :: "('r, unit) act" where
  "flush_file = change (\<lambda>now fs. Some fs)"

text \<open>\<open>os.open(p, O_CREAT | O_EXCL | O_WRONLY, mode)\<close>: False stands for \<open>FileExistsError\<close>.\<close>

definition create_new :: "fpath \<Rightarrow> nat \<Rightarrow> ('r, bool) act" where
  "create_new p mode s =
     (if is_folder (c_fs s) p \<or> node_at (c_fs s) p \<noteq> None then (Inr False, s\<lparr>c_calls := c_calls s + 1\<rparr>)
      else andthen (change (open_file p mode)) (\<lambda>_. hand_back True) s)"

text \<open>\<open>mkdir(parents=True, exist_ok=True, mode)\<close>: the folders above first.\<close>

fun make_folders :: "fpath \<Rightarrow> fpath \<Rightarrow> nat \<Rightarrow> ('r, unit) act" where
  "make_folders done_part [] mode = hand_back ()"
| "make_folders done_part (c # rest) mode =
     andthen (ask c_umasked) (\<lambda>umasked.
     andthen (change (make_folder (done_part @ [c]) (umasked (if rest = [] then mode else 511)))) (\<lambda>_.
     make_folders (done_part @ [c]) rest mode))"

definition ensure_private_dir :: "fpath \<Rightarrow> ('r, unit) act" where
  "ensure_private_dir p =
     andthen (make_folders [] p 448) (\<lambda>_. change (set_mode p 448))"

section \<open>Where things are\<close>

text \<open>\<open>Path(s).expanduser()\<close>, taken from the working directory when it is relative; a home that
  cannot be found is a \<open>RuntimeError\<close>.\<close>

definition user_path :: "pystr \<Rightarrow> ('r, fpath) act" where
  "user_path s st =
     (if prefix [47] s then (Inr (components s), st)
      else case components s of
             c # rest \<Rightarrow>
               if prefix [126] c
               then (case c_home st c of None \<Rightarrow> (Inl Other_error, st) | Some h \<Rightarrow> (Inr (h @ rest), st))
               else (Inr (c_cwd st @ c # rest), st)
           | [] \<Rightarrow> (Inr (c_cwd st), st))"

definition state_base :: "('r, fpath) act" where
  "state_base =
     andthen (ask c_env) (\<lambda>env.
       user_path (case env (lit ''XDG_STATE_HOME'') of None \<Rightarrow> lit ''~/.local/state'' | Some v \<Rightarrow> v))"

definition staging_root :: "pystr option \<Rightarrow> ('r, fpath) act" where
  "staging_root profile =
     andthen state_base (\<lambda>base.
     andthen (ask c_env) (\<lambda>env.
       let p = (if profile \<noteq> None \<and> profile \<noteq> Some [] then the profile
                else case env (lit ''BROKER_CLI_PROFILE'') of None \<Rightarrow> lit ''default'' | Some v \<Rightarrow> v)
       in hand_back (path_join (base @ [lit ''nc-broker'', lit ''staging'']) p)))"

text \<open>An argument that cannot be encoded is a \<open>UnicodeEncodeError\<close>.\<close>

definition lock_path :: "pystr \<Rightarrow> pystr \<Rightarrow> ('r, fpath) act" where
  "lock_path remote_path inst =
     andthen state_base (\<lambda>base.
       case utf8_encode (inst @ lit ''/'' @ remote_path) of
         None \<Rightarrow> throw Other_error
       | Some bs \<Rightarrow>
           hand_back (path_join (path_join (base @ [lit ''nc-broker'', lit ''locks'']) inst)
             (take 32 (sha256_hex bs) @ lit ''.lock'')))"

section \<open>Locks\<close>

definition LOCK_STALE_SECONDS :: int where
  "LOCK_STALE_SECONDS = 120"

text \<open>The age of a lock file; a file that cannot be read has the age 0.\<close>

definition lock_age :: "int \<Rightarrow> file_system \<Rightarrow> fpath \<Rightarrow> int" where
  "lock_age now fs p = (case node_at fs p of None \<Rightarrow> 0 | Some nd \<Rightarrow> now - nd_mtime nd)"

definition lock_text :: "int \<Rightarrow> int \<Rightarrow> nat list" where
  "lock_text pid now = py_str_int pid @ [32] @ py_str_int (now div MICROSECONDS) @ [10]"

definition write_lock_text :: "fpath \<Rightarrow> ('r, bool) act" where
  "write_lock_text p =
     andthen (ask c_pid) (\<lambda>pid.
     andthen read_time (\<lambda>now.
     andthen (write_bytes p (lock_text pid now)) (\<lambda>_. hand_back True)))"

definition acquire_lock :: "pystr \<Rightarrow> pystr \<Rightarrow> ('r, bool) act" where
  "acquire_lock remote_path inst =
     andthen (lock_path remote_path inst) (\<lambda>p.
     andthen (ensure_private_dir (butlast p)) (\<lambda>_.
     andthen (create_new p 384) (\<lambda>created.
       if created then write_lock_text p
       else
         andthen read_time (\<lambda>now.
         andthen (ask (\<lambda>s. lock_age now (c_fs s) p)) (\<lambda>age.
           if age > LOCK_STALE_SECONDS * MICROSECONDS
           then andthen (change (remove_file p)) (\<lambda>_.
                andthen (create_new p 384) (\<lambda>again.
                  if again then write_lock_text p else hand_back False))
           else hand_back False)))))"

definition release_lock :: "pystr \<Rightarrow> pystr \<Rightarrow> ('r, unit) act" where
  "release_lock remote_path inst =
     andthen (lock_path remote_path inst) (\<lambda>p. change (remove_file p))"

section \<open>The staging area\<close>

definition GC_MAX_AGE_DAYS :: int where
  "GC_MAX_AGE_DAYS = 7"

definition GC_MAX_TOTAL_BYTES :: nat where
  "GC_MAX_TOTAL_BYTES = 512 * 1024 * 1024"

text \<open>\<open>shutil.rmtree(entry, ignore_errors=True)\<close>: the deepest entries first, whatever fails is left.\<close>

definition below :: "file_system \<Rightarrow> fpath \<Rightarrow> fpath list" where
  "below fs d = rev (sort_key length (filter (prefix (resolved d)) (map fst fs)))"

definition remove_entry :: "fpath \<Rightarrow> int \<Rightarrow> file_system \<Rightarrow> file_system option" where
  "remove_entry p now fs =
     (if \<exists>q \<in> fst ` set fs. strict_prefix (resolved p) q then None else Some (drop_node p fs))"

fun remove_each :: "fpath list \<Rightarrow> ('r, unit) act" where
  "remove_each [] = hand_back ()"
| "remove_each (p # ps) =
     andthen (catch_os (change (remove_entry p)) (hand_back ())) (\<lambda>_. remove_each ps)"

definition remove_tree :: "fpath \<Rightarrow> ('r, unit) act" where
  "remove_tree p = andthen (ask (\<lambda>s. below (c_fs s) p)) remove_each"

text \<open>The inner loop of \<open>gc_staging\<close>: the paths of the entries that were removed.\<close>

definition gc_entry :: "int \<Rightarrow> fpath \<Rightarrow> ('r, pystr list) act" where
  "gc_entry cutoff p =
     andthen (ask c_fs) (\<lambda>fs.
       case node_at fs p of
         None \<Rightarrow> hand_back []
       | Some nd \<Rightarrow>
           if nd_mtime nd < cutoff
           then catch_os
                  (andthen (if nd_content nd = Folder then remove_tree p else change (remove_file p))
                    (\<lambda>_. hand_back [show_path p]))
                  (hand_back [])
           else hand_back [])"

fun gc_entries :: "int \<Rightarrow> fpath \<Rightarrow> pystr list \<Rightarrow> ('r, pystr list) act" where
  "gc_entries cutoff d [] = hand_back []"
| "gc_entries cutoff d (n # ns) =
     andthen (gc_entry cutoff (d @ [n])) (\<lambda>r.
     andthen (gc_entries cutoff d ns) (\<lambda>rs. hand_back (r @ rs)))"

fun gc_folders :: "int \<Rightarrow> fpath \<Rightarrow> pystr list \<Rightarrow> ('r, pystr list) act" where
  "gc_folders cutoff root [] = hand_back []"
| "gc_folders cutoff root (n # ns) =
     andthen (ask c_fs) (\<lambda>fs.
     andthen (if is_folder fs (root @ [n]) then gc_entries cutoff (root @ [n]) (entry_names fs (root @ [n]))
              else hand_back []) (\<lambda>r.
     andthen (gc_folders cutoff root ns) (\<lambda>rs. hand_back (r @ rs))))"

definition gc_staging :: "pystr option \<Rightarrow> ('r, pystr list) act" where
  "gc_staging profile =
     andthen (staging_root profile) (\<lambda>root.
     andthen (ask c_fs) (\<lambda>fs.
       if \<not> is_folder fs root \<and> node_at fs root = None then hand_back []
       else if \<not> is_folder fs root then throw Os_error
       else
         andthen read_time (\<lambda>now.
           gc_folders (now - GC_MAX_AGE_DAYS * 86400 * MICROSECONDS) root (entry_names fs root))))"

definition node_size :: "nat \<Rightarrow> node \<Rightarrow> nat" where
  "node_size folder_size nd = (case nd_content nd of Folder \<Rightarrow> folder_size | Data bs \<Rightarrow> length bs)"

text \<open>The sizes of the entries of the folders in the root; a root that is a file cannot be listed.\<close>

definition staging_total_bytes :: "fpath \<Rightarrow> ('r, nat) act" where
  "staging_total_bytes root s =
     (let fs = c_fs s;
          folders = filter (is_folder fs) (map (\<lambda>n. root @ [n]) (entry_names fs root));
          entries = concat (map (\<lambda>d. map (\<lambda>n. d @ [n]) (entry_names fs d)) folders)
      in if node_at fs root \<noteq> None \<and> \<not> is_folder fs root then (Inl Os_error, s)
         else (Inr (sum_list (map (\<lambda>p. case node_at fs p of None \<Rightarrow> 0 | Some nd \<Rightarrow> node_size (c_folder_size s) nd)
                entries)), s))"

section \<open>Manifests\<close>

text \<open>\<open>json.dumps(record, sort_keys=True, indent=2)\<close>.\<close>

definition indent :: "nat \<Rightarrow> pystr" where
  "indent level = [10] @ replicate (2 * level) 32"

function dumps_indent :: "nat \<Rightarrow> pyval \<Rightarrow> pystr" where
  "dumps_indent level (PList vs) =
     (if vs = [] then lit ''[]''
      else [91] @ indent (level + 1) @ join_on ([44] @ indent (level + 1)) (map (dumps_indent (level + 1)) vs)
        @ indent level @ [93])"
| "dumps_indent level (PDict d) =
     (if d = [] then lit ''{}''
      else [123] @ indent (level + 1)
        @ join_on ([44] @ indent (level + 1))
            (map (\<lambda>(k, t). json_str k @ lit '': '' @ t)
              (sort_key fst (map (\<lambda>(k, v). (k, dumps_indent (level + 1) v)) d)))
        @ indent level @ [125])"
| "dumps_indent level PNone = dumps PNone"
| "dumps_indent level (PBool b) = dumps (PBool b)"
| "dumps_indent level (PInt i) = dumps (PInt i)"
| "dumps_indent level (PFloat t) = dumps (PFloat t)"
| "dumps_indent level (PStr s) = dumps (PStr s)"
  by pat_completeness auto
termination
  by (relation "measure (\<lambda>(level, v). size v)")
    (auto dest!: size_list_estimation' [where f = size, OF _ order_refl]
      size_list_estimation' [where f = "size_prod (\<lambda>x. 0) size", OF _ order_refl] simp: less_Suc_eq_le)

definition manifest_text :: "pyval \<Rightarrow> pystr" where
  "manifest_text record = dumps_indent 0 record @ [10]"

definition write_manifest :: "fpath \<Rightarrow> pystr \<Rightarrow> pyval \<Rightarrow> ('r, fpath) act" where
  "write_manifest staging_dir digest record =
     (let manifest = path_join staging_dir (digest @ lit ''.json'');
          tmp = path_join staging_dir (lit ''.'' @ digest @ lit ''.json.tmp'')
      in andthen (ask c_umasked) (\<lambda>umasked.
         andthen (change (open_file tmp (umasked 438))) (\<lambda>_.
         andthen (write_bytes tmp (manifest_text record)) (\<lambda>_.
         andthen (change (set_mode tmp 384)) (\<lambda>_.
         andthen (change (rename_file tmp manifest)) (\<lambda>_.
           hand_back manifest))))))"

section \<open>The kind of the content\<close>

definition MAGIC :: "(nat list \<times> pystr) list" where
  "MAGIC =
     [(lit ''%PDF'', lit ''pdf''), ([137, 80, 78, 71], lit ''png''), ([255, 216, 255], lit ''jpeg''),
      ([80, 75, 3, 4], lit ''zip''), ([31, 139], lit ''gzip''), (lit ''ustar'', lit ''tar''), (lit ''OggS'', lit ''ogg'')]"

definition sniff :: "nat list \<Rightarrow> pystr" where
  "sniff bs = (case filter (\<lambda>(m, n). prefix m bs) MAGIC of [] \<Rightarrow> lit ''unknown'' | (m, n) # _ \<Rightarrow> n)"

end
