(* ===== verification/Cli.thy ===== *)
theory Cli
  imports Cli_Files
begin

text \<open>
  The transfer command line, \<open>broker/cli.py\<close>, second part: the MCP client, the commands and
  \<open>main\<close>. Arguments come as \<open>argparse\<close> leaves them. The HTTP library with the broker behind it is
  the field \<open>c_serve\<close>: it takes a post and answers with an outcome.
\<close>

section \<open>The client\<close>

definition CLI_VERSION :: pystr where
  "CLI_VERSION = lit ''0.1.0''"

definition TOKEN_ENV :: pystr where
  "TOKEN_ENV = lit ''BROKER_TRANSFER_TOKEN''"

text \<open>\<open>dict.get(key, dflt)\<close> of a value that may be no dictionary.\<close>

definition get_from :: "pyval \<Rightarrow> pystr \<Rightarrow> pyval \<Rightarrow> cli_exn + pyval" where
  "get_from v key dflt =
     (case v of PDict d \<Rightarrow> Inr (case map_of d key of None \<Rightarrow> dflt | Some x \<Rightarrow> x) | _ \<Rightarrow> Inl Other_error)"

definition lift_result :: "cli_exn + 'a \<Rightarrow> ('r, 'a) act" where
  "lift_result r s = (r, s)"

abbreviation get_field :: "pyval \<Rightarrow> pystr \<Rightarrow> pyval \<Rightarrow> ('r, pyval) act" where
  "get_field v key dflt \<equiv> lift_result (get_from v key dflt)"

text \<open>The lines \<open>data:\<close> of an event stream, and the last of them that is a JSON-RPC response.\<close>

definition data_lines :: "pystr \<Rightarrow> pystr list" where
  "data_lines t = map (\<lambda>l. py_strip (drop 5 l)) (filter (prefix (lit ''data:'')) (splitlines t))"

fun last_response :: "(pystr \<Rightarrow> pystr) \<Rightarrow> pystr list \<Rightarrow> (pystr \<times> pyval) list option" where
  "last_response fl [] = None"
| "last_response fl (l # ls) =
     (case loads fl l of
        Some (PDict d) \<Rightarrow>
          if lit ''id'' \<in> fst ` set d \<or> lit ''result'' \<in> fst ` set d then Some d else last_response fl ls
      | _ \<Rightarrow> last_response fl ls)"

definition read_envelope :: "(pystr \<Rightarrow> pystr) \<Rightarrow> (pystr \<Rightarrow> pystr) \<Rightarrow> pystr \<Rightarrow> cli_exn + pyval" where
  "read_envelope fl json_error body =
     (let t = py_strip body
      in if prefix [123] t
         then (case loads fl t of
                 None \<Rightarrow> Inl (Cli_error (lit ''broker response is not valid JSON: '' @ json_error t))
               | Some v \<Rightarrow> Inr v)
         else if data_lines t = []
         then Inl (Cli_error (lit ''unparseable broker response (no JSON, no SSE data)''))
         else (case last_response fl (rev (data_lines t)) of
                 None \<Rightarrow> Inl (Cli_error (lit ''no JSON-RPC response in SSE stream''))
               | Some d \<Rightarrow> Inr (PDict d)))"

text \<open>The value of a tool: the text of the first content block, read as JSON.\<close>

definition tool_value :: "(pystr \<Rightarrow> pystr) \<Rightarrow> pyval \<Rightarrow> cli_exn + pyval" where
  "tool_value fl result =
     (let dict = (case result of PDict d \<Rightarrow> result | _ \<Rightarrow> PDict [])
      in case (case result of PDict d \<Rightarrow> dict_get d (lit ''content'') | _ \<Rightarrow> PNone) of
           PList (block # _) \<Rightarrow>
             (case get_from block (lit ''text'') PNone of
                Inl e \<Rightarrow> Inl e
              | Inr inner \<Rightarrow>
                  if \<not> truthy inner then Inr dict
                  else (case inner of
                          PStr t \<Rightarrow> Inr (case loads fl t of None \<Rightarrow> PDict [(lit ''raw'', PStr t)] | Some v \<Rightarrow> v)
                        | _ \<Rightarrow> Inl Other_error))
         | _ \<Rightarrow> Inr dict)"

definition parse_response ::
  "(pystr \<Rightarrow> pystr) \<Rightarrow> (pystr \<Rightarrow> pystr) \<Rightarrow> (pyval \<Rightarrow> pystr) \<Rightarrow> pystr \<Rightarrow> cli_exn + pyval" where
  "parse_response fl json_error str_val body =
     (case read_envelope fl json_error body of
        Inl e \<Rightarrow> Inl e
      | Inr envelope \<Rightarrow>
          (case get_from envelope (lit ''error'') PNone of
             Inl e \<Rightarrow> Inl e
           | Inr err \<Rightarrow>
               if truthy err then Inl (Cli_error (lit ''broker rpc error: '' @ str_val err))
               else (case get_from envelope (lit ''result'') (PDict []) of
                       Inl e \<Rightarrow> Inl e
                     | Inr result \<Rightarrow> tool_value fl result)))"

definition send_post :: "pyval \<Rightarrow> ('r, http_outcome) act" where
  "send_post payload s =
     (let cl = c_client s;
          p = \<lparr>po_url = mc_url cl, po_token = mc_token cl,
               po_session = (if mc_session cl = Some [] then None else mc_session cl), po_payload = payload\<rparr>
      in case c_serve s p (c_remote s) of
           (r, w) \<Rightarrow> (Inr r, s\<lparr>c_remote := w, c_sent := c_sent s @ [p]\<rparr>))"

definition set_session :: "pystr option \<Rightarrow> ('r, unit) act" where
  "set_session session s = (Inr (), s\<lparr>c_client := (c_client s)\<lparr>mc_session := session\<rparr>\<rparr>)"

definition next_id :: "('r, int) act" where
  "next_id s =
     (let k = mc_id (c_client s) + 1 in (Inr k, s\<lparr>c_client := (c_client s)\<lparr>mc_id := k\<rparr>\<rparr>))"

definition post_payload :: "pyval \<Rightarrow> bool \<Rightarrow> ('r, pyval) act" where
  "post_payload payload expect_session =
     andthen (send_post payload) (\<lambda>outcome.
       case outcome of
         Http_status code \<Rightarrow>
           throw (Cli_error
             (if code = 401
              then lit ''broker rejected the transfer token (401); check ''
                @ TOKEN_ENV @ lit '' against the /transfer surface token''
              else lit ''broker HTTP '' @ py_str_int code))
       | Url_error reason \<Rightarrow> throw (Cli_error (lit ''broker unreachable: '' @ reason))
       | Http_raises \<Rightarrow> throw Other_error
       | Http_body body session \<Rightarrow>
           andthen (if expect_session then set_session session else hand_back ()) (\<lambda>_.
           andthen (ask (\<lambda>s. parse_response (c_float s) (c_json_error s) (c_str s) body)) lift_result))"

definition rpc :: "int \<Rightarrow> pystr \<Rightarrow> pyval \<Rightarrow> pyval" where
  "rpc k meth params =
     PDict [(lit ''jsonrpc'', PStr (lit ''2.0'')), (lit ''id'', PInt k), (lit ''method'', PStr meth),
       (lit ''params'', params)]"

definition initialize_session :: "('r, unit) act" where
  "initialize_session =
     andthen next_id (\<lambda>k.
     andthen (post_payload
       (rpc k (lit ''initialize'')
         (PDict [(lit ''protocolVersion'', PStr (lit ''2026-07-28'')), (lit ''capabilities'', PDict []),
            (lit ''clientInfo'', PDict [(lit ''name'', PStr (lit ''broker-cli'')), (lit ''version'', PStr CLI_VERSION)])]))
       True) (\<lambda>_. hand_back ()))"

definition note_answer :: "pystr \<Rightarrow> (pystr \<times> pyval) list \<Rightarrow> pyval \<Rightarrow> ('r, unit) act" where
  "note_answer tool args out s = (Inr (), s\<lparr>c_talk := c_talk s @ [(tool, args, out)]\<rparr>)"

definition call_remote :: "pystr \<Rightarrow> (pystr \<times> pyval) list \<Rightarrow> ('r, pyval) act" where
  "call_remote tool args =
     andthen (ask (\<lambda>s. mc_session (c_client s))) (\<lambda>session.
     andthen (if session = None then initialize_session else hand_back ()) (\<lambda>_.
     andthen next_id (\<lambda>k.
     andthen (post_payload
       (rpc k (lit ''tools/call'') (PDict [(lit ''name'', PStr tool), (lit ''arguments'', PDict args)])) False) (\<lambda>out.
     andthen (note_answer tool args out) (\<lambda>_. hand_back out)))))"

section \<open>Envelopes\<close>

text \<open>\<open>f"...{out.get(key, dflt)}"\<close>.\<close>

definition shown_field :: "pyval \<Rightarrow> pystr \<Rightarrow> pystr \<Rightarrow> ('r, pystr) act" where
  "shown_field out key dflt =
     andthen (get_field out key (PStr dflt)) (\<lambda>v. ask (\<lambda>s. c_str s v))"

definition unexpected_status :: "pyval \<Rightarrow> ('r, pystr) act" where
  "unexpected_status status = ask (\<lambda>s. lit ''unexpected envelope status '' @ c_repr s status)"

text \<open>\<open>out.get("result") or {}\<close>.\<close>

definition result_of :: "pyval \<Rightarrow> ('r, pyval) act" where
  "result_of out =
     andthen (get_field out (lit ''result'') PNone) (\<lambda>r. hand_back (if truthy r then r else PDict []))"

text \<open>What \<open>_read_file_remote\<close> does with the answer.\<close>

definition read_answer :: "pyval \<Rightarrow> ('r, nat list) act" where
  "read_answer out =
     andthen (get_field out (lit ''status'') PNone) (\<lambda>status.
       if status = PStr (lit ''refused'')
       then andthen (shown_field out (lit ''reason'') (lit ''no active grant'')) (\<lambda>t.
              throw (Cli_error (lit ''REFUSED: '' @ t)))
       else if status = PStr (lit ''error'')
       then andthen (shown_field out (lit ''message'') (lit ''unknown'')) (\<lambda>t.
              throw (Cli_error (lit ''INFRA: broker error: '' @ t)))
       else if status \<noteq> PStr (lit ''ok'')
       then andthen (unexpected_status status) (\<lambda>t. throw (Cli_error (lit ''INFRA: '' @ t)))
       else
         andthen (result_of out) (\<lambda>result.
         andthen (get_field result (lit ''content_b64'') PNone) (\<lambda>content.
           case content of
             PStr t \<Rightarrow>
               (case b64_decode t of
                  None \<Rightarrow> throw (Cli_error (lit ''VERIFY: content is not valid base64''))
                | Some bs \<Rightarrow> hand_back bs)
           | _ \<Rightarrow> throw (Cli_error (lit ''VERIFY: no content_b64 in envelope'')))))"

definition read_args :: "pystr \<Rightarrow> pystr \<Rightarrow> (pystr \<times> pyval) list" where
  "read_args inst path = [(lit ''instance'', PStr inst), (lit ''path'', PStr path)]"

definition read_file_remote :: "pystr \<Rightarrow> pystr \<Rightarrow> ('r, nat list) act" where
  "read_file_remote inst path = andthen (call_remote (lit ''read'') (read_args inst path)) read_answer"

definition checkout_answer :: "pyval \<Rightarrow> ('r, nat list \<times> pyval) act" where
  "checkout_answer out =
     andthen (get_field out (lit ''status'') PNone) (\<lambda>status.
       if status = PStr (lit ''refused'')
       then andthen (shown_field out (lit ''reason'') (lit ''no active grant'')) (\<lambda>t.
              throw (Cli_error (lit ''REFUSED: '' @ t)))
       else if status = PStr (lit ''error'')
       then andthen (shown_field out (lit ''message'') (lit ''unknown'')) (\<lambda>t.
              throw (Cli_error (lit ''INFRA: '' @ t)))
       else if status \<noteq> PStr (lit ''ok'')
       then andthen (unexpected_status status) (\<lambda>t. throw (Cli_error (lit ''INFRA: '' @ t)))
       else
         andthen (result_of out) (\<lambda>result.
         andthen (get_field result (lit ''content_b64'') PNone) (\<lambda>content.
         andthen (get_field result (lit ''lock_token'') PNone) (\<lambda>lock_token.
           case content of
             PStr t \<Rightarrow>
               if \<not> truthy lock_token then throw (Cli_error (lit ''VERIFY: checkout returned no lock_token''))
               else (case b64_decode t of
                       None \<Rightarrow> throw (Cli_error (lit ''VERIFY: checkout content is not valid base64''))
                     | Some bs \<Rightarrow> hand_back (bs, lock_token))
           | _ \<Rightarrow> throw (Cli_error (lit ''VERIFY: no content_b64 in checkout envelope''))))))"

definition checkout_remote :: "pystr \<Rightarrow> pystr \<Rightarrow> int \<Rightarrow> ('r, nat list \<times> pyval) act" where
  "checkout_remote inst path timeout =
     andthen (call_remote (lit ''checkout'') (read_args inst path @ [(lit ''timeout'', PInt timeout)])) checkout_answer"

section \<open>Exit codes\<close>

definition EXIT_OK :: int where "EXIT_OK = 0"
definition EXIT_LOCAL :: int where "EXIT_LOCAL = 1"
definition EXIT_INFRA :: int where "EXIT_INFRA = 2"
definition EXIT_REFUSED :: int where "EXIT_REFUSED = 3"
definition EXIT_VERIFICATION :: int where "EXIT_VERIFICATION = 4"
definition EXIT_CLOBBER :: int where "EXIT_CLOBBER = 5"

definition leave :: "int \<Rightarrow> pystr \<Rightarrow> ('r, int) act" where
  "leave code t = andthen (say_err (lit ''broker-cli: '' @ t)) (\<lambda>_. hand_back code)"

definition cli_error_exit :: "pystr \<Rightarrow> ('r, int) act" where
  "cli_error_exit message =
     (if prefix (lit ''REFUSED:'') message
      then leave EXIT_REFUSED (lit ''refused: '' @ py_strip (drop 8 message))
      else if prefix (lit ''VERIFY:'') message
      then leave EXIT_VERIFICATION (lit ''verification: '' @ py_strip (drop 7 message))
      else if prefix (lit ''INFRA:'') message
      then leave EXIT_INFRA (lit ''infra: '' @ py_strip (drop 6 message))
      else leave EXIT_LOCAL (lit ''local: '' @ message))"

section \<open>The commands\<close>

record cli_args =
  ar_instance :: pystr
  ar_path :: pystr
  ar_to_dir :: "pystr option"
  ar_profile :: "pystr option"
  ar_url :: "pystr option"
  ar_expect_magic :: bool
  ar_from_file :: pystr
  ar_force :: bool
  ar_expect_size :: "int option"
  ar_expect_sha :: "pystr option"
  ar_timeout :: int
  ar_manifest_sha :: "pystr option"
  ar_staging_command :: pystr

datatype command = Fetch | Push | Checkout | Checkin | Staging

text \<open>\<open>read_text()\<close>, which refuses what is not UTF-8.\<close>

definition text_of :: "nat list \<Rightarrow> pystr option" where
  "text_of bs = (let t = utf8_decode bs in if utf8_encode t = Some bs then Some t else None)"

definition strip_char :: "cp \<Rightarrow> pystr \<Rightarrow> pystr" where
  "strip_char c s = rev (dropWhile (\<lambda>x. x = c) (rev (dropWhile (\<lambda>x. x = c) s)))"

text \<open>The value of the first line that starts with \<open>broker_url\<close>; one without an equals sign is an
  \<open>IndexError\<close>.\<close>

fun configured_url :: "pystr list \<Rightarrow> cli_exn + pystr option" where
  "configured_url [] = Inr None"
| "configured_url (l # ls) =
     (let line = py_strip l
      in if prefix (lit ''broker_url'') line
         then (case dropWhile (\<lambda>c. c \<noteq> 61) line of
                 [] \<Rightarrow> Inl Other_error
               | _ # v \<Rightarrow> Inr (Some (strip_char 39 (strip_char 34 (py_strip v)))))
         else configured_url ls)"

definition no_url :: pystr where
  "no_url = lit ''no broker URL: pass --url or set broker_url in ~/.config/nc-broker/config.toml (0600)''"

text \<open>The URL in the configuration file.\<close>

definition file_url :: "('r, pystr) act" where
  "file_url =
     andthen (user_path (lit ''~/.config/nc-broker/config.toml'')) (\<lambda>p.
     andthen (ask (\<lambda>s. file_bytes (c_fs s) p)) (\<lambda>found.
       case found of
         None \<Rightarrow> throw (Cli_error no_url)
       | Some bs \<Rightarrow>
           (case text_of bs of
              None \<Rightarrow> throw Other_error
            | Some t \<Rightarrow>
                andthen (lift_result (configured_url (splitlines t))) (\<lambda>url.
                  case url of
                    None \<Rightarrow> throw (Cli_error no_url)
                  | Some u \<Rightarrow> if u = [] then throw (Cli_error no_url) else hand_back u))))"

definition resolve_url :: "cli_args \<Rightarrow> ('r, pystr) act" where
  "resolve_url a =
     (case ar_url a of
        Some (c # cs) \<Rightarrow>
          andthen (say_err (lit ''broker-cli: WARNING: using broker URL from ARGV ('' @ c # cs
            @ lit '') '' @ [8212] @ lit '' verify this is intended'')) (\<lambda>_. hand_back (c # cs))
      | _ \<Rightarrow> file_url)"

text \<open>\<open>McpClient(url, token)\<close>.\<close>

definition new_client :: "pystr \<Rightarrow> pystr \<Rightarrow> ('r, unit) act" where
  "new_client url token s =
     (Inr (), s\<lparr>c_client := \<lparr>mc_url = url, mc_token = token, mc_id = 0, mc_session = None\<rparr>\<rparr>)"

text \<open>The beginning that all four transfers share: the token, the URL and the client.\<close>

definition with_client :: "cli_args \<Rightarrow> (pystr \<Rightarrow> ('r, int) act) \<Rightarrow> ('r, int) act" where
  "with_client a body =
     andthen (ask c_env) (\<lambda>env.
       case env TOKEN_ENV of
         Some (c # cs) \<Rightarrow>
           andthen (resolve_url a) (\<lambda>url.
           andthen (new_client url (c # cs)) (\<lambda>_. body url))
       | _ \<Rightarrow> leave EXIT_LOCAL (lit ''local: '' @ TOKEN_ENV @ lit '' is not set''))"

text \<open>\<open>time.strftime("%Y-%m-%dT%H:%M:%SZ", time.gmtime())\<close>.\<close>

definition utc_stamp :: "int \<Rightarrow> pystr" where
  "utc_stamp t =
     (let day = 86400 * MICROSECONDS; s = t mod day div MICROSECONDS;
          (y, m, d) = ord_to_ymd (t div day + 719163)
      in py_str_int y @ lit ''-'' @ zfill 2 m @ lit ''-'' @ zfill 2 d @ lit ''T''
         @ zfill 2 (s div 3600) @ lit '':'' @ zfill 2 (s div 60 mod 60) @ lit '':'' @ zfill 2 (s mod 60) @ lit ''Z'')"

text \<open>The file is written under a temporary name, flushed, made private and renamed.\<close>

definition stage_file :: "fpath \<Rightarrow> nat list \<Rightarrow> ('r, fpath) act" where
  "stage_file dir bs =
     (let digest = sha256_hex bs;
          tmp = path_join dir (lit ''.'' @ digest @ lit ''.tmp'');
          final = path_join dir digest
      in andthen (ask c_umasked) (\<lambda>umasked.
         andthen (change (open_file tmp (umasked 438))) (\<lambda>_.
         andthen (write_bytes tmp bs) (\<lambda>_.
         andthen flush_file (\<lambda>_.
         andthen (change (set_mode tmp 384)) (\<lambda>_.
         andthen (change (rename_file tmp final)) (\<lambda>_.
           hand_back final)))))))"

text \<open>The manifest of a fetched file, and that of a checked-out one.\<close>

definition fetch_record :: "cli_args \<Rightarrow> pystr \<Rightarrow> nat list \<Rightarrow> int \<Rightarrow> (pystr \<times> pyval) list" where
  "fetch_record a url bs now =
     [(lit ''schema_version'', PInt 1), (lit ''sha256'', PStr (sha256_hex bs)),
      (lit ''size_bytes'', PInt (int (length bs))), (lit ''sniffed_type'', PStr (sniff bs)),
      (lit ''instance'', PStr (ar_instance a)), (lit ''remote_path'', PStr (ar_path a)), (lit ''grant_id'', PNone),
      (lit ''broker_url'', PStr url), (lit ''fetched_at'', PStr (utc_stamp now)), (lit ''cli_version'', PStr CLI_VERSION),
      (lit ''verification'', PDict [(lit ''size_match'', PNone), (lit ''magic_ok'', PBool (sniff bs \<noteq> lit ''unknown''))])]"

definition checkout_record :: "cli_args \<Rightarrow> pystr \<Rightarrow> nat list \<Rightarrow> pyval \<Rightarrow> int \<Rightarrow> (pystr \<times> pyval) list" where
  "checkout_record a url bs lock_token now =
     [(lit ''schema_version'', PInt 2), (lit ''sha256'', PStr (sha256_hex bs)),
      (lit ''size_bytes'', PInt (int (length bs))), (lit ''sniffed_type'', PStr (sniff bs)),
      (lit ''instance'', PStr (ar_instance a)), (lit ''remote_path'', PStr (ar_path a)), (lit ''grant_id'', PNone),
      (lit ''broker_url'', PStr url), (lit ''fetched_at'', PStr (utc_stamp now)), (lit ''cli_version'', PStr CLI_VERSION),
      (lit ''lock_token'', lock_token), (lit ''checked_out'', PBool True),
      (lit ''verification'', PDict [(lit ''size_match'', PNone), (lit ''magic_ok'', PBool (sniff bs \<noteq> lit ''unknown''))])]"

definition staged_line :: "fpath \<Rightarrow> nat list \<Rightarrow> pystr" where
  "staged_line final bs =
     show_path final @ lit '' sha256='' @ sha256_hex bs @ lit '' size='' @ py_str_int (int (length bs))
       @ lit '' type='' @ sniff bs"

text \<open>What follows a successful read, in the folder of the instance.\<close>

definition finish_fetch :: "cli_args \<Rightarrow> pystr \<Rightarrow> fpath \<Rightarrow> nat list \<Rightarrow> ('r, int) act" where
  "finish_fetch a url dir bs =
     andthen (stage_file dir bs) (\<lambda>final.
     andthen read_time (\<lambda>now.
     andthen (write_manifest dir (sha256_hex bs) (PDict (fetch_record a url bs now))) (\<lambda>manifest.
     andthen (if sniff bs = lit ''unknown'' \<and> ar_expect_magic a
              then say_err (lit ''broker-cli: warning: sniffed '' @ [39] @ lit ''unknown'' @ [39]
                     @ lit ''; extension suggests otherwise (advisory)'')
              else hand_back ()) (\<lambda>_.
     andthen (say_out (lit ''staged: '' @ staged_line final bs @ lit '' manifest='' @ show_path manifest)) (\<lambda>_.
       hand_back EXIT_OK)))))"

definition cmd_fetch :: "cli_args \<Rightarrow> ('r, int) act" where
  "cmd_fetch a =
     with_client a (\<lambda>url.
     andthen (gc_staging (ar_profile a)) (\<lambda>_.
     andthen (staging_root (ar_profile a)) (\<lambda>root.
     andthen (ensure_private_dir (path_join root (ar_instance a))) (\<lambda>_.
     andthen (staging_total_bytes root) (\<lambda>total.
       if total > GC_MAX_TOTAL_BYTES
       then leave EXIT_LOCAL (lit ''local: staging over 512MB; run `broker staging gc`'')
       else
         andthen (try_cli (read_file_remote (ar_instance a) (ar_path a))) (\<lambda>fetched.
           case fetched of
             Inl t \<Rightarrow> cli_error_exit t
           | Inr bs \<Rightarrow> finish_fetch a url (path_join root (ar_instance a)) bs))))))"

definition finish_checkout :: "cli_args \<Rightarrow> pystr \<Rightarrow> fpath \<Rightarrow> nat list \<times> pyval \<Rightarrow> ('r, int) act" where
  "finish_checkout a url dir got =
     (case got of (bs, lock_token) \<Rightarrow>
        andthen (stage_file dir bs) (\<lambda>final.
        andthen read_time (\<lambda>now.
        andthen (write_manifest dir (sha256_hex bs) (PDict (checkout_record a url bs lock_token now))) (\<lambda>manifest.
        andthen (ask (\<lambda>s. c_str s lock_token)) (\<lambda>shown.
        andthen (say_out (lit ''checked out: '' @ staged_line final bs @ lit '' lock_token='' @ shown
                   @ lit '' manifest='' @ show_path manifest)) (\<lambda>_.
          hand_back EXIT_OK))))))"

definition cmd_checkout :: "cli_args \<Rightarrow> ('r, int) act" where
  "cmd_checkout a =
     with_client a (\<lambda>url.
     andthen (gc_staging (ar_profile a)) (\<lambda>_.
     andthen (staging_root (ar_profile a)) (\<lambda>root.
     andthen (ensure_private_dir (path_join root (ar_instance a))) (\<lambda>_.
     andthen (try_cli (checkout_remote (ar_instance a) (ar_path a) (ar_timeout a))) (\<lambda>fetched.
       case fetched of
         Inl t \<Rightarrow> cli_error_exit t
       | Inr got \<Rightarrow> finish_checkout a url (path_join root (ar_instance a)) got)))))"

text \<open>\<open>_find_manifest\<close>: the manifest of the given digest, or the first of the folder in the order of
  names whose record is checked out.\<close>

definition load_manifest :: "fpath \<Rightarrow> nat list \<Rightarrow> ('r, pyval option) act" where
  "load_manifest p bs =
     (case text_of bs of None \<Rightarrow> throw Other_error | Some t \<Rightarrow> ask (\<lambda>s. loads (c_float s) t))"

fun first_checked_out :: "fpath \<Rightarrow> pystr list \<Rightarrow> ('r, fpath \<times> pyval) act" where
  "first_checked_out dir [] = throw (Cli_error (lit ''local: no checked-out manifest found; pass --manifest-sha''))"
| "first_checked_out dir (n # ns) =
     (if prefix [46] n then first_checked_out dir ns
      else
        andthen (ask (\<lambda>s. file_bytes (c_fs s) (dir @ [n]))) (\<lambda>found.
          case found of
            None \<Rightarrow> throw Os_error
          | Some bs \<Rightarrow>
              andthen (load_manifest (dir @ [n]) bs) (\<lambda>loaded.
                case loaded of
                  None \<Rightarrow> first_checked_out dir ns
                | Some record \<Rightarrow>
                    andthen (get_field record (lit ''checked_out'') PNone) (\<lambda>v.
                      if truthy v then hand_back (dir @ [n], record) else first_checked_out dir ns))))"

definition manifest_names :: "file_system \<Rightarrow> fpath \<Rightarrow> pystr list" where
  "manifest_names fs dir = sort (filter (suffix (lit ''.json'')) (entry_names fs dir))"

definition find_manifest :: "fpath \<Rightarrow> pystr option \<Rightarrow> ('r, fpath \<times> pyval) act" where
  "find_manifest dir sha =
     (case sha of
        Some (c # cs) \<Rightarrow>
          (let p = path_join dir ((c # cs) @ lit ''.json'')
           in andthen (ask (\<lambda>s. file_bytes (c_fs s) p)) (\<lambda>found.
                case found of
                  None \<Rightarrow> throw (Cli_error (lit ''local: no manifest for sha '' @ c # cs))
                | Some bs \<Rightarrow>
                    andthen (load_manifest p bs) (\<lambda>loaded.
                      case loaded of None \<Rightarrow> throw Other_error | Some record \<Rightarrow> hand_back (p, record))))
      | _ \<Rightarrow> andthen (ask (\<lambda>s. manifest_names (c_fs s) dir)) (first_checked_out dir))"

text \<open>\<open>str(Path(s))\<close>.\<close>

definition shown_arg :: "pystr \<Rightarrow> pystr" where
  "shown_arg s =
     (if prefix [47] s then show_path (components s)
      else if components s = [] then lit ''.'' else join_on [47] (components s))"

text \<open>The file a push or a checkin sends; the path is not expanded.\<close>

definition local_file :: "cli_args \<Rightarrow> (fpath \<Rightarrow> nat list \<Rightarrow> ('r, int) act) \<Rightarrow> ('r, int) act" where
  "local_file a body =
     andthen (ask (\<lambda>s. path_join (c_cwd s) (ar_from_file a))) (\<lambda>p.
     andthen (ask (\<lambda>s. file_bytes (c_fs s) p)) (\<lambda>found.
       case found of
         None \<Rightarrow> leave EXIT_LOCAL (lit ''local: no such file: '' @ shown_arg (ar_from_file a))
       | Some bs \<Rightarrow> body p bs))"

text \<open>\<open>fd = acquire_lock(...)\<close>, the answer when another push holds it, and the body with its
  \<open>finally\<close>.\<close>

definition with_lock :: "cli_args \<Rightarrow> ('r, int) act \<Rightarrow> ('r, int) act" where
  "with_lock a body =
     andthen (acquire_lock (ar_path a) (ar_instance a)) (\<lambda>mine.
       if \<not> mine
       then leave EXIT_LOCAL (lit ''local: another push holds the lock for '' @ ar_instance a @ lit ''/'' @ ar_path a)
       else finally_do body (release_lock (ar_path a) (ar_instance a)))"

text \<open>What both writers do with the status of the answer.\<close>

definition after_write :: "pyval \<Rightarrow> pystr \<Rightarrow> ('r, int) act \<Rightarrow> ('r, int) act" where
  "after_write out heading body =
     andthen (get_field out (lit ''status'') PNone) (\<lambda>status.
       if status = PStr (lit ''refused'')
       then andthen (shown_field out (lit ''reason'') (lit ''no active grant'')) (\<lambda>t.
              leave EXIT_REFUSED (lit ''refused: '' @ t))
       else if status = PStr (lit ''error'')
       then andthen (shown_field out (lit ''message'') (lit ''unknown'')) (\<lambda>t.
              leave EXIT_INFRA (lit ''infra: '' @ heading @ t))
       else if status \<noteq> PStr (lit ''ok'')
       then andthen (ask (\<lambda>s. c_repr s status)) (\<lambda>t. leave EXIT_INFRA (lit ''infra: unexpected status '' @ t))
       else body)"

text \<open>\<open>record["sha256"]\<close>, with a \<open>KeyError\<close>.\<close>

definition field_or_key_error :: "(pystr \<times> pyval) list \<Rightarrow> pystr \<Rightarrow> ('r, pyval) act" where
  "field_or_key_error d k = (case map_of d k of None \<Rightarrow> throw Other_error | Some v \<Rightarrow> hand_back v)"

definition checked_in :: "(pystr \<times> pyval) list \<Rightarrow> int \<Rightarrow> (pystr \<times> pyval) list" where
  "checked_in d now =
     dict_set (lit ''checked_in_at'') (PStr (utc_stamp now)) (dict_set (lit ''checked_out'') (PBool False) d)"

definition transfer_line :: "pystr \<Rightarrow> cli_args \<Rightarrow> nat list \<Rightarrow> pystr" where
  "transfer_line what a bs =
     what @ lit '': '' @ ar_instance a @ lit ''/'' @ ar_path a @ lit '' sha256='' @ sha256_hex bs
       @ lit '' size='' @ py_str_int (int (length bs))"

definition write_args :: "cli_args \<Rightarrow> nat list \<Rightarrow> (pystr \<times> pyval) list" where
  "write_args a bs = read_args (ar_instance a) (ar_path a) @ [(lit ''content'', PStr (b64_encode bs))]"

definition cmd_checkin :: "cli_args \<Rightarrow> ('r, int) act" where
  "cmd_checkin a =
     with_client a (\<lambda>url.
     andthen (ask (\<lambda>s. path_join (c_cwd s) (ar_from_file a))) (\<lambda>p.
     andthen (ask (\<lambda>s. file_bytes (c_fs s) p)) (\<lambda>there.
       if there = None then leave EXIT_LOCAL (lit ''local: no such file: '' @ shown_arg (ar_from_file a))
       else
         andthen (staging_root (ar_profile a)) (\<lambda>root.
         andthen (find_manifest (path_join root (ar_instance a)) (ar_manifest_sha a)) (\<lambda>(manifest, record).
         andthen (get_field record (lit ''lock_token'') PNone) (\<lambda>lock_token.
           if \<not> truthy lock_token
           then leave EXIT_LOCAL (lit ''local: manifest '' @ show_path manifest @ lit '' carries no lock_token'')
           else
             andthen (ask (\<lambda>s. file_bytes (c_fs s) p)) (\<lambda>found.
               case found of None \<Rightarrow> throw Os_error | Some bs \<Rightarrow>
             with_lock a
               (andthen (call_remote (lit ''checkin'')
                  (write_args a bs @ [(lit ''lock_token'', lock_token)])) (\<lambda>out.
                after_write out []
                  (case record of
                     PDict d \<Rightarrow>
                       andthen read_time (\<lambda>now.
                       andthen (field_or_key_error d (lit ''sha256'')) (\<lambda>sha.
                       andthen (ask (\<lambda>s. c_str s sha)) (\<lambda>shown.
                       andthen (write_manifest (path_join root (ar_instance a)) shown (PDict (checked_in d now))) (\<lambda>_.
                       andthen (say_out (transfer_line (lit ''checked in'') a bs @ lit '' lock released'')) (\<lambda>_.
                         hand_back EXIT_OK)))))
                   | _ \<Rightarrow> throw Other_error))))))))))"

definition cmd_push :: "cli_args \<Rightarrow> ('r, int) act" where
  "cmd_push a =
     with_client a (\<lambda>url.
     local_file a (\<lambda>_ bs.
     with_lock a
       (andthen (call_remote (lit ''write'') (write_args a bs)) (\<lambda>out.
        after_write out (lit ''broker error: '')
          (andthen (try_cli (read_file_remote (ar_instance a) (ar_path a))) (\<lambda>read_back.
             case read_back of
               Inl t \<Rightarrow> leave EXIT_VERIFICATION (lit ''verification: read-back failed: '' @ t)
             | Inr back \<Rightarrow>
                 if sha256_hex back \<noteq> sha256_hex bs
                 then leave EXIT_VERIFICATION (lit ''verification: read-back mismatch'')
                 else andthen (say_out (transfer_line (lit ''pushed'') a bs)) (\<lambda>_. hand_back EXIT_OK)))))))"

text \<open>\<open>cmd_staging\<close>: a file among the instance folders cannot be listed.\<close>

definition listing_line :: "'r cli \<Rightarrow> fpath \<Rightarrow> pystr \<Rightarrow> pystr \<Rightarrow> pystr" where
  "listing_line s root inst n =
     inst @ [9] @ n @ [9]
       @ py_str_int (int (case node_at (c_fs s) (root @ [inst, n]) of
           None \<Rightarrow> 0 | Some nd \<Rightarrow> node_size (c_folder_size s) nd))"

fun say_lines :: "pystr list \<Rightarrow> ('r, unit) act" where
  "say_lines [] = hand_back ()"
| "say_lines (l # ls) = andthen (say_out l) (\<lambda>_. say_lines ls)"

fun list_folders :: "fpath \<Rightarrow> pystr list \<Rightarrow> ('r, unit) act" where
  "list_folders root [] = hand_back ()"
| "list_folders root (i # is) =
     andthen (ask id) (\<lambda>s.
       if \<not> is_folder (c_fs s) (root @ [i]) then throw Os_error
       else andthen (say_lines (map (listing_line s root i) (sort (entry_names (c_fs s) (root @ [i]))))) (\<lambda>_.
            list_folders root is))"

definition cmd_staging :: "cli_args \<Rightarrow> ('r, int) act" where
  "cmd_staging a =
     andthen (staging_root (ar_profile a)) (\<lambda>root.
       if ar_staging_command a = lit ''ls''
       then andthen (ask c_fs) (\<lambda>fs.
              if node_at fs root = None \<and> \<not> is_folder fs root
              then andthen (say_out (lit ''staging: empty'')) (\<lambda>_. hand_back EXIT_OK)
              else if \<not> is_folder fs root then throw Os_error
              else andthen (list_folders root (sort (entry_names fs root))) (\<lambda>_. hand_back EXIT_OK))
       else if ar_staging_command a = lit ''gc''
       then andthen (gc_staging (ar_profile a)) (\<lambda>removed.
            andthen (say_out (lit ''removed '' @ py_str_int (int (length removed)) @ lit '' staging entr''
              @ (if length removed = 1 then lit ''y'' else lit ''ies''))) (\<lambda>_. hand_back EXIT_OK))
       else leave EXIT_LOCAL (lit ''local: unknown staging command''))"

fun run_command :: "command \<Rightarrow> cli_args \<Rightarrow> ('r, int) act" where
  "run_command Fetch a = cmd_fetch a"
| "run_command Push a = cmd_push a"
| "run_command Checkout a = cmd_checkout a"
| "run_command Checkin a = cmd_checkin a"
| "run_command Staging a = cmd_staging a"

definition cli_main :: "command \<Rightarrow> cli_args \<Rightarrow> ('r, int) act" where
  "cli_main cmd a = catch_cli (run_command cmd a) cli_error_exit"

text \<open>The status of the process: an exception that leaves \<open>main\<close> ends it with a traceback and 1.\<close>

definition exit_status :: "cli_exn + int \<Rightarrow> int" where
  "exit_status r = (case r of Inl e \<Rightarrow> 1 | Inr code \<Rightarrow> code)"

end
