(* ===== verification/Cli_Keeps.thy ===== *)
theory Cli_Keeps
  imports Cli
begin

text \<open>
  How the operations of the transfer command line are reasoned about: conditions that an operation
  keeps whatever its outcome, triples with one condition for a value and one for an exception,
  and the operations that leave the files alone.
\<close>

section \<open>Invariants of operations\<close>

text \<open>An operation keeps a condition on the state if it holds afterwards, whatever the outcome.\<close>

definition keeps :: "('r cli \<Rightarrow> bool) \<Rightarrow> ('r, 'a) act \<Rightarrow> bool" where
  "keeps I m \<longleftrightarrow> (\<forall>s. I s \<longrightarrow> I (snd (m s)))"

named_theorems keeping

lemma keepsD: "keeps I m \<Longrightarrow> m s = (r, t) \<Longrightarrow> I s \<Longrightarrow> I t"
  by (force simp: keeps_def)

lemma keeps_simple [keeping]:
  "keeps I (hand_back a)" "keeps I (throw e)" "keeps I (ask f)" "keeps I (lift_result x)"
  by (simp_all add: keeps_def hand_back_def throw_def ask_def lift_result_def)

lemma keeps_andthen [keeping]: "keeps I m \<Longrightarrow> (\<And>a. keeps I (f a)) \<Longrightarrow> keeps I (andthen m f)"
  by (fastforce simp: keeps_def andthen_def split: prod.split sum.split dest: spec)

lemma keeps_andthen_of:
  "keeps I m \<Longrightarrow> (\<And>s a t. m s = (Inr a, t) \<Longrightarrow> keeps I (f a)) \<Longrightarrow> keeps I (andthen m f)"
  by (fastforce simp: keeps_def andthen_def split: prod.split sum.split dest: spec)

lemma keeps_try [keeping]: "keeps I m \<Longrightarrow> keeps I (try_cli m)"
  by (fastforce simp: keeps_def try_cli_def split: prod.split sum.split cli_exn.split)

lemma keeps_catch [keeping]: "keeps I m \<Longrightarrow> (\<And>t. keeps I (h t)) \<Longrightarrow> keeps I (catch_cli m h)"
  by (fastforce simp: keeps_def catch_cli_def split: prod.split sum.split cli_exn.split)

lemma keeps_catch_os [keeping]: "keeps I m \<Longrightarrow> keeps I h \<Longrightarrow> keeps I (catch_os m h)"
  by (fastforce simp: keeps_def catch_os_def split: prod.split sum.split cli_exn.split)

lemma keeps_finally [keeping]: "keeps I m \<Longrightarrow> keeps I f \<Longrightarrow> keeps I (finally_do m f)"
  by (fastforce simp: keeps_def finally_do_def split: prod.split sum.split)

lemma keeps_if [keeping]: "(b \<Longrightarrow> keeps I m) \<Longrightarrow> (\<not> b \<Longrightarrow> keeps I n) \<Longrightarrow> keeps I (if b then m else n)"
  by simp

lemma keeps_option [keeping]:
  "(x = None \<Longrightarrow> keeps I m) \<Longrightarrow> (\<And>a. x = Some a \<Longrightarrow> keeps I (f a)) \<Longrightarrow> keeps I (case x of None \<Rightarrow> m | Some a \<Rightarrow> f a)"
  by (cases x) simp_all

lemma keeps_sum [keeping]:
  "(\<And>a. keeps I (f a)) \<Longrightarrow> (\<And>b. keeps I (g b)) \<Longrightarrow> keeps I (case x of Inl a \<Rightarrow> f a | Inr b \<Rightarrow> g b)"
  by (cases x) simp_all

lemma keeps_prod [keeping]: "(\<And>a b. keeps I (f a b)) \<Longrightarrow> keeps I (case x of (a, b) \<Rightarrow> f a b)"
  by (cases x) simp_all

text \<open>A condition on the files alone: what changes something else keeps it.\<close>

lemma keeps_others [keeping]:
  "keeps (\<lambda>s. F (c_fs s)) (say_out t)" "keeps (\<lambda>s. F (c_fs s)) (say_err t)" "keeps (\<lambda>s. F (c_fs s)) read_time"
  "keeps (\<lambda>s. F (c_fs s)) (send_post p)" "keeps (\<lambda>s. F (c_fs s)) (set_session x)" "keeps (\<lambda>s. F (c_fs s)) next_id"
  "keeps (\<lambda>s. F (c_fs s)) (new_client u k)" "keeps (\<lambda>s. F (c_fs s)) (user_path home)"
  "keeps (\<lambda>s. F (c_fs s)) (staging_total_bytes root)" "keeps (\<lambda>s. F (c_fs s)) (note_answer tool args out)"
  by (auto simp: keeps_def note_answer_def say_out_def say_err_def read_time_def send_post_def set_session_def next_id_def
      new_client_def user_path_def staging_total_bytes_def Let_def split: prod.split list.split option.split)

lemma keeps_change:
  assumes "\<And>now fs fs'. F fs \<Longrightarrow> f now fs = Some fs' \<Longrightarrow> F fs'"
  shows "keeps (\<lambda>s. F (c_fs s)) (change f)"
  using assms by (auto simp: keeps_def change_def Let_def split: option.split)

lemma keeps_write:
  assumes "\<And>now fs fs' k. F fs \<Longrightarrow> fill_file p (take k bs) now fs = Some fs' \<Longrightarrow> F fs'"
  shows "keeps (\<lambda>s :: 'r cli. F (c_fs s)) (write_bytes p bs)"
proof -
  have "F (c_fs (snd (write_bytes p bs s)))" if "F (c_fs s)" for s :: "'r cli"
  proof (cases "c_faults s (c_calls s)")
    case None
    have "keeps (\<lambda>s :: 'r cli. F (c_fs s)) (change (fill_file p bs))"
      using assms [where k = "length bs"] by (intro keeps_change) simp
    with None that show ?thesis by (simp add: keeps_def write_bytes_def)
  next
    case (Some k)
    then show ?thesis
      using that assms [of "c_fs s" k "clock_now s"] by (simp add: write_bytes_def split: option.split)
  qed
  then show ?thesis by (simp add: keeps_def)
qed

text \<open>The network does not touch the files.\<close>

lemma keeps_network [keeping]:
  "keeps (\<lambda>s. F (c_fs s)) (post_payload p x)" "keeps (\<lambda>s. F (c_fs s)) initialize_session"
  "keeps (\<lambda>s. F (c_fs s)) (call_remote tool args)"
proof -
  show post: "keeps (\<lambda>s. F (c_fs s)) (post_payload p x)" for p x
    unfolding post_payload_def by (intro keeping) (simp split: http_outcome.split, intro conjI allI impI keeping)
  show init: "keeps (\<lambda>s. F (c_fs s)) initialize_session"
    unfolding initialize_session_def by (intro keeping post)
  show "keeps (\<lambda>s. F (c_fs s)) (call_remote tool args)"
    unfolding call_remote_def by (intro keeping init post)
qed

lemma keeps_leave [keeping]: "keeps (\<lambda>s. F (c_fs s)) (leave code t)"
  unfolding leave_def by (intro keeping)

lemma keeps_cli_error_exit [keeping]: "keeps (\<lambda>s. F (c_fs s)) (cli_error_exit t)"
  unfolding cli_error_exit_def by (intro keeping)

lemma keeps_places [keeping]:
  "keeps (\<lambda>s. F (c_fs s)) state_base" "keeps (\<lambda>s. F (c_fs s)) (staging_root x)" "keeps (\<lambda>s. F (c_fs s)) (lock_path u v)"
proof -
  show base: "keeps (\<lambda>s. F (c_fs s)) state_base" unfolding state_base_def by (intro keeping)
  then show "keeps (\<lambda>s. F (c_fs s)) (staging_root x)" unfolding staging_root_def Let_def by (intro keeping)
  from base show "keeps (\<lambda>s. F (c_fs s)) (lock_path u v)" unfolding lock_path_def by (intro keeping)
qed

lemma keeps_reads [keeping]:
  "keeps (\<lambda>s. F (c_fs s)) (shown_field x y z)" "keeps (\<lambda>s. F (c_fs s)) (result_of x)"
  "keeps (\<lambda>s. F (c_fs s)) (unexpected_status x)"
  "keeps (\<lambda>s. F (c_fs s)) (read_file_remote i p)" "keeps (\<lambda>s. F (c_fs s)) (checkout_remote i p n)"
proof -
  show a: "keeps (\<lambda>s. F (c_fs s)) (shown_field x y z)" for x y z unfolding shown_field_def by (intro keeping)
  show b: "keeps (\<lambda>s. F (c_fs s)) (result_of x)" for x unfolding result_of_def by (intro keeping)
  show c: "keeps (\<lambda>s. F (c_fs s)) (unexpected_status x)" for x unfolding unexpected_status_def by (intro keeping)
  show "keeps (\<lambda>s. F (c_fs s)) (read_file_remote i p)"
    unfolding read_file_remote_def read_answer_def
    by (intro keeping a b c) (simp split: pyval.split, intro conjI allI impI keeping)
  show "keeps (\<lambda>s. F (c_fs s)) (checkout_remote i p n)"
    unfolding checkout_remote_def checkout_answer_def
    by (intro keeping a b c) (simp split: pyval.split, intro conjI allI impI keeping)
qed

lemma keeps_url [keeping]: "keeps (\<lambda>s. F (c_fs s)) (resolve_url a)"
proof -
  have "keeps (\<lambda>s. F (c_fs s)) file_url" unfolding file_url_def by (intro keeping)
  then show ?thesis unfolding resolve_url_def by (cases "ar_url a") (auto split: list.split intro!: keeping)
qed

lemma keeps_with_client [keeping]:
  "(\<And>url. keeps (\<lambda>s. F (c_fs s)) (body url)) \<Longrightarrow> keeps (\<lambda>s. F (c_fs s)) (with_client a body)"
  unfolding with_client_def by (intro keeping) (auto split: list.split intro!: keeping)


section \<open>What is kept of the conversation\<close>

lemma talk_others [keeping]:
  "keeps (\<lambda>s. H (c_talk s)) (say_out t)" "keeps (\<lambda>s. H (c_talk s)) (say_err t)" "keeps (\<lambda>s. H (c_talk s)) read_time"
  "keeps (\<lambda>s. H (c_talk s)) (send_post p)" "keeps (\<lambda>s. H (c_talk s)) (set_session x)" "keeps (\<lambda>s. H (c_talk s)) next_id"
  "keeps (\<lambda>s. H (c_talk s)) (new_client u k)" "keeps (\<lambda>s. H (c_talk s)) (user_path home)"
  "keeps (\<lambda>s. H (c_talk s)) (staging_total_bytes root)" "keeps (\<lambda>s. H (c_talk s)) (change f)"
  by (auto simp: keeps_def say_out_def say_err_def read_time_def send_post_def set_session_def next_id_def
      new_client_def user_path_def staging_total_bytes_def change_def Let_def split: prod.split list.split option.split)

lemma talk_write [keeping]: "keeps (\<lambda>s. H (c_talk s)) (write_bytes p bs :: ('r, unit) act)"
proof -
  have "keeps (\<lambda>s. H (c_talk s)) (change (fill_file p bs) :: ('r, unit) act)" by (intro keeping)
  then show ?thesis by (auto simp: keeps_def write_bytes_def split: option.split)
qed

lemma talk_create [keeping]: "keeps (\<lambda>s. H (c_talk s)) (create_new p mode :: ('r, bool) act)"
proof -
  have "keeps (\<lambda>s. H (c_talk s)) (andthen (change (open_file p mode)) (\<lambda>_. hand_back True) :: ('r, bool) act)"
    by (intro keeping)
  then show ?thesis by (auto simp: keeps_def create_new_def)
qed

lemma talk_folders [keeping]: "keeps (\<lambda>s. H (c_talk s)) (ensure_private_dir q)"
proof -
  have "keeps (\<lambda>s. H (c_talk s)) (make_folders d p mode)" for d p mode
    by (induction d p mode rule: make_folders.induct) (auto intro!: keeping)
  then show ?thesis unfolding ensure_private_dir_def by (intro keeping)
qed

lemma talk_network [keeping]:
  "keeps (\<lambda>s. H (c_talk s)) (post_payload p x)" "keeps (\<lambda>s. H (c_talk s)) initialize_session"
proof -
  show post: "keeps (\<lambda>s. H (c_talk s)) (post_payload p x)" for p x
    unfolding post_payload_def by (intro keeping) (simp split: http_outcome.split, intro conjI allI impI keeping)
  show "keeps (\<lambda>s. H (c_talk s)) initialize_session"
    unfolding initialize_session_def by (intro keeping post)
qed

lemma talk_places [keeping]:
  "keeps (\<lambda>s. H (c_talk s)) state_base" "keeps (\<lambda>s. H (c_talk s)) (staging_root x)" "keeps (\<lambda>s. H (c_talk s)) (lock_path u v)"
proof -
  show base: "keeps (\<lambda>s. H (c_talk s)) state_base" unfolding state_base_def by (intro keeping)
  then show "keeps (\<lambda>s. H (c_talk s)) (staging_root x)" unfolding staging_root_def Let_def by (intro keeping)
  from base show "keeps (\<lambda>s. H (c_talk s)) (lock_path u v)" unfolding lock_path_def by (intro keeping)
qed

lemma talk_leave [keeping]: "keeps (\<lambda>s. H (c_talk s)) (leave code t)" "keeps (\<lambda>s. H (c_talk s)) (cli_error_exit t)"
  by (unfold leave_def cli_error_exit_def) (intro keeping)+

lemma talk_url [keeping]: "keeps (\<lambda>s. H (c_talk s)) (resolve_url a)"
proof -
  have "keeps (\<lambda>s. H (c_talk s)) file_url" unfolding file_url_def by (intro keeping)
  then show ?thesis unfolding resolve_url_def by (cases "ar_url a") (auto split: list.split intro!: keeping)
qed

lemma talk_gc [keeping]: "keeps (\<lambda>s. H (c_talk s)) (gc_staging profile)"
proof -
  have "keeps (\<lambda>s. H (c_talk s)) (remove_each ps)" for ps by (induction ps) (auto intro!: keeping)
  then have "keeps (\<lambda>s. H (c_talk s)) (gc_entry cutoff p)" for cutoff p
    unfolding gc_entry_def remove_tree_def by (intro keeping)
  then have "keeps (\<lambda>s. H (c_talk s)) (gc_entries cutoff d ns)" for cutoff d ns
    by (induction ns) (auto intro!: keeping)
  then have "keeps (\<lambda>s. H (c_talk s)) (gc_folders cutoff d ns)" for cutoff d ns
    by (induction ns) (auto intro!: keeping)
  then show ?thesis unfolding gc_staging_def by (intro keeping)
qed

lemma talk_files [keeping]:
  "keeps (\<lambda>s. H (c_talk s)) flush_file" "keeps (\<lambda>s. H (c_talk s)) (write_manifest d n r)"
  "keeps (\<lambda>s. H (c_talk s)) (stage_file d bs)" "keeps (\<lambda>s. H (c_talk s)) (finish_fetch a url d bs)"
  "keeps (\<lambda>s. H (c_talk s)) (finish_checkout a url d got)"
  by (unfold finish_fetch_def finish_checkout_def flush_file_def write_manifest_def stage_file_def Let_def) (intro keeping)+

lemma talk_locks [keeping]: "keeps (\<lambda>s. H (c_talk s)) (acquire_lock r i)" "keeps (\<lambda>s. H (c_talk s)) (release_lock r i)"
  by (unfold acquire_lock_def release_lock_def write_lock_text_def) (intro keeping)+

lemma talk_manifest [keeping]: "keeps (\<lambda>s. H (c_talk s)) (find_manifest d sha)"
proof -
  have l: "keeps (\<lambda>s. H (c_talk s)) (load_manifest p bs)" for p bs
    unfolding load_manifest_def by (intro keeping)
  have "keeps (\<lambda>s. H (c_talk s)) (first_checked_out d ns)" for ns
    by (induction ns) (auto intro!: keeping l)
  then show ?thesis
    unfolding find_manifest_def Let_def
    by (cases sha) (auto split: list.split intro!: keeping l)
qed

section \<open>Triples\<close>

text \<open>From \<open>P\<close>, a value leaves \<open>Q\<close> and an exception leaves \<open>E\<close>.\<close>

definition triple ::
  "('r cli \<Rightarrow> bool) \<Rightarrow> ('r, 'a) act \<Rightarrow> ('a \<Rightarrow> 'r cli \<Rightarrow> bool) \<Rightarrow> (cli_exn \<Rightarrow> 'r cli \<Rightarrow> bool) \<Rightarrow> bool" where
  "triple P m Q E \<longleftrightarrow> (\<forall>s. P s \<longrightarrow> (case m s of (Inl e, t) \<Rightarrow> E e t | (Inr a, t) \<Rightarrow> Q a t))"

lemma tripleD:
  assumes "triple P m Q E" "P s"
  shows "m s = (Inr a, t) \<Longrightarrow> Q a t" "m s = (Inl e, t) \<Longrightarrow> E e t"
  using assms by (force simp: triple_def)+

lemma triple_andthen:
  "triple P m Q E \<Longrightarrow> (\<And>a. triple (Q a) (f a) R E) \<Longrightarrow> triple P (andthen m f) R E"
  by (fastforce simp: triple_def andthen_def split: prod.splits sum.splits)

lemma keeps_triple: "keeps I m \<longleftrightarrow> triple I m (\<lambda>_. I) (\<lambda>_. I)"
proof -
  have "(case m s of (Inl e, t) \<Rightarrow> I t | (Inr a, t) \<Rightarrow> I t) = I (snd (m s))" for s
    by (cases "m s") (simp split: sum.split)
  then show ?thesis by (simp add: keeps_def triple_def)
qed

lemma triple_weaken:
  "triple P m Q E \<Longrightarrow> (\<And>s. P' s \<Longrightarrow> P s) \<Longrightarrow> (\<And>a t. Q a t \<Longrightarrow> Q' a t) \<Longrightarrow> (\<And>e t. E e t \<Longrightarrow> E' e t)
    \<Longrightarrow> triple P' m Q' E'"
  by (fastforce simp: triple_def split: prod.splits sum.splits)

lemma triple_give: "(\<And>s. P s \<Longrightarrow> Q a s) \<Longrightarrow> triple P (hand_back a) Q E"
  by (simp add: triple_def hand_back_def)

lemma triple_throw: "(\<And>s. P s \<Longrightarrow> E e s) \<Longrightarrow> triple P (throw e) Q E"
  by (simp add: triple_def throw_def)

lemma triple_ask: "(\<And>s. P s \<Longrightarrow> Q (f s) s) \<Longrightarrow> triple P (ask f) Q E"
  by (simp add: triple_def ask_def)

lemma triple_keeps: "keeps I m \<Longrightarrow> (\<And>e s. I s \<Longrightarrow> E e s) \<Longrightarrow> triple I m (\<lambda>_. I) E"
  using triple_weaken [of I m "\<lambda>_. I" "\<lambda>_. I" I "\<lambda>_. I" E] by (simp add: keeps_triple)

lemma triple_change:
  assumes "\<And>now fs fs'. P fs \<Longrightarrow> f now fs = Some fs' \<Longrightarrow> Q fs'" "\<And>fs. P fs \<Longrightarrow> E fs"
  shows "triple (\<lambda>s. P (c_fs s)) (change f) (\<lambda>_ s. Q (c_fs s)) (\<lambda>e s. e = Os_error \<and> E (c_fs s))"
  using assms by (auto simp: triple_def change_def Let_def split: option.split)

lemma triple_write:
  assumes "\<And>now fs fs'. P fs \<Longrightarrow> fill_file p bs now fs = Some fs' \<Longrightarrow> Q fs'" "\<And>fs. P fs \<Longrightarrow> E fs"
    and "\<And>now fs fs' k. P fs \<Longrightarrow> fill_file p (take k bs) now fs = Some fs' \<Longrightarrow> E fs'"
  shows "triple (\<lambda>s :: 'r cli. P (c_fs s)) (write_bytes p bs) (\<lambda>_ s. Q (c_fs s)) (\<lambda>e s. e = Os_error \<and> E (c_fs s))"
proof -
  have "case write_bytes p bs s of (Inl e, t) \<Rightarrow> e = Os_error \<and> E (c_fs t) | (Inr a, t) \<Rightarrow> Q (c_fs t)"
    if "P (c_fs s)" for s :: "'r cli"
  proof (cases "c_faults s (c_calls s)")
    case None
    have "triple (\<lambda>s :: 'r cli. P (c_fs s)) (change (fill_file p bs)) (\<lambda>_ s. Q (c_fs s)) (\<lambda>e s. e = Os_error \<and> E (c_fs s))"
      by (rule triple_change) (rule assms(1), assumption+, rule assms(2))
    with None that show ?thesis by (simp add: triple_def write_bytes_def)
  next
    case (Some k)
    then show ?thesis
      using that assms(2) assms(3) [of "c_fs s" k "clock_now s"] by (simp add: write_bytes_def split: option.split)
  qed
  then show ?thesis by (simp add: triple_def)
qed

text \<open>Operations whose only exception is an \<open>OSError\<close>.\<close>

definition os_only :: "('r, 'a) act \<Rightarrow> bool" where
  "os_only m \<longleftrightarrow> triple (\<lambda>_. True) m (\<lambda>_ _. True) (\<lambda>e _. e = Os_error)"

named_theorems os_safe

lemma os_only_simple [os_safe]:
  "os_only (hand_back a)" "os_only (ask f)" "os_only read_time" "os_only (say_out l)" "os_only (say_err l)"
  "os_only (throw Os_error)"
  by (simp_all add: os_only_def triple_def hand_back_def ask_def read_time_def say_out_def say_err_def throw_def)

lemma os_only_andthen [os_safe]: "os_only m \<Longrightarrow> (\<And>a. os_only (f a)) \<Longrightarrow> os_only (andthen m f)"
  unfolding os_only_def by (rule triple_andthen)

lemma os_only_if [os_safe]: "os_only m \<Longrightarrow> os_only n \<Longrightarrow> os_only (if b then m else n)"
  by simp

lemma os_only_catch [os_safe]: "os_only m \<Longrightarrow> os_only h \<Longrightarrow> os_only (catch_os m h)"
  by (fastforce simp: os_only_def triple_def catch_os_def split: prod.splits sum.splits cli_exn.splits)

lemma os_only_change [os_safe]: "os_only (change f)"
  by (simp add: os_only_def triple_def change_def Let_def split: option.split)

lemma os_only_write [os_safe]: "os_only (write_bytes p bs :: ('r, unit) act)"
proof -
  have "os_only (change (fill_file p bs) :: ('r, unit) act)" by (rule os_only_change)
  then show ?thesis by (simp add: os_only_def triple_def write_bytes_def split: option.split)
qed

lemma os_only_files [os_safe]: "os_only flush_file" "os_only (write_manifest d n r)" "os_only (stage_file d bs)"
  by (unfold flush_file_def write_manifest_def stage_file_def Let_def) (intro os_safe)+

lemma os_only_create [os_safe]: "os_only (create_new p mode :: ('r, bool) act)"
proof -
  have "os_only (andthen (change (open_file p mode)) (\<lambda>_. hand_back True) :: ('r, bool) act)" by (intro os_safe)
  then show ?thesis by (simp add: os_only_def triple_def create_new_def)
qed

lemma os_only_folders [os_safe]: "os_only (make_folders d p mode)" "os_only (ensure_private_dir q)"
proof -
  show "os_only (make_folders d p mode)" for d p mode
    by (induction d p mode rule: make_folders.induct) (auto intro!: os_safe)
  then show "os_only (ensure_private_dir q)" unfolding ensure_private_dir_def by (intro os_safe)
qed

lemma os_only_finish [os_safe]: "os_only (finish_fetch a url d bs)" "os_only (finish_checkout a url d got)"
  by (unfold finish_fetch_def finish_checkout_def, intro os_safe)
    (cases got, simp only: prod.case, intro os_safe)

section \<open>Values\<close>

lemma andthen_Inr: "andthen m f s = (Inr b, t) \<longleftrightarrow> (\<exists>a u. m s = (Inr a, u) \<and> f a u = (Inr b, t))"
  by (auto simp: andthen_def split: prod.split sum.split)

lemma try_Inr:
  "try_cli m s = (Inr x, t) \<longleftrightarrow> (\<exists>e. m s = (Inl (Cli_error e), t) \<and> x = Inl e) \<or> (\<exists>a. m s = (Inr a, t) \<and> x = Inr a)"
  by (auto simp: try_cli_def split: prod.split sum.split cli_exn.split)

lemma catch_cli_Inr:
  "catch_cli m h s = (Inr x, t) \<longleftrightarrow> m s = (Inr x, t) \<or> (\<exists>e u. m s = (Inl (Cli_error e), u) \<and> h e u = (Inr x, t))"
  by (auto simp: catch_cli_def split: prod.split sum.split cli_exn.split)

lemma finally_Inr:
  "finally_do m f s = (Inr x, t) \<longleftrightarrow> (\<exists>u v. m s = (Inr x, u) \<and> f u = (Inr v, t))"
  by (auto simp: finally_do_def split: prod.split sum.split)

lemma simple_Inr:
  "hand_back a s = (Inr b, t) \<longleftrightarrow> b = a \<and> t = s" "\<not> throw e s = (Inr b, t)" "ask f s = (Inr y, t) \<longleftrightarrow> y = f s \<and> t = s"
  "lift_result r s = (Inr z, t) \<longleftrightarrow> r = Inr z \<and> t = s"
  "say_out l s = (Inr u, t) \<longleftrightarrow> t = s\<lparr>c_out := c_out s @ [l]\<rparr>"
  "say_err l s = (Inr u, t) \<longleftrightarrow> t = s\<lparr>c_err := c_err s @ [l]\<rparr>"
  "leave code l s = (Inr k, t) \<longleftrightarrow> k = code \<and> t = s\<lparr>c_err := c_err s @ [lit ''broker-cli: '' @ l]\<rparr>"
  by (auto simp: hand_back_def throw_def ask_def lift_result_def say_out_def say_err_def leave_def andthen_def)

lemmas Inr_simps = andthen_Inr try_Inr catch_cli_Inr finally_Inr simple_Inr

section \<open>What the broker is asked and what it answers\<close>

definition talked :: "(pystr \<times> (pystr \<times> pyval) list \<times> pyval) list \<Rightarrow> 'r cli \<Rightarrow> bool" where
  "talked h s \<longleftrightarrow> c_talk s = h"

definition status_of :: "pyval \<Rightarrow> pyval" where
  "status_of out = (case get_from out (lit ''status'') PNone of Inl e \<Rightarrow> PNone | Inr v \<Rightarrow> v)"

text \<open>The content of a successful read: what \<open>_read_file_remote\<close> makes of the answer.\<close>

definition content_of :: "pyval \<Rightarrow> nat list option" where
  "content_of out =
     (case get_from out (lit ''result'') PNone of
        Inr (PDict d) \<Rightarrow> (case dict_get d (lit ''content_b64'') of PStr t \<Rightarrow> b64_decode t | _ \<Rightarrow> None)
      | _ \<Rightarrow> None)"

text \<open>Messages of the transport: none of them has a prefix that changes the exit code.\<close>

definition plain_message :: "pystr \<Rightarrow> bool" where
  "plain_message t \<longleftrightarrow> \<not> prefix (lit ''REFUSED:'') t \<and> \<not> prefix (lit ''VERIFY:'') t \<and> \<not> prefix (lit ''INFRA:'') t"

definition plain_exn :: "cli_exn \<Rightarrow> bool" where
  "plain_exn e \<longleftrightarrow> (\<forall>t. e = Cli_error t \<longrightarrow> plain_message t)"

lemma plain_exn_simps [simp]:
  "plain_exn Os_error" "plain_exn Other_error" "plain_exn (Cli_error t) \<longleftrightarrow> plain_message t"
  by (simp_all add: plain_exn_def)

lemma plain_lower: "t \<noteq> [] \<Longrightarrow> hd t \<notin> {73, 82, 86} \<Longrightarrow> plain_message (t @ u)"
  by (cases t) (auto simp: plain_message_def lit_def)

lemma get_from_plain: "get_from v k dflt = Inl e \<Longrightarrow> plain_exn e"
  by (auto simp: get_from_def split: pyval.splits option.splits)

lemma read_envelope_plain: "read_envelope fl je body = Inl e \<Longrightarrow> plain_exn e"
  using plain_lower [of "lit ''broker response is not valid JSON: ''"]
  by (auto simp: read_envelope_def Let_def plain_message_def lit_def split: option.splits if_splits)

lemma tool_value_plain: "tool_value fl v = Inl e \<Longrightarrow> plain_exn e"
  by (auto simp: tool_value_def Let_def get_from_plain split: pyval.splits list.splits sum.splits if_splits option.splits)

lemma parse_response_plain: "parse_response fl je sv body = Inl e \<Longrightarrow> plain_exn e"
  using plain_lower [of "lit ''broker rpc error: ''"]
  by (auto simp: parse_response_def get_from_plain tool_value_plain read_envelope_plain lit_def
      split: sum.splits if_splits)

lemma post_triple: "triple (talked h) (post_payload p x) (\<lambda>_. talked h) (\<lambda>e s. talked h s \<and> plain_exn e)"
proof -
  let ?E = "\<lambda>e s. talked h s \<and> plain_exn e"
  have net: "triple (talked h) (send_post p) (\<lambda>_. talked h) ?E"
    by (simp add: triple_def send_post_def talked_def Let_def split: prod.split)
  have session: "triple (talked h) (if x then set_session ss else hand_back ()) (\<lambda>_. talked h) ?E" for ss
    by (simp add: triple_def set_session_def hand_back_def talked_def)
  have parse: "triple (talked h) (andthen (ask (\<lambda>s. parse_response (c_float s) (c_json_error s) (c_str s) body)) lift_result)
      (\<lambda>_. talked h) ?E" for body
    by (auto simp: triple_def andthen_def ask_def lift_result_def parse_response_plain split: sum.split)
  have "plain_message (lit ''broker'' @ t)" for t by (rule plain_lower) (simp_all add: lit_def)
  from this [of "lit '' rejected the transfer token (401); check '' @ TOKEN_ENV @ lit '' against the /transfer surface token''"]
    this [of "lit '' HTTP '' @ t" for t] this [of "lit '' unreachable: '' @ t" for t]
  have m: "plain_message (lit ''broker rejected the transfer token (401); check ''
        @ TOKEN_ENV @ lit '' against the /transfer surface token'')"
      "plain_message (lit ''broker HTTP '' @ t)" "plain_message (lit ''broker unreachable: '' @ t)" for t
    by (simp_all add: lit_def)
  have "triple (talked h) (case outcome of
         Http_status code \<Rightarrow>
           throw (Cli_error
             (if code = 401
              then lit ''broker rejected the transfer token (401); check ''
                @ TOKEN_ENV @ lit '' against the /transfer surface token''
              else lit ''broker HTTP '' @ py_str_int code))
       | Url_error reason \<Rightarrow> throw (Cli_error (lit ''broker unreachable: '' @ reason))
       | Http_raises \<Rightarrow> throw Other_error
       | Http_body body session \<Rightarrow>
           andthen (if x then set_session session else hand_back ()) (\<lambda>_.
           andthen (ask (\<lambda>s. parse_response (c_float s) (c_json_error s) (c_str s) body)) lift_result))
       (\<lambda>_. talked h) ?E" for outcome
  proof (cases outcome)
    case (Http_body body ss)
    show ?thesis unfolding Http_body http_outcome.case by (intro triple_andthen [OF session] parse)
  qed (auto simp: m intro!: triple_throw)
  then show ?thesis unfolding post_payload_def by (intro triple_andthen [OF net])
qed

text \<open>One call of a tool.\<close>

lemma call_triple:
  "triple (talked h) (call_remote tool args) (\<lambda>out. talked (h @ [(tool, args, out)]))
     (\<lambda>e s. talked h s \<and> plain_exn e)"
proof -
  let ?E = "\<lambda>e s. talked h s \<and> plain_exn e"
  have next_triple: "triple (talked h) next_id (\<lambda>_. talked h) ?E"
    by (simp add: triple_def next_id_def talked_def Let_def)
  have init: "triple (talked h) initialize_session (\<lambda>_. talked h) ?E"
    unfolding initialize_session_def
    by (intro triple_andthen [OF next_triple] triple_andthen [OF post_triple] triple_give)
  have opened: "triple (talked h) (if b then initialize_session else hand_back ()) (\<lambda>_. talked h) ?E" for b
    by (cases b) (simp_all add: init triple_give)
  have noted: "triple (talked h) (andthen (note_answer tool args out) (\<lambda>_. hand_back out))
      (\<lambda>v s. v = out \<and> talked (h @ [(tool, args, out)]) s) ?E" for out
    by (simp add: triple_def andthen_def note_answer_def hand_back_def talked_def)
  have "triple (talked h) (andthen (note_answer tool args out) (\<lambda>_. hand_back out))
      (\<lambda>out. talked (h @ [(tool, args, out)])) ?E" for out
    by (rule triple_weaken [OF noted]) auto
  then show ?thesis
    unfolding call_remote_def
    by (intro triple_andthen [OF triple_ask [where Q = "\<lambda>_. talked h"]] triple_andthen [OF opened]
        triple_andthen [OF next_triple] triple_andthen [OF post_triple])
qed

text \<open>Operations that leave the state alone.\<close>

definition quiet :: "('r, 'a) act \<Rightarrow> bool" where
  "quiet m \<longleftrightarrow> (\<forall>s. snd (m s) = s)"

named_theorems quiets

lemma quiet_simple [quiets]:
  "quiet (hand_back a)" "quiet (throw e)" "quiet (ask f)" "quiet (lift_result x)"
  by (simp_all add: quiet_def hand_back_def throw_def ask_def lift_result_def)

lemma quiet_andthen [quiets]: "quiet m \<Longrightarrow> (\<And>a. quiet (f a)) \<Longrightarrow> quiet (andthen m f)"
proof -
  assume m: "quiet m" and f: "\<And>a. quiet (f a)"
  have "snd (andthen m f s) = s" for s
  proof (cases "m s")
    case (Pair x u)
    have "snd (m s) = s" using m by (simp add: quiet_def)
    then have "u = s" using Pair by simp
    then show ?thesis using f Pair by (cases x) (simp_all add: quiet_def andthen_def)
  qed
  then show ?thesis by (simp add: quiet_def)
qed

lemma quiet_if [quiets]: "quiet m \<Longrightarrow> quiet n \<Longrightarrow> quiet (if b then m else n)"
  by simp

lemma quiet_option [quiets]: "quiet m \<Longrightarrow> (\<And>a. quiet (f a)) \<Longrightarrow> quiet (case x of None \<Rightarrow> m | Some a \<Rightarrow> f a)"
  by (cases x) simp_all

lemma quiet_answers: "quiet (read_answer out)" "quiet (checkout_answer out)"
  by (unfold read_answer_def checkout_answer_def shown_field_def result_of_def unexpected_status_def)
    (intro quiets, simp split: pyval.split, intro conjI allI impI quiets)+

text \<open>What an answer leads to.\<close>

definition refused_status :: "pyval \<Rightarrow> bool" where
  "refused_status out \<longleftrightarrow> status_of out = PStr (lit ''refused'')"

definition ok_status :: "pyval \<Rightarrow> bool" where
  "ok_status out \<longleftrightarrow> status_of out = PStr (lit ''ok'')"

lemmas answer_defs = andthen_def lift_result_def ask_def throw_def hand_back_def shown_field_def result_of_def
  unexpected_status_def

lemma not_refused_message:
  "\<not> prefix (lit ''REFUSED:'') (lit ''INFRA: '' @ t)" "\<not> prefix (lit ''REFUSED:'') (lit ''VERIFY: '' @ t)"
  by (simp_all add: lit_def)

lemma read_answer_value:
  assumes "read_answer out s = (Inr bs, t)"
  shows "ok_status out \<and> content_of out = Some bs"
  using assms
  by (auto simp: read_answer_def answer_defs ok_status_def status_of_def content_of_def get_from_def dict_get_def
      split: sum.splits if_splits pyval.splits option.splits)

section \<open>Names\<close>

lemma split_on_end: "c \<notin> set y \<Longrightarrow> split_on c (x @ y) = butlast (split_on c x) @ [last (split_on c x) @ y]"
proof (induction x)
  case (Cons a x)
  then show ?case by (cases "split_on c x") auto
qed (simp add: split_on_noc)

text \<open>The last component of a path that ends in a name.\<close>

lemma components_end:
  assumes "47 \<notin> set y" "2 \<le> length y"
  shows "\<exists>pre z. components (x @ y) = pre @ [z @ y]"
proof -
  have "last (split_on 47 x) @ y \<noteq> [] \<and> last (split_on 47 x) @ y \<noteq> lit ''.''"
    using assms(2) by (auto simp: lit_def dest: arg_cong [where f = length])
  then show ?thesis using split_on_end [OF assms(1), of x] by (auto simp: components_def)
qed

lemma path_join_end:
  assumes "47 \<notin> set y" "2 \<le> length y"
  shows "\<exists>pre z. path_join d (x @ y) = pre @ [z @ y]"
  using components_end [OF assms, of x] by (auto simp: path_join_def)

lemma resolved_snoc: "c \<noteq> lit ''..'' \<Longrightarrow> resolved (p @ [c]) = resolved p @ [c]"
  by (simp add: resolved_def)

text \<open>A name with an end of its own, after whatever is before it.\<close>

lemma resolved_end:
  assumes "47 \<notin> set y" "3 \<le> length y"
  shows "\<exists>pre z. resolved (path_join d (x @ y)) = pre @ [z @ y]"
proof -
  have "2 \<le> length y" using assms(2) by simp
  from path_join_end [OF assms(1) this, of d x] obtain pre z where p: "path_join d (x @ y) = pre @ [z @ y]" by blast
  have "z @ y \<noteq> lit ''..''" using assms(2) by (auto simp: lit_def dest: arg_cong [where f = length])
  then show ?thesis using p resolved_snoc by auto
qed

text \<open>A plain name below a folder.\<close>

lemma resolved_join:
  assumes "47 \<notin> set n" "n \<noteq> []" "n \<noteq> lit ''.''" "n \<noteq> lit ''..''"
  shows "resolved (path_join d n) = resolved d @ [n]"
proof -
  have "\<not> prefix [47] n" using assms(1) by (cases n) auto
  then show ?thesis using assms resolved_snoc [OF assms(4)] by (simp add: path_join_def components_def split_on_noc)
qed

section \<open>Nodes\<close>

lemma map_of_replace:
  "map_of (map (\<lambda>(r, n). if r = p then (r, nd) else (r, n)) fs) q
     = (if q = p then map_option (\<lambda>_. nd) (map_of fs q) else map_of fs q)"
proof (induction fs)
  case (Cons e fs)
  then show ?case by (cases e; cases "q = p") simp_all
qed simp

lemma node_at_put: "node_at (put_node p nd fs) q = (if resolved q = resolved p then Some nd else node_at fs q)"
proof (cases "resolved p \<in> fst ` set fs")
  case True
  then obtain n where "map_of fs (resolved p) = Some n" by (metis image_iff map_of_eq_None_iff not_None_eq)
  with True show ?thesis by (simp add: node_at_def put_node_def map_of_replace)
next
  case False
  then have "map_of fs (resolved p) = None" by (simp add: map_of_eq_None_iff)
  with False show ?thesis by (simp add: node_at_def put_node_def map_add_def split: option.split)
qed

lemma node_at_drop: "node_at (drop_node p fs) q = (if resolved q = resolved p then None else node_at fs q)"
  by (induction fs) (auto simp: node_at_def drop_node_def)

lemma node_at_mem: "node_at fs p = Some nd \<Longrightarrow> (resolved p, nd) \<in> set fs"
  by (simp add: node_at_def map_of_SomeD)

lemma put_node_mem: "(q, n) \<in> set (put_node p nd fs) \<Longrightarrow> q = resolved p \<and> n = nd \<or> (q, n) \<in> set fs"
  by (auto simp: put_node_def Let_def split: if_splits)

lemma drop_node_mem: "(q, n) \<in> set (drop_node p fs) \<longleftrightarrow> q \<noteq> resolved p \<and> (q, n) \<in> set fs"
  by (auto simp: drop_node_def)

end
