(* ===== verification/Spec2Isabelle.thy ===== *)
theory Spec2Isabelle
  imports Grant_Properties Path_Properties Audit_Properties Nextcloud_Properties
    Matrixbot_Properties Reply_Properties Server_Properties Config Logging_Setup Adapter_Properties Broker Cli_Keeps
begin

text \<open>
  Nextcloud access broker.
\<close>

end
